(* ===== verification/Prelude.thy ===== *)
theory Prelude
  imports Main "HOL-Library.Finite_Map" "HOL-Library.List_Lexorder" "HOL-Library.Char_ord"
begin

text \<open>
  What every component shares: the Go values the model is built from (times and durations as
  nanosecond counts, finite maps with an unspecified iteration order, errors as values), the
  generic lemmas on them, and the interface of a system that preserves an invariant.

  A Go \<open>map[string]T\<close> is a finite map \<open>(string, 'v) fmap\<close>. Go strings are byte strings and are
  compared bytewise; a HOL \<open>char\<close> is a byte, and \<open>List_Lexorder\<close> with \<open>Char_ord\<close> is that order.
\<close>

named_theorems model_defs "unfolding rules for the operations of the model"
named_theorems lookup_simps "what a lookup returns after an operation"

subsection \<open>Times and durations\<close>

text \<open>
  A \<open>time.Time\<close> is the number of nanoseconds since Go's zero time (\<open>time.Time{}\<close>), a
  \<open>time.Duration\<close> a number of nanoseconds.
\<close>

type_synonym time = int
type_synonym duration = int

definition zero_time :: time where
  "zero_time = 0"

definition Second :: duration where
  "Second = 1000000000"

definition Minute :: duration where
  "Minute = 60 * Second"

definition Hour :: duration where
  "Hour = 60 * Minute"

lemma duration_pos [simp]: "0 < Second" "0 < Minute" "0 < Hour"
  by (simp_all add: Second_def Minute_def Hour_def)

subsection \<open>Errors\<close>

text \<open>
  Every error value the code constructs, as a constructor that carries what its message names. The
  comment gives the message. An operation that can fail returns \<open>error + 'a\<close>; one that only
  reports success or failure returns \<open>error option\<close>, \<open>None\<close> being Go's \<open>nil\<close>.
\<close>

datatype error =
    UnknownIdentity string          \<comment> \<open>unknown identity %q\<close>
  | IdentityNotFound string         \<comment> \<open>identity %q not found\<close>
  | AuthRequestNotFound             \<comment> \<open>auth request not found\<close>
  | ClientNotFound string           \<comment> \<open>client %q not found\<close>
  | ClientIsPublic string           \<comment> \<open>client %q is public ... and has no secret\<close>
  | InvalidClientSecret             \<comment> \<open>invalid client secret\<close>
  | LoginRequired                   \<comment> \<open>\<open>oidc.ErrLoginRequired\<close>\<close>
  | PKCEMissing string              \<comment> \<open>\<open>oidc.ErrInvalidRequest\<close>: code_challenge is missing\<close>
  | PKCEMethod string string        \<comment> \<open>\<open>oidc.ErrInvalidRequest\<close>: method must be S256, got %q\<close>
  | CodeInvalid                     \<comment> \<open>code invalid or expired\<close>
  | InvalidRefreshToken             \<comment> \<open>invalid refresh token, of the rotation\<close>
  | InvalidRefreshTokenParam        \<comment> \<open>invalid refresh_token, of the lookup\<close>
  | ExpiredRefreshToken             \<comment> \<open>expired refresh token\<close>
  | OpInvalidRefreshToken           \<comment> \<open>\<open>op.ErrInvalidRefreshToken\<close>\<close>
  | NotIssuedForClient              \<comment> \<open>\<open>oidc.ErrInvalidClient\<close>: token was not issued for this client\<close>
  | TokenInvalid                    \<comment> \<open>token invalid, of the introspection\<close>
  | TokenInvalidOrExpired           \<comment> \<open>token invalid or expired, of the userinfo\<close>
  | TokenExpired                    \<comment> \<open>token expired\<close>
  | TokenNotValidForClient          \<comment> \<open>token not valid for this client\<close>
  | JWTProfileUnsupported           \<comment> \<open>JWT profile clients are not supported\<close>
  | DeviceClientNotFound            \<comment> \<open>client not found\<close>
  | DuplicateUserCode               \<comment> \<open>\<open>op.ErrDuplicateUserCode\<close>\<close>
  | DeviceCodeNotFound              \<comment> \<open>device code not found for client\<close>
  | UserCodeNotFound                \<comment> \<open>user code not found\<close>
  | ContextErr string               \<comment> \<open>\<open>ctx.Err()\<close>\<close>
  | KeyGeneration string            \<comment> \<open>generate signing key: %w\<close>
  | EmptyConfidentialSecret         \<comment> \<open>confidential client has an empty client_secret\<close>
  | PublicWithSecret                \<comment> \<open>public client must not have a client_secret\<close>
  | UnsupportedAuthMethod string    \<comment> \<open>unsupported token_endpoint_auth_method %q\<close>
  | ReadClientsFile string          \<comment> \<open>idp: read clients file %q: %w\<close>
  | ParseClientsFile string string  \<comment> \<open>idp: parse clients file %q: %w\<close>
  | EmptyClientID string nat        \<comment> \<open>idp: clients file %q: entry %d has an empty client_id\<close>
  | BadEntry string nat string error \<comment> \<open>idp: clients file %q: entry %d (client_id %q): %w\<close>
  | ProviderError string             \<comment> \<open>the OP library's error from \<open>NewOpenIDProvider\<close>\<close>

type_synonym 'a result = "error + 'a"

text \<open>
  Binding on a result: the error of the first part is the error of the whole, as
  \<open>if err != nil { return err }\<close> does.
\<close>

definition bind_result :: "'a result \<Rightarrow> ('a \<Rightarrow> 'b result) \<Rightarrow> 'b result" where
  "bind_result r f = (case r of Inl e \<Rightarrow> Inl e | Inr a \<Rightarrow> f a)"

lemma bind_result_simps [simp]:
  "bind_result (Inl e) f = Inl e" "bind_result (Inr a) f = f a"
  by (simp_all add: bind_result_def)

lemma bind_result_Inr: "bind_result r f = Inr b \<longleftrightarrow> (\<exists>a. r = Inr a \<and> f a = Inr b)"
  by (cases r) simp_all

subsection \<open>Ranging over a map\<close>

text \<open>
  \<open>for k := range m\<close> visits every key once, in an order Go leaves unspecified. A loop of the code
  is a recursion over such a list of keys; \<open>enumerates\<close> says which lists the runtime may choose,
  and \<open>range_keys\<close> is one of them. Every loop of the code is shown not to depend on the choice.
\<close>

definition enumerates :: "'k list \<Rightarrow> ('k, 'v) fmap \<Rightarrow> bool" where
  "enumerates ks m \<longleftrightarrow> distinct ks \<and> set ks = fmdom' m"

definition range_keys :: "('k::linorder, 'v) fmap \<Rightarrow> 'k list" where
  "range_keys m = sorted_list_of_set (fmdom' m)"

lemma set_range_keys [simp]: "set (range_keys m) = fmdom' m"
  by (simp add: range_keys_def)

lemma distinct_range_keys [simp]: "distinct (range_keys m)"
  by (simp add: range_keys_def)

lemma sorted_range_keys [simp]: "sorted (range_keys m)"
  by (simp add: range_keys_def)

lemma enumerates_range_keys [simp, intro]: "enumerates (range_keys m) m"
  by (simp add: enumerates_def)

text \<open>Sorting any enumeration gives the same list.\<close>

lemma sort_enumerates: "enumerates ks m \<Longrightarrow> sort ks = range_keys m"
  unfolding enumerates_def range_keys_def
  by (metis sorted_list_of_set_sort_remdups distinct_remdups_id)

text \<open>The loop that deletes the entries satisfying a condition while ranging over the map.\<close>

primrec range_delete :: "('k \<Rightarrow> 'v \<Rightarrow> bool) \<Rightarrow> 'k list \<Rightarrow> ('k, 'v) fmap \<Rightarrow> ('k, 'v) fmap" where
  "range_delete P [] m = m"
| "range_delete P (k # ks) m =
     range_delete P ks
       (case fmlookup m k of
          None \<Rightarrow> m
        | Some v \<Rightarrow> if P k v then fmdrop k m else m)"

definition fmdelete :: "('k \<Rightarrow> 'v \<Rightarrow> bool) \<Rightarrow> ('k, 'v) fmap \<Rightarrow> ('k, 'v) fmap" where
  "fmdelete P m = fmfilter (\<lambda>k. \<not> P k (the (fmlookup m k))) m"

lemma fmlookup_fmdelete [simp]:
  "fmlookup (fmdelete P m) k =
     (case fmlookup m k of None \<Rightarrow> None | Some v \<Rightarrow> if P k v then None else Some v)"
  by (simp add: fmdelete_def split: option.splits)

lemma fmlookup_range_delete:
  "fmlookup (range_delete P ks m) k =
     (case fmlookup m k of
        None \<Rightarrow> None
      | Some v \<Rightarrow> if k \<in> set ks \<and> P k v then None else Some v)"
proof (induction ks arbitrary: m)
  case Nil
  show ?case by (simp split: option.splits)
next
  case (Cons a ks)
  then show ?case by (auto split: option.splits if_splits)
qed

lemma range_delete_eq: "enumerates ks m \<Longrightarrow> range_delete P ks m = fmdelete P m"
  by (rule fmap_ext)
    (auto simp: fmlookup_range_delete enumerates_def fmlookup_dom'_iff split: option.splits)

lemma range_delete_range_keys [simp]: "range_delete P (range_keys m) m = fmdelete P m"
  by (rule range_delete_eq) simp

subsection \<open>Lists\<close>

lemma sorted_distinct_eqI:
  "sorted xs \<Longrightarrow> distinct xs \<Longrightarrow> sorted ys \<Longrightarrow> distinct ys \<Longrightarrow> set xs = set ys \<Longrightarrow> xs = ys"
  for xs ys :: "'a::linorder list"
  by (rule sorted_distinct_set_unique)

lemma find_Some_iff_set: "find P xs = Some x \<Longrightarrow> x \<in> set xs \<and> P x"
  by (auto simp: find_Some_iff)

subsection \<open>Systems and their invariants\<close>

text \<open>
  The interface between a component's steps and what they keep: an invariant that one step keeps
  holds after any number of steps.
\<close>

locale step_invariant =
  fixes step :: "'s \<Rightarrow> 's \<Rightarrow> bool"
    and inv :: "'s \<Rightarrow> bool"
  assumes step_inv: "inv s \<Longrightarrow> step s t \<Longrightarrow> inv t"
begin

lemma steps_inv: "step\<^sup>*\<^sup>* s t \<Longrightarrow> inv s \<Longrightarrow> inv t"
  by (induction rule: rtranclp_induct) (auto intro: step_inv)

end

text \<open>An observation that, under an invariant, only ever changes along a preorder.\<close>

locale step_monotone = step_invariant step inv
  for step :: "'s \<Rightarrow> 's \<Rightarrow> bool" and inv :: "'s \<Rightarrow> bool" +
  fixes rel :: "'s \<Rightarrow> 's \<Rightarrow> bool"
  assumes rel_refl: "rel s s"
    and rel_trans: "rel s t \<Longrightarrow> rel t u \<Longrightarrow> rel s u"
    and step_rel: "inv s \<Longrightarrow> step s t \<Longrightarrow> rel s t"
begin

lemma steps_rel: "step\<^sup>*\<^sup>* s t \<Longrightarrow> inv s \<Longrightarrow> inv t \<and> rel s t"
proof (induction rule: rtranclp_induct)
  case base
  then show ?case by (simp add: rel_refl)
next
  case (step t u)
  then show ?case by (blast intro: step_inv rel_trans step_rel)
qed

end

end
