(* ===== verification/Clients.thy ===== *)
theory Clients
  imports Prelude
begin

text \<open>
  OAuth2 clients (\<open>internal/idp/clients.go\<close>): the launchpad tile, the client record and the
  methods by which it implements \<open>op.Client\<close>, and the seeded registry.

  \<open>oidc.AuthMethod\<close>, \<open>oidc.GrantType\<close>, \<open>oidc.ResponseType\<close> are string types of the OpenID library.
  The constants the code names have the values its comments, README and tests give.
\<close>

type_synonym AuthMethod = string
type_synonym GrantType = string
type_synonym ResponseType = string

definition AuthMethodBasic :: AuthMethod where
  "AuthMethodBasic = ''client_secret_basic''"

definition AuthMethodNone :: AuthMethod where
  "AuthMethodNone = ''none''"

definition GrantTypeCode :: GrantType where
  "GrantTypeCode = ''authorization_code''"

definition GrantTypeRefreshToken :: GrantType where
  "GrantTypeRefreshToken = ''refresh_token''"

definition GrantTypeDeviceCode :: GrantType where
  "GrantTypeDeviceCode = ''urn:ietf:params:oauth:grant-type:device_code''"

definition ResponseTypeCode :: ResponseType where
  "ResponseTypeCode = ''code''"

datatype ApplicationType = ApplicationTypeWeb | ApplicationTypeNative

datatype AccessTokenType = AccessTokenTypeBearer | AccessTokenTypeJWT

subsection \<open>Tiles and clients\<close>

record Tile =
  tile_Name :: string
  tile_Description :: string
  tile_IconURL :: string
  tile_LaunchURL :: string

record Client =
  c_id :: string
  c_secret :: string
  c_redirectURIs :: "string list"
  c_grantTypes :: "GrantType list"
  c_authMethod :: AuthMethod
  c_tile :: Tile

definition loginPath :: string where
  "loginPath = ''/login''"

definition queryAuthRequestID :: string where
  "queryAuthRequestID = ''authRequestID''"

definition GetID :: "Client \<Rightarrow> string" where
  "GetID c = c_id c"

definition clientTile :: "Client \<Rightarrow> Tile" where
  "clientTile c = c_tile c"

definition RedirectURIs :: "Client \<Rightarrow> string list" where
  "RedirectURIs c = c_redirectURIs c"

definition PostLogoutRedirectURIs :: "Client \<Rightarrow> string list" where
  "PostLogoutRedirectURIs c = []"

definition IsPublic :: "Client \<Rightarrow> bool" where
  "IsPublic c \<longleftrightarrow> c_authMethod c = AuthMethodNone"

definition clientApplicationType :: "Client \<Rightarrow> ApplicationType" where
  "clientApplicationType c = (if IsPublic c then ApplicationTypeNative else ApplicationTypeWeb)"

definition clientAuthMethod :: "Client \<Rightarrow> AuthMethod" where
  "clientAuthMethod c = c_authMethod c"

definition ResponseTypes :: "Client \<Rightarrow> ResponseType list" where
  "ResponseTypes c = [ResponseTypeCode]"

definition GrantTypes :: "Client \<Rightarrow> GrantType list" where
  "GrantTypes c = c_grantTypes c"

definition LoginURL :: "Client \<Rightarrow> string \<Rightarrow> string" where
  "LoginURL c authID = loginPath @ ''?'' @ queryAuthRequestID @ ''='' @ authID"

definition clientAccessTokenType :: "Client \<Rightarrow> AccessTokenType" where
  "clientAccessTokenType c = AccessTokenTypeBearer"

definition IDTokenLifetime :: "Client \<Rightarrow> duration" where
  "IDTokenLifetime c = 15 * Minute"

definition DevMode :: "Client \<Rightarrow> bool" where
  "DevMode c = False"

definition RestrictAdditionalIdTokenScopes :: "Client \<Rightarrow> string list \<Rightarrow> string list" where
  "RestrictAdditionalIdTokenScopes c = (\<lambda>scopes. scopes)"

definition RestrictAdditionalAccessTokenScopes :: "Client \<Rightarrow> string list \<Rightarrow> string list" where
  "RestrictAdditionalAccessTokenScopes c = (\<lambda>scopes. scopes)"

definition IsScopeAllowed :: "Client \<Rightarrow> string \<Rightarrow> bool" where
  "IsScopeAllowed c scope = False"

definition IDTokenUserinfoClaimsAssertion :: "Client \<Rightarrow> bool" where
  "IDTokenUserinfoClaimsAssertion c = True"

definition ClockSkew :: "Client \<Rightarrow> duration" where
  "ClockSkew c = 0"

subsection \<open>The seeded registry\<close>

definition exampleClientID :: string where
  "exampleClientID = ''devedge-idp-example''"

definition exampleClientSecret :: string where
  "exampleClientSecret = ''dev-secret''"

text \<open>\<open>seedClients\<close> is variadic: \<open>redirectURIs\<close> is the list of its arguments.\<close>

definition seedClients :: "string list \<Rightarrow> (string, Client) fmap" where
  "seedClients redirectURIs =
     (let uris = (if length redirectURIs = 0 then [''http://127.0.0.1:0/callback''] else redirectURIs)
      in fmupd exampleClientID
           \<lparr>c_id = exampleClientID, c_secret = exampleClientSecret, c_redirectURIs = uris,
             c_grantTypes = [GrantTypeCode, GrantTypeRefreshToken, GrantTypeDeviceCode],
             c_authMethod = AuthMethodBasic,
             c_tile = \<lparr>tile_Name = ''devedge IdP Example'',
                        tile_Description = ''The seeded example app identity.'',
                        tile_IconURL = [], tile_LaunchURL = []\<rparr>\<rparr> fmempty)"

lemma AuthMethod_distinct [simp]:
  "AuthMethodBasic \<noteq> AuthMethodNone" "AuthMethodNone \<noteq> AuthMethodBasic"
  "AuthMethodBasic \<noteq> []" "AuthMethodNone \<noteq> []"
  by (simp_all add: AuthMethodBasic_def AuthMethodNone_def)

text \<open>
  A client's records agree when it is filed under its own id, a public client holds no secret and a
  confidential one holds one.
\<close>

definition wf_client :: "Client \<Rightarrow> bool" where
  "wf_client c \<longleftrightarrow> c_id c \<noteq> [] \<and> c_authMethod c \<in> {AuthMethodBasic, AuthMethodNone}
     \<and> (IsPublic c \<longleftrightarrow> c_secret c = [])"

lemma dom_seedClients [simp]: "fmdom' (seedClients uris) = {exampleClientID}"
  by (simp add: seedClients_def Let_def)

lemma wf_seedClients: "fmlookup (seedClients uris) cid = Some c \<Longrightarrow> c_id c = cid \<and> wf_client c"
  by (auto simp: seedClients_def Let_def wf_client_def IsPublic_def exampleClientID_def
      exampleClientSecret_def split: if_splits)

end
