(* ===== verification/AuthRequest.thy ===== *)
theory AuthRequest
  imports Prelude Clients
begin

text \<open>
  In-flight authorization requests (\<open>internal/idp/authrequest.go\<close>): the wire request the OpenID
  library hands over, the stored request, its construction and the methods by which it implements
  \<open>op.AuthRequest\<close>.

  The wire request \<open>oidc.AuthRequest\<close> is the library's struct; the record has the fields the code
  reads. The string constants are those of OpenID Connect Core (prompt values) and RFC 7636 (code
  challenge methods).
\<close>

type_synonym CodeChallengeMethod = string
type_synonym ResponseMode = string

definition CodeChallengeMethodPlain :: CodeChallengeMethod where
  "CodeChallengeMethodPlain = ''plain''"

definition CodeChallengeMethodS256 :: CodeChallengeMethod where
  "CodeChallengeMethodS256 = ''S256''"

definition PromptNone :: string where "PromptNone = ''none''"
definition PromptLogin :: string where "PromptLogin = ''login''"
definition PromptConsent :: string where "PromptConsent = ''consent''"
definition PromptSelectAccount :: string where "PromptSelectAccount = ''select_account''"

record CodeChallenge =
  Challenge :: string
  Method :: CodeChallengeMethod

record oidcAuthRequest =
  o_Scopes :: "string list"
  o_ResponseType :: ResponseType
  o_ClientID :: string
  o_RedirectURI :: string
  o_State :: string
  o_Nonce :: string
  o_ResponseMode :: ResponseMode
  o_Prompt :: "string list"
  o_CodeChallenge :: string
  o_CodeChallengeMethod :: CodeChallengeMethod

record authRequest =
  ar_id :: string
  ar_applicationID :: string
  ar_callbackURI :: string
  ar_state :: string
  ar_nonce :: string
  ar_scopes :: "string list"
  ar_responseType :: ResponseType
  ar_responseMode :: ResponseMode
  ar_prompt :: "string list"
  ar_codeChallenge :: "CodeChallenge option"
  ar_userID :: string
  ar_authTime :: time
  ar_done :: bool

text \<open>The loop of \<open>oidcPromptToInternal\<close>: unknown prompt values are dropped, the order is kept.\<close>

fun oidcPromptToInternal :: "string list \<Rightarrow> string list" where
  "oidcPromptToInternal [] = []"
| "oidcPromptToInternal (p # prompt) =
     (if p = PromptNone \<or> p = PromptLogin \<or> p = PromptConsent \<or> p = PromptSelectAccount
      then p # oidcPromptToInternal prompt
      else oidcPromptToInternal prompt)"

text \<open>
  The fields the struct literal does not set have Go's zero values: the empty id (set by
  \<open>CreateAuthRequest\<close>), the zero time, not done.
\<close>

definition authRequestFromOIDC :: "oidcAuthRequest \<Rightarrow> string \<Rightarrow> authRequest" where
  "authRequestFromOIDC ar userID =
     (let challenge =
            (if o_CodeChallenge ar \<noteq> []
             then let method = (if o_CodeChallengeMethod ar = CodeChallengeMethodS256
                                then CodeChallengeMethodS256 else CodeChallengeMethodPlain)
                  in Some \<lparr>Challenge = o_CodeChallenge ar, Method = method\<rparr>
             else None)
      in \<lparr>ar_id = [], ar_applicationID = o_ClientID ar, ar_callbackURI = o_RedirectURI ar,
          ar_state = o_State ar, ar_nonce = o_Nonce ar, ar_scopes = o_Scopes ar,
          ar_responseType = o_ResponseType ar, ar_responseMode = o_ResponseMode ar,
          ar_prompt = oidcPromptToInternal (o_Prompt ar), ar_codeChallenge = challenge,
          ar_userID = userID, ar_authTime = zero_time, ar_done = False\<rparr>)"

subsection \<open>The methods of \<open>op.AuthRequest\<close>\<close>

definition authGetID :: "authRequest \<Rightarrow> string" where
  "authGetID a = ar_id a"

definition GetACR :: "authRequest \<Rightarrow> string" where
  "GetACR a = []"

definition GetAMR :: "authRequest \<Rightarrow> string list" where
  "GetAMR a = (if ar_done a then [''none''] else [])"

definition GetAudience :: "authRequest \<Rightarrow> string list" where
  "GetAudience a = [ar_applicationID a]"

definition GetSubject :: "authRequest \<Rightarrow> string" where
  "GetSubject a = ar_userID a"

definition GetScopes :: "authRequest \<Rightarrow> string list" where
  "GetScopes a = ar_scopes a"

definition GetAuthTime :: "authRequest \<Rightarrow> time" where
  "GetAuthTime a = ar_authTime a"

definition GetClientID :: "authRequest \<Rightarrow> string" where
  "GetClientID a = ar_applicationID a"

definition GetCodeChallenge :: "authRequest \<Rightarrow> CodeChallenge option" where
  "GetCodeChallenge a = ar_codeChallenge a"

definition GetRedirectURI :: "authRequest \<Rightarrow> string" where
  "GetRedirectURI a = ar_callbackURI a"

definition GetNonce :: "authRequest \<Rightarrow> string" where
  "GetNonce a = ar_nonce a"

definition GetResponseType :: "authRequest \<Rightarrow> ResponseType" where
  "GetResponseType a = ar_responseType a"

definition GetResponseMode :: "authRequest \<Rightarrow> ResponseMode" where
  "GetResponseMode a = ar_responseMode a"

definition GetState :: "authRequest \<Rightarrow> string" where
  "GetState a = ar_state a"

definition Done :: "authRequest \<Rightarrow> bool" where
  "Done a = ar_done a"

lemma set_oidcPromptToInternal:
  "set (oidcPromptToInternal prompt) =
     set prompt \<inter> {PromptNone, PromptLogin, PromptConsent, PromptSelectAccount}"
  by (induction prompt) auto

lemma authRequestFromOIDC_simps [simp]:
  "ar_id (authRequestFromOIDC ar u) = []"
  "ar_applicationID (authRequestFromOIDC ar u) = o_ClientID ar"
  "ar_callbackURI (authRequestFromOIDC ar u) = o_RedirectURI ar"
  "ar_state (authRequestFromOIDC ar u) = o_State ar"
  "ar_scopes (authRequestFromOIDC ar u) = o_Scopes ar"
  "ar_userID (authRequestFromOIDC ar u) = u"
  "ar_done (authRequestFromOIDC ar u) = False"
  by (simp_all add: authRequestFromOIDC_def Let_def)

text \<open>
  The challenge is recorded exactly when one was sent; a method the library does not know is
  recorded as \<open>plain\<close>.
\<close>

lemma codeChallenge_fromOIDC:
  "ar_codeChallenge (authRequestFromOIDC ar u) =
     (if o_CodeChallenge ar = [] then None
      else Some \<lparr>Challenge = o_CodeChallenge ar,
                 Method = (if o_CodeChallengeMethod ar = CodeChallengeMethodS256
                           then CodeChallengeMethodS256 else CodeChallengeMethodPlain)\<rparr>)"
  by (simp add: authRequestFromOIDC_def Let_def)

end
