(* ===== verification/Storage.thy ===== *)
theory Storage
  imports Prelude Clients AuthRequest
begin

text \<open>
  The in-memory storage (\<open>internal/idp/storage.go\<close>): its state, its construction, the signing key
  and the client registry.

  The maps hold pointers. \<open>Client\<close> and \<open>token\<close> objects are never written after they are made, and
  an \<open>authRequest\<close> or a device state is only written through the one map entry that holds it, so
  those maps hold the objects themselves. A \<open>refreshToken\<close> is shared: the entry of \<open>refreshers\<close> and
  every \<open>refreshTokenRequest\<close> handed to the OP point to one object, which \<open>SetCurrentScopes\<close> and
  the rotation write. \<open>refreshers\<close> therefore holds addresses into \<open>rtHeap\<close>, the heap of these
  objects.

  Every method takes the mutex for the whole of its work on the maps, so an operation is one atomic
  step; a method that takes it twice is modelled by a definition with one state for each section.
  Ids from \<open>uuid.NewString\<close> and readings of \<open>time.Now\<close> are arguments, in the order the code asks
  for them.
\<close>

type_synonym addr = nat

record token =
  tk_id :: string
  tk_applicationID :: string
  tk_subject :: string
  tk_refreshID :: string
  tk_audience :: "string list"
  tk_expiration :: time
  tk_scopes :: "string list"

record refreshToken =
  rt_id :: string
  rt_authTime :: time
  rt_amr :: "string list"
  rt_audience :: "string list"
  rt_userID :: string
  rt_applicationID :: string
  rt_expiration :: time
  rt_scopes :: "string list"
  rt_accessTokenID :: string

text \<open>\<open>op.DeviceAuthorizationState\<close>: the fields the code writes.\<close>

record DeviceAuthorizationState =
  ds_ClientID :: string
  ds_Scopes :: "string list"
  ds_Expires :: time
  ds_Subject :: string
  ds_AuthTime :: time
  ds_AMR :: "string list"
  ds_Done :: bool
  ds_Denied :: bool

record deviceEntry =
  de_deviceCode :: string
  de_userCode :: string
  de_state :: DeviceAuthorizationState

record rsaPublicKey =
  rsa_N :: int
  rsa_E :: int

record rsaPrivateKey =
  rsa_PublicKey :: rsaPublicKey
  rsa_D :: int
  rsa_Primes :: "int list"

type_synonym SignatureAlgorithm = string

definition RS256 :: SignatureAlgorithm where
  "RS256 = ''RS256''"

record signingKey =
  sk_id :: string
  sk_algorithm :: SignatureAlgorithm
  sk_key :: rsaPrivateKey

record storage =
  authRequests :: "(string, authRequest) fmap"
  codes :: "(string, string) fmap"
  tokens :: "(string, token) fmap"
  refreshers :: "(string, addr) fmap"
  rtHeap :: "(addr, refreshToken) fmap"
  rtNext :: addr
  clients :: "(string, Client) fmap"
  seedIDs :: "string fset"
  signKey :: signingKey
  deviceCodes :: "(string, deviceEntry) fmap"
  userCodes :: "(string, string) fmap"

text \<open>\<open>NewStorage\<close>: \<open>key\<close> is what \<open>rsa.GenerateKey\<close> returned, \<open>kid\<close> the key's fresh id.\<close>

definition NewStorage ::
    "string + rsaPrivateKey \<Rightarrow> string \<Rightarrow> (string, Client) fmap \<Rightarrow> storage result" where
  "NewStorage key kid cs =
     (case key of
        Inl msg \<Rightarrow> Inl (KeyGeneration msg)
      | Inr k \<Rightarrow> Inr
          \<lparr>authRequests = fmempty, codes = fmempty, tokens = fmempty, refreshers = fmempty,
           rtHeap = fmempty, rtNext = 0, clients = cs, seedIDs = fmdom cs,
           signKey = \<lparr>sk_id = kid, sk_algorithm = RS256, sk_key = k\<rparr>,
           deviceCodes = fmempty, userCodes = fmempty\<rparr>)"

subsection \<open>The signing key\<close>

text \<open>
  \<open>publicKey\<close> embeds the signing key and overrides its \<open>Key\<close> method to hand out the public half.
  \<open>SigningKey\<close> and \<open>KeySet\<close> return interface values, so what a caller sees is the methods.
\<close>

record opSigningKey =
  sign_ID :: string
  sign_Algorithm :: SignatureAlgorithm
  sign_Key :: rsaPrivateKey

record opKey =
  pub_ID :: string
  pub_Algorithm :: SignatureAlgorithm
  pub_Use :: string
  pub_Key :: rsaPublicKey

definition signingKeyView :: "signingKey \<Rightarrow> opSigningKey" where
  "signingKeyView k = \<lparr>sign_ID = sk_id k, sign_Algorithm = sk_algorithm k, sign_Key = sk_key k\<rparr>"

definition publicKeyView :: "signingKey \<Rightarrow> opKey" where
  "publicKeyView k =
     \<lparr>pub_ID = sk_id k, pub_Algorithm = sk_algorithm k, pub_Use = ''sig'',
      pub_Key = rsa_PublicKey (sk_key k)\<rparr>"

definition SigningKey :: "storage \<Rightarrow> opSigningKey result" where
  "SigningKey s = Inr (signingKeyView (signKey s))"

definition SignatureAlgorithms :: "storage \<Rightarrow> SignatureAlgorithm list result" where
  "SignatureAlgorithms s = Inr [sk_algorithm (signKey s)]"

definition KeySet :: "storage \<Rightarrow> opKey list result" where
  "KeySet s = Inr [publicKeyView (signKey s)]"

subsection \<open>The client registry\<close>

definition RegisterClient :: "Client \<Rightarrow> storage \<Rightarrow> storage" where
  "RegisterClient c s = s\<lparr>clients := fmupd (c_id c) c (clients s)\<rparr>"

text \<open>
  \<open>ReplaceFileClients\<close> has two loops: over the registry, deleting what is not seeded, in the order
  \<open>ks\<close> of the runtime; then over the new clients, in their order.
\<close>

primrec registerAll :: "Client list \<Rightarrow> (string, Client) fmap \<Rightarrow> (string, Client) fmap" where
  "registerAll [] m = m"
| "registerAll (c # cs) m = registerAll cs (fmupd (c_id c) c m)"

definition ReplaceFileClients_range ::
    "string list \<Rightarrow> Client list \<Rightarrow> storage \<Rightarrow> storage" where
  "ReplaceFileClients_range ks cs s =
     s\<lparr>clients := registerAll cs (range_delete (\<lambda>cid _. cid |\<notin>| seedIDs s) ks (clients s))\<rparr>"

definition ReplaceFileClients :: "Client list \<Rightarrow> storage \<Rightarrow> storage" where
  "ReplaceFileClients cs s = ReplaceFileClients_range (range_keys (clients s)) cs s"

definition GetClientByClientID :: "string \<Rightarrow> storage \<Rightarrow> Client result" where
  "GetClientByClientID clientID s =
     (case fmlookup (clients s) clientID of
        None \<Rightarrow> Inl (ClientNotFound clientID)
      | Some c \<Rightarrow> Inr c)"

text \<open>
  \<open>subtle.ConstantTimeCompare\<close> returns 1 on equal contents and 0 otherwise; strings of different
  lengths are not equal.
\<close>

definition ConstantTimeCompare :: "string \<Rightarrow> string \<Rightarrow> int" where
  "ConstantTimeCompare x y =
     (if length x \<noteq> length y then 0
      else if list_all (\<lambda>(a, b). a = b) (zip x y) then 1 else 0)"

definition AuthorizeClientIDSecret :: "string \<Rightarrow> string \<Rightarrow> storage \<Rightarrow> error option" where
  "AuthorizeClientIDSecret clientID clientSecret s =
     (case fmlookup (clients s) clientID of
        None \<Rightarrow> Some (ClientNotFound clientID)
      | Some c \<Rightarrow>
          if IsPublic c then Some (ClientIsPublic clientID)
          else if ConstantTimeCompare (c_secret c) clientSecret \<noteq> 1
               then Some InvalidClientSecret
               else None)"

subsection \<open>Tiles and client ids\<close>

record ClientTile =
  ct_ClientID :: string
  ct_Tile :: Tile

primrec collectTiles :: "string list \<Rightarrow> (string, Client) fmap \<Rightarrow> ClientTile list" where
  "collectTiles [] m = []"
| "collectTiles (k # ks) m =
     (case fmlookup m k of
        None \<Rightarrow> collectTiles ks m
      | Some c \<Rightarrow> \<lparr>ct_ClientID = k, ct_Tile = c_tile c\<rparr> # collectTiles ks m)"

definition ClientTiles_range :: "string list \<Rightarrow> storage \<Rightarrow> ClientTile list" where
  "ClientTiles_range ks s = sort_key ct_ClientID (collectTiles ks (clients s))"

definition ClientTiles :: "storage \<Rightarrow> ClientTile list" where
  "ClientTiles s = ClientTiles_range (range_keys (clients s)) s"

definition allClientIDs_range :: "string list \<Rightarrow> storage \<Rightarrow> string list" where
  "allClientIDs_range ks s = sort ks"

definition allClientIDs :: "storage \<Rightarrow> string list" where
  "allClientIDs s = allClientIDs_range (range_keys (clients s)) s"

end
