(* ===== verification/Registry.thy ===== *)
theory Registry
  imports Storage
begin

text \<open>
  The client registry as its users see it. The launchpad, the claims and the clients-file watcher
  rely on four things: the registered ids come sorted and without duplicates, an id is listed
  exactly when it can be looked up, and replacing the file clients keeps the seeds and installs the
  new clients. The locale states this interface; the storage interprets it, for every order in
  which the runtime may range over the registry.
\<close>

text \<open>The client a list installs under an id: the last one with that id.\<close>

definition declared :: "Client list \<Rightarrow> string \<Rightarrow> Client option" where
  "declared cs cid = find (\<lambda>c. c_id c = cid) (rev cs)"

lemma declared_Nil [simp]: "declared [] cid = None"
  by (simp add: declared_def)

lemma declared_snoc: "declared (cs @ [c]) cid = (if c_id c = cid then Some c else declared cs cid)"
  by (simp add: declared_def)

lemma declared_None_iff: "declared cs cid = None \<longleftrightarrow> cid \<notin> c_id ` set cs"
  by (auto simp: declared_def find_None_iff)

lemma declared_id: "declared cs cid = Some c \<Longrightarrow> c \<in> set cs \<and> c_id c = cid"
  by (auto simp: declared_def dest: find_Some_iff_set)

locale client_registry =
  fixes get :: "'s \<Rightarrow> string \<Rightarrow> Client option"
    and ids :: "'s \<Rightarrow> string list"
    and seeds :: "'s \<Rightarrow> string set"
    and replace :: "Client list \<Rightarrow> 's \<Rightarrow> 's"
  assumes ids_sorted: "sorted (ids s)"
    and ids_distinct: "distinct (ids s)"
    and ids_get: "cid \<in> set (ids s) \<longleftrightarrow> get s cid \<noteq> None"
    and get_replace: "get (replace cs s) cid =
          (case declared cs cid of
             Some c \<Rightarrow> Some c
           | None \<Rightarrow> if cid \<in> seeds s then get s cid else None)"
    and seeds_replace: "seeds (replace cs s) = seeds s"
begin

lemma set_ids_replace:
  "set (ids (replace cs s)) = c_id ` set cs \<union> (seeds s \<inter> set (ids s))"
proof (rule set_eqI)
  fix cid
  show "cid \<in> set (ids (replace cs s)) \<longleftrightarrow> cid \<in> c_id ` set cs \<union> (seeds s \<inter> set (ids s))"
  proof (cases "declared cs cid")
    case None
    then have "cid \<notin> c_id ` set cs" by (simp add: declared_None_iff)
    with None show ?thesis by (simp add: ids_get get_replace)
  next
    case (Some c)
    then have "cid \<in> c_id ` set cs" using declared_id by fastforce
    with Some show ?thesis by (simp add: ids_get get_replace)
  qed
qed

lemma ids_strictly_sorted: "sorted_wrt (<) (ids s)"
  using ids_sorted ids_distinct by (simp add: strict_sorted_iff)

lemma ids_eqI: "get s = get t \<Longrightarrow> ids s = ids t"
  by (rule sorted_distinct_eqI) (auto simp: ids_sorted ids_distinct ids_get)

text \<open>A reload forgets earlier reloads, unless one of them reused a seeded id.\<close>

lemma get_replace_replace:
  "c_id ` set cs1 \<inter> seeds s = {} \<Longrightarrow> get (replace cs2 (replace cs1 s)) = get (replace cs2 s)"
  by (rule ext)
    (auto simp: get_replace seeds_replace split: option.splits dest: declared_id)

lemma get_replace_seed_reused:
  "cid \<in> seeds s \<Longrightarrow> declared cs1 cid = Some c \<Longrightarrow> declared cs2 cid = None \<Longrightarrow>
     get (replace cs2 (replace cs1 s)) cid = Some c"
  by (simp add: get_replace seeds_replace)

lemma get_replace_dropped:
  "cid \<notin> seeds s \<Longrightarrow> cid \<notin> c_id ` set cs \<Longrightarrow> get (replace cs s) cid = None"
  using declared_None_iff [of cs cid] by (simp add: get_replace)

end

subsection \<open>The storage implements the registry\<close>

lemma fmlookup_registerAll:
  "fmlookup (registerAll cs m) cid =
     (case declared cs cid of Some c \<Rightarrow> Some c | None \<Rightarrow> fmlookup m cid)"
proof (induction cs arbitrary: m rule: rev_induct)
  case Nil
  show ?case by simp
next
  case (snoc c cs)
  have "registerAll (cs @ [c]) m = fmupd (c_id c) c (registerAll cs m)"
    by (induction cs arbitrary: m) simp_all
  with snoc show ?case by (auto simp: declared_snoc)
qed

lemma ReplaceFileClients_range_eq:
  "enumerates ks (clients s) \<Longrightarrow> ReplaceFileClients_range ks cs s = ReplaceFileClients cs s"
  by (simp add: ReplaceFileClients_def ReplaceFileClients_range_def range_delete_eq)

lemma lookup_ReplaceFileClients [lookup_simps]:
  "fmlookup (clients (ReplaceFileClients cs s)) cid =
     (case declared cs cid of
        Some c \<Rightarrow> Some c
      | None \<Rightarrow> if cid |\<in>| seedIDs s then fmlookup (clients s) cid else None)"
  by (auto simp: ReplaceFileClients_def ReplaceFileClients_range_def fmlookup_registerAll
      split: option.splits)

lemma seedIDs_ReplaceFileClients [simp]: "seedIDs (ReplaceFileClients cs s) = seedIDs s"
  by (simp add: ReplaceFileClients_def ReplaceFileClients_range_def)

lemma allClientIDs_eq: "allClientIDs s = range_keys (clients s)"
  by (simp add: allClientIDs_def allClientIDs_range_def sorted_sort_id)

lemma allClientIDs_range_eq:
  "enumerates ks (clients s) \<Longrightarrow> allClientIDs_range ks s = allClientIDs s"
  by (simp add: allClientIDs_eq allClientIDs_range_def sort_enumerates)

interpretation reg: client_registry
  "\<lambda>s. fmlookup (clients s)" allClientIDs "\<lambda>s. fset (seedIDs s)" ReplaceFileClients
  by unfold_locales
    (auto simp: allClientIDs_eq lookup_ReplaceFileClients fmlookup_dom'_iff split: option.splits)

subsection \<open>Tiles\<close>

lemma collectTiles_ids: "set ks \<subseteq> fmdom' m \<Longrightarrow> map ct_ClientID (collectTiles ks m) = ks"
  by (induction ks) (auto simp: fmlookup_dom'_iff split: option.splits)

lemma set_collectTiles:
  "set (collectTiles ks m) =
     {\<lparr>ct_ClientID = k, ct_Tile = c_tile c\<rparr> |k c. k \<in> set ks \<and> fmlookup m k = Some c}"
  by (induction ks) (auto split: option.splits)

lemma map_insort_key: "map f (insort_key f x xs) = insort (f x) (map f xs)"
  by (induction xs) simp_all

lemma map_sort_key: "map f (sort_key f xs) = sort (map f xs)"
  by (induction xs) (simp_all add: map_insort_key)

lemma ClientTiles_range_ids:
  "enumerates ks (clients s) \<Longrightarrow> map ct_ClientID (ClientTiles_range ks s) = allClientIDs s"
  by (simp add: ClientTiles_range_def map_sort_key collectTiles_ids enumerates_def
      allClientIDs_eq sort_enumerates)

lemma set_ClientTiles_range:
  "enumerates ks (clients s) \<Longrightarrow>
     set (ClientTiles_range ks s) =
       {\<lparr>ct_ClientID = k, ct_Tile = c_tile c\<rparr> |k c. fmlookup (clients s) k = Some c}"
  by (auto simp: ClientTiles_range_def set_collectTiles enumerates_def fmlookup_dom'_iff)

lemma inj_on_ct_ClientID:
  "inj_on ct_ClientID
     {\<lparr>ct_ClientID = k, ct_Tile = c_tile c\<rparr> |k c. fmlookup (m :: (string, Client) fmap) k = Some c}"
  by (auto simp: inj_on_def)

text \<open>
  Two duplicate-free lists sorted by the same key, with the same elements, are equal when the key
  tells the elements apart.
\<close>

lemma map_inj_eqI:
  "map f xs = map f ys \<Longrightarrow> set xs = set ys \<Longrightarrow> inj_on f (set xs) \<Longrightarrow> xs = ys"
  by (metis Un_absorb inj_on_map_eq_map)

lemma ClientTiles_range_eq:
  assumes "enumerates ks (clients s)"
  shows "ClientTiles_range ks s = ClientTiles s"
proof (rule map_inj_eqI [where f = ct_ClientID])
  show "map ct_ClientID (ClientTiles_range ks s) = map ct_ClientID (ClientTiles s)"
    using assms by (simp add: ClientTiles_def ClientTiles_range_ids)
  show "set (ClientTiles_range ks s) = set (ClientTiles s)"
    using assms by (simp add: ClientTiles_def set_ClientTiles_range)
  show "inj_on ct_ClientID (set (ClientTiles_range ks s))"
    using assms by (simp add: set_ClientTiles_range inj_on_ct_ClientID)
qed

lemma ClientTiles_ids [simp]: "map ct_ClientID (ClientTiles s) = allClientIDs s"
  by (simp add: ClientTiles_def ClientTiles_range_ids)

lemma set_ClientTiles:
  "set (ClientTiles s) =
     {\<lparr>ct_ClientID = k, ct_Tile = c_tile c\<rparr> |k c. fmlookup (clients s) k = Some c}"
  by (simp add: ClientTiles_def set_ClientTiles_range)

subsection \<open>Secrets\<close>

lemma list_all_zip_eq:
  "length xs = length ys \<Longrightarrow> list_all (\<lambda>(a, b). a = b) (zip xs ys) \<longleftrightarrow> xs = ys"
  by (induction xs ys rule: list_induct2) auto

lemma ConstantTimeCompare_1: "ConstantTimeCompare x y = 1 \<longleftrightarrow> x = y"
  by (auto simp: ConstantTimeCompare_def list_all_zip_eq)

subsection \<open>A booted storage\<close>

text \<open>The storage \<open>NewStorage\<close> builds on the seeded clients, with a small key: the witnesses start here.\<close>

definition boot_key :: rsaPrivateKey where
  "boot_key = \<lparr>rsa_PublicKey = \<lparr>rsa_N = 3233, rsa_E = 17\<rparr>, rsa_D = 2753, rsa_Primes = [61, 53]\<rparr>"

definition boot_storage :: storage where
  "boot_storage =
     \<lparr>authRequests = fmempty, codes = fmempty, tokens = fmempty, refreshers = fmempty,
      rtHeap = fmempty, rtNext = 0, clients = seedClients [], seedIDs = {|exampleClientID|},
      signKey = \<lparr>sk_id = ''kid'', sk_algorithm = RS256, sk_key = boot_key\<rparr>,
      deviceCodes = fmempty, userCodes = fmempty\<rparr>"

lemma NewStorage_boot: "NewStorage (Inr boot_key) ''kid'' (seedClients []) = Inr boot_storage"
  by (simp add: NewStorage_def boot_storage_def seedClients_def Let_def)

lemma boot_simps [simp]:
  "authRequests boot_storage = fmempty" "codes boot_storage = fmempty"
  "tokens boot_storage = fmempty" "refreshers boot_storage = fmempty"
  "rtHeap boot_storage = fmempty" "rtNext boot_storage = 0"
  "clients boot_storage = seedClients []" "seedIDs boot_storage = {|exampleClientID|}"
  "deviceCodes boot_storage = fmempty" "userCodes boot_storage = fmempty"
  by (simp_all add: boot_storage_def)

definition no_tile :: Tile where
  "no_tile = \<lparr>tile_Name = [], tile_Description = [], tile_IconURL = [], tile_LaunchURL = []\<rparr>"

definition orders_client :: Client where
  "orders_client =
     \<lparr>c_id = ''orders'', c_secret = ''s'', c_redirectURIs = [], c_grantTypes = [GrantTypeCode],
      c_authMethod = AuthMethodBasic, c_tile = no_tile\<rparr>"

definition cli_client :: Client where
  "cli_client =
     \<lparr>c_id = ''orders-cli'', c_secret = [], c_redirectURIs = [], c_grantTypes = [GrantTypeCode],
      c_authMethod = AuthMethodNone, c_tile = no_tile\<rparr>"

lemma example_client_simps [simp]:
  "c_id orders_client = ''orders''" "c_id cli_client = ''orders-cli''"
  "c_secret orders_client = ''s''" "\<not> IsPublic orders_client" "IsPublic cli_client"
  by (simp_all add: orders_client_def cli_client_def IsPublic_def)

lemma seed_lookup:
  "fmlookup (seedClients []) exampleClientID \<noteq> None"
  "cid \<noteq> exampleClientID \<Longrightarrow> fmlookup (seedClients []) cid = None"
  by (simp_all add: seedClients_def Let_def)

subsection \<open>Properties\<close>

text \<open>
  C22. A reload installs exactly the file's clients and the seeds. In whatever order the runtime
  ranges over the registry while deleting, \<open>ReplaceFileClients\<close> leaves the same registry: under an
  id the file declares, its last entry with that id; under a seeded id the file does not declare,
  the client that was there; under any other id nothing.
\<close>

theorem ReplaceFileClients_spec:
  assumes "enumerates ks (clients s)"
  shows "ReplaceFileClients_range ks cs s = ReplaceFileClients cs s
    \<and> fmlookup (clients (ReplaceFileClients cs s)) cid =
        (case find (\<lambda>c. c_id c = cid) (rev cs) of
           Some c \<Rightarrow> Some c
         | None \<Rightarrow> if cid |\<in>| seedIDs s then fmlookup (clients s) cid else None)
    \<and> set (allClientIDs (ReplaceFileClients cs s)) =
        c_id ` set cs \<union> (fset (seedIDs s) \<inter> set (allClientIDs s))"
  using ReplaceFileClients_range_eq [OF assms] lookup_ReplaceFileClients reg.set_ids_replace
  by (simp add: declared_def)

theorem ReplaceFileClients_spec_witness:
  "enumerates [exampleClientID, ''orders''] (clients (RegisterClient orders_client boot_storage))
   \<and> fmlookup (clients (ReplaceFileClients_range [exampleClientID, ''orders''] [cli_client]
        (RegisterClient orders_client boot_storage))) ''orders'' = None"
proof -
  let ?s = "RegisterClient orders_client boot_storage"
  have ks: "enumerates [exampleClientID, ''orders''] (clients ?s)"
    by (auto simp: enumerates_def RegisterClient_def exampleClientID_def)
  have "''orders'' |\<notin>| seedIDs ?s" by (simp add: RegisterClient_def exampleClientID_def)
  then show ?thesis
    using ks ReplaceFileClients_spec [OF ks, of "[cli_client]" "''orders''"] by simp
qed

text \<open>
  A reload forgets earlier reloads: after a file whose entries reuse no seeded id, loading
  another file gives the very state loading it alone gives. Dropping a client from the file drops it.
\<close>

theorem reload_forgets:
  assumes "c_id ` set cs1 \<inter> fset (seedIDs s) = {}"
  shows "ReplaceFileClients cs2 (ReplaceFileClients cs1 s) = ReplaceFileClients cs2 s"
proof -
  have "clients (ReplaceFileClients cs2 (ReplaceFileClients cs1 s)) = clients (ReplaceFileClients cs2 s)"
    using fun_cong [OF reg.get_replace_replace [OF assms, of cs2]] by (rule fmap_ext)
  moreover have "s'\<lparr>clients := m\<rparr> = ReplaceFileClients cs s'"
    if "m = clients (ReplaceFileClients cs s')" for m cs s'
    using that by (simp add: ReplaceFileClients_def ReplaceFileClients_range_def)
  ultimately show ?thesis
    by (metis ReplaceFileClients_def ReplaceFileClients_range_def storage.update_convs(7)
        storage.surjective storage.select_convs(7))
qed

theorem reload_forgets_witness:
  "ReplaceFileClients [cli_client] (ReplaceFileClients [orders_client] boot_storage) =
     ReplaceFileClients [cli_client] boot_storage"
  by (rule reload_forgets) (simp add: exampleClientID_def)

text \<open>
  A file entry that reuses a seeded id replaces the seeded client, and dropping the entry from
  the file does not bring the seeded client back: the comments say that seeded clients are never
  touched.
\<close>

theorem seed_overwritten:
  assumes "c_id c |\<in>| seedIDs s"
  shows "fmlookup (clients (ReplaceFileClients [c] s)) (c_id c) = Some c
    \<and> fmlookup (clients (ReplaceFileClients [] (ReplaceFileClients [c] s))) (c_id c) = Some c"
  using assms by (simp add: lookup_ReplaceFileClients declared_def)

theorem seed_overwritten_witness:
  "AuthorizeClientIDSecret exampleClientID exampleClientSecret boot_storage = None
   \<and> AuthorizeClientIDSecret exampleClientID exampleClientSecret
       (ReplaceFileClients [] (ReplaceFileClients [cli_client\<lparr>c_id := exampleClientID\<rparr>] boot_storage))
     = Some (ClientIsPublic exampleClientID)"
proof -
  have "fmlookup (clients (ReplaceFileClients []
      (ReplaceFileClients [cli_client\<lparr>c_id := exampleClientID\<rparr>] boot_storage))) exampleClientID =
      Some (cli_client\<lparr>c_id := exampleClientID\<rparr>)"
    using seed_overwritten [of "cli_client\<lparr>c_id := exampleClientID\<rparr>" boot_storage] by simp
  then show ?thesis
    by (simp add: AuthorizeClientIDSecret_def cli_client_def IsPublic_def seedClients_def Let_def
        ConstantTimeCompare_1)
qed

text \<open>
  The launchpad's tiles list the registry exactly: in whatever order the runtime ranges over
  it, the tiles come out the same, strictly sorted by client id, one for every registered client
  with that client's tile, and with the ids the entitlement claim is made from.
\<close>

theorem ClientTiles_spec:
  assumes "enumerates ks (clients s)"
  shows "ClientTiles_range ks s = ClientTiles s
    \<and> sorted_wrt (<) (map ct_ClientID (ClientTiles s))
    \<and> map ct_ClientID (ClientTiles s) = allClientIDs s
    \<and> set (ClientTiles s) =
        {\<lparr>ct_ClientID = k, ct_Tile = c_tile c\<rparr> |k c. fmlookup (clients s) k = Some c}"
  using ClientTiles_range_eq [OF assms] reg.ids_strictly_sorted by (simp add: set_ClientTiles)

theorem ClientTiles_spec_witness:
  "enumerates [''orders'', exampleClientID] (clients (RegisterClient orders_client boot_storage))
   \<and> map ct_ClientID (ClientTiles_range [''orders'', exampleClientID]
        (RegisterClient orders_client boot_storage)) = [exampleClientID, ''orders'']"
proof -
  let ?s = "RegisterClient orders_client boot_storage"
  have ks: "enumerates [''orders'', exampleClientID] (clients ?s)"
    by (auto simp: enumerates_def RegisterClient_def exampleClientID_def)
  have "allClientIDs ?s = sort [''orders'', exampleClientID]"
    using sort_enumerates [OF ks] by (simp add: allClientIDs_eq)
  also have "\<dots> = [exampleClientID, ''orders'']" by (simp add: exampleClientID_def)
  finally show ?thesis using ks ClientTiles_spec [OF ks] by simp
qed

text \<open>
  Client authentication at the token endpoint succeeds exactly for a registered confidential
  client presented with its own secret: no secret, the empty one included, authenticates a public
  client.
\<close>

theorem AuthorizeClientIDSecret_iff:
  "AuthorizeClientIDSecret clientID clientSecret s = None \<longleftrightarrow>
     (\<exists>c. fmlookup (clients s) clientID = Some c \<and> \<not> IsPublic c \<and> c_secret c = clientSecret)"
  by (auto simp: AuthorizeClientIDSecret_def ConstantTimeCompare_1 split: option.splits)

end
