(* ===== verification/Identities.thy ===== *)
theory Identities
  imports Prelude
begin

text \<open>
  The built-in developer identities (\<open>internal/idp/identities.go\<close>): the record of what the IdP
  stores about an identity, the fixed table of them, and the lookup every login path and every
  claim goes through.
\<close>

record Identity =
  Subject :: string
  Name :: string
  Email :: string
  Apps :: "string list"
  Tenant :: string
  Roles :: "string list"
  Groups :: "string list"

definition seededApps :: "string list" where
  "seededApps = [''devedge-idp-example'']"

definition Identities :: "Identity list" where
  "Identities =
    [\<lparr>Subject = ''alice'', Name = ''Alice Admin'', Email = ''alice@dev.test'', Apps = seededApps,
       Tenant = ''tenant-a'', Roles = [''admin''], Groups = [''platform'']\<rparr>,
     \<lparr>Subject = ''bob'', Name = ''Bob Viewer'', Email = ''bob@dev.test'', Apps = seededApps,
       Tenant = ''tenant-a'', Roles = [''viewer''], Groups = [''platform'']\<rparr>,
     \<lparr>Subject = ''carol'', Name = ''Carol (tenant-b)'', Email = ''carol@dev.test'', Apps = seededApps,
       Tenant = ''tenant-b'', Roles = [''viewer''], Groups = [''partners'']\<rparr>]"

text \<open>
  The loop of \<open>identityBySubject\<close> returns the first identity with the subject. It is stated over
  any table, so that properties can compare tables, and used on the built-in one.
\<close>

fun identityIn :: "Identity list \<Rightarrow> string \<Rightarrow> Identity option" where
  "identityIn [] subject = None"
| "identityIn (i # ids) subject =
     (if Subject i = subject then Some i else identityIn ids subject)"

definition identityBySubject :: "string \<Rightarrow> Identity option" where
  "identityBySubject subject = identityIn Identities subject"

lemma identityIn_Some: "identityIn ids subject = Some i \<Longrightarrow> i \<in> set ids \<and> Subject i = subject"
  by (induction ids) (auto split: if_splits)

lemma identityIn_None: "identityIn ids subject = None \<longleftrightarrow> subject \<notin> Subject ` set ids"
  by (induction ids) auto

text \<open>Subjects are unique, so the first match is the only one.\<close>

lemma distinct_subjects: "distinct (map Subject Identities)"
  by (simp add: Identities_def)

lemma identityIn_unique:
  "distinct (map Subject ids) \<Longrightarrow> i \<in> set ids \<Longrightarrow> identityIn ids (Subject i) = Some i"
  by (induction ids) (auto simp: rev_image_eqI)

lemma identityBySubject_unique:
  "i \<in> set Identities \<Longrightarrow> identityBySubject (Subject i) = Some i"
  unfolding identityBySubject_def by (rule identityIn_unique [OF distinct_subjects])

lemma identityBySubject_Subject: "identityBySubject subject = Some i \<Longrightarrow> Subject i = subject"
  by (auto simp: identityBySubject_def dest: identityIn_Some)

abbreviation known :: "string \<Rightarrow> bool" where
  "known subject \<equiv> identityBySubject subject \<noteq> None"

lemma known_iff: "known subject \<longleftrightarrow> subject \<in> {''alice'', ''bob'', ''carol''}"
proof -
  have "Subject ` set Identities = {''alice'', ''bob'', ''carol''}"
    by (simp add: Identities_def)
  then show ?thesis
    using identityIn_None [of Identities subject] by (simp add: identityBySubject_def)
qed

lemma unknown_empty [simp]: "identityBySubject [] = None"
  by (simp add: identityBySubject_def Identities_def)

lemma identity_Email_nonempty: "i \<in> set Identities \<Longrightarrow> Email i \<noteq> []"
  by (auto simp: Identities_def)

subsection \<open>Binding something pending to an identity\<close>

text \<open>
  What the login page relies on, for auth requests and for device flows alike: completing succeeds
  exactly for a built-in identity and something pending under the key, binds the identity and the
  time to it, and changes nothing when it fails.
\<close>

locale approval =
  fixes complete :: "time \<Rightarrow> string \<Rightarrow> string \<Rightarrow> 's \<Rightarrow> error option \<times> 's"
    and pending :: "string \<Rightarrow> 's \<Rightarrow> bool"
    and bound :: "string \<Rightarrow> 's \<Rightarrow> (string \<times> time) option"
  assumes complete_ok: "fst (complete now k subject s) = None \<longleftrightarrow> known subject \<and> pending k s"
    and complete_fails: "fst (complete now k subject s) \<noteq> None \<Longrightarrow> snd (complete now k subject s) = s"
    and complete_bound: "fst (complete now k subject s) = None \<Longrightarrow>
          bound k (snd (complete now k subject s)) = Some (subject, now)"
    and complete_pending: "pending k' (snd (complete now k subject s)) \<longleftrightarrow> pending k' s"
begin

lemma complete_outcome:
  obtains (accepted) s' where "complete now k subject s = (None, s')" "known subject" "pending k s"
      "bound k s' = Some (subject, now)"
  | (refused) err where "complete now k subject s = (Some err, s)" "\<not> (known subject \<and> pending k s)"
proof (cases "complete now k subject s")
  case (Pair r s')
  show ?thesis
  proof (cases r)
    case None
    with Pair show ?thesis
      using complete_ok [of now k subject s] complete_bound [of now k subject s]
      by (intro accepted) auto
  next
    case (Some err)
    with Pair show ?thesis
      using complete_ok [of now k subject s] complete_fails [of now k subject s]
      by (intro refused) auto
  qed
qed

lemma changed_means_bound:
  "snd (complete now k subject s) \<noteq> s \<Longrightarrow>
     known subject \<and> bound k (snd (complete now k subject s)) = Some (subject, now)"
  by (cases rule: complete_outcome [of now k subject s]) auto

text \<open>The last choice wins.\<close>

lemma complete_again:
  "fst (complete now k subject s) = None \<Longrightarrow> known subject' \<Longrightarrow>
     bound k (snd (complete now' k subject' (snd (complete now k subject s)))) = Some (subject', now')"
  by (rule complete_bound) (simp add: complete_ok complete_pending)

end

end
