(* ===== verification/AuthFlow.thy ===== *)
theory AuthFlow
  imports Registry Identities
begin

text \<open>
  The authorization-code flow of the storage (\<open>internal/idp/storage.go\<close>): creating an auth request
  behind the public-client PKCE gate, the passwordless login that completes it, the codes that lead
  back to it, and its deletion. A request is a value of the map; the id is the argument \<open>uid\<close> that
  \<open>uuid.NewString\<close> returned.
\<close>

definition CompleteAuthRequest ::
    "time \<Rightarrow> string \<Rightarrow> string \<Rightarrow> storage \<Rightarrow> error option \<times> storage" where
  "CompleteAuthRequest now authRequestID subject s =
     (if identityBySubject subject = None then (Some (UnknownIdentity subject), s)
      else
        case fmlookup (authRequests s) authRequestID of
          None \<Rightarrow> (Some AuthRequestNotFound, s)
        | Some req \<Rightarrow>
            (None, s\<lparr>authRequests := fmupd authRequestID
                      (req\<lparr>ar_userID := subject, ar_authTime := now, ar_done := True\<rparr>)
                      (authRequests s)\<rparr>))"

definition requirePKCES256 :: "Client \<Rightarrow> oidcAuthRequest \<Rightarrow> error option" where
  "requirePKCES256 c ar =
     (if \<not> IsPublic c then None
      else if o_CodeChallenge ar = [] then Some (PKCEMissing (c_id c))
      else if o_CodeChallengeMethod ar \<noteq> CodeChallengeMethodS256
           then Some (PKCEMethod (c_id c) (o_CodeChallengeMethod ar))
      else None)"

definition CreateAuthRequest ::
    "string \<Rightarrow> oidcAuthRequest \<Rightarrow> string \<Rightarrow> storage \<Rightarrow> authRequest result \<times> storage" where
  "CreateAuthRequest uid ar userID s =
     (if length (o_Prompt ar) = 1 \<and> o_Prompt ar ! 0 = ''none'' then (Inl LoginRequired, s)
      else
        case fmlookup (clients s) (o_ClientID ar) of
          None \<Rightarrow> (Inl (ClientNotFound (o_ClientID ar)), s)
        | Some c \<Rightarrow>
            (case requirePKCES256 c ar of
               Some err \<Rightarrow> (Inl err, s)
             | None \<Rightarrow>
                 let req = (authRequestFromOIDC ar userID)\<lparr>ar_id := uid\<rparr>
                 in (Inr req, s\<lparr>authRequests := fmupd uid req (authRequests s)\<rparr>)))"

definition AuthRequestByID :: "string \<Rightarrow> storage \<Rightarrow> authRequest result" where
  "AuthRequestByID rid s =
     (case fmlookup (authRequests s) rid of
        None \<Rightarrow> Inl AuthRequestNotFound
      | Some req \<Rightarrow> Inr req)"

text \<open>
  \<open>AuthRequestByCode\<close> releases the mutex between looking up the code and looking up the request:
  \<open>s1\<close> is the state of the first section, \<open>s2\<close> that of the second. A call nothing interferes with
  has \<open>s1 = s2\<close>.
\<close>

definition AuthRequestByCode :: "string \<Rightarrow> storage \<Rightarrow> storage \<Rightarrow> authRequest result" where
  "AuthRequestByCode code s1 s2 =
     (case fmlookup (codes s1) code of
        None \<Rightarrow> Inl CodeInvalid
      | Some rid \<Rightarrow> AuthRequestByID rid s2)"

definition SaveAuthCode :: "string \<Rightarrow> string \<Rightarrow> storage \<Rightarrow> storage" where
  "SaveAuthCode rid code s = s\<lparr>codes := fmupd code rid (codes s)\<rparr>"

definition DeleteAuthRequest_range :: "string list \<Rightarrow> string \<Rightarrow> storage \<Rightarrow> storage" where
  "DeleteAuthRequest_range ks rid s =
     s\<lparr>authRequests := fmdrop rid (authRequests s),
       codes := range_delete (\<lambda>_ reqID. reqID = rid) ks (codes s)\<rparr>"

definition DeleteAuthRequest :: "string \<Rightarrow> storage \<Rightarrow> storage" where
  "DeleteAuthRequest rid s = DeleteAuthRequest_range (range_keys (codes s)) rid s"

subsection \<open>Completing a request\<close>

lemma CompleteAuthRequest_ok:
  "fst (CompleteAuthRequest now rid subject s) = None \<longleftrightarrow>
     known subject \<and> rid \<in> fmdom' (authRequests s)"
  by (auto simp: CompleteAuthRequest_def fmlookup_dom'_iff split: option.splits)

lemma CompleteAuthRequest_fails:
  "fst (CompleteAuthRequest now rid subject s) \<noteq> None \<Longrightarrow>
     snd (CompleteAuthRequest now rid subject s) = s"
  by (auto simp: CompleteAuthRequest_def split: option.splits if_splits)

lemma CompleteAuthRequest_cases:
  obtains (unchanged) "snd (CompleteAuthRequest now rid subject s) = s"
  | (completed) req where "known subject" "fmlookup (authRequests s) rid = Some req"
      "snd (CompleteAuthRequest now rid subject s) =
         s\<lparr>authRequests := fmupd rid
             (req\<lparr>ar_userID := subject, ar_authTime := now, ar_done := True\<rparr>) (authRequests s)\<rparr>"
proof (cases "fst (CompleteAuthRequest now rid subject s) = None")
  case True
  then obtain req where "known subject" "fmlookup (authRequests s) rid = Some req"
    by (auto simp: CompleteAuthRequest_ok fmlookup_dom'_iff)
  then show ?thesis by (intro completed) (auto simp: CompleteAuthRequest_def)
next
  case False
  then show ?thesis by (intro unchanged CompleteAuthRequest_fails)
qed

lemma lookup_CompleteAuthRequest [lookup_simps]:
  "fmlookup (authRequests (snd (CompleteAuthRequest now rid subject s))) k =
     (if k = rid \<and> known subject
      then map_option (\<lambda>req. req\<lparr>ar_userID := subject, ar_authTime := now, ar_done := True\<rparr>)
             (fmlookup (authRequests s) rid)
      else fmlookup (authRequests s) k)"
  by (auto simp: CompleteAuthRequest_def split: option.splits)

text \<open>The identity a finished auth request is bound to, and when.\<close>

definition loginBound :: "string \<Rightarrow> storage \<Rightarrow> (string \<times> time) option" where
  "loginBound rid s =
     (case fmlookup (authRequests s) rid of
        None \<Rightarrow> None
      | Some r \<Rightarrow> if ar_done r then Some (ar_userID r, ar_authTime r) else None)"

definition loginPending :: "string \<Rightarrow> storage \<Rightarrow> bool" where
  "loginPending rid s \<longleftrightarrow> fmlookup (authRequests s) rid \<noteq> None"

lemma CompleteAuthRequest_done:
  "CompleteAuthRequest now rid subject s = (None, s') \<Longrightarrow>
     s' = s\<lparr>authRequests := fmupd rid ((the (fmlookup (authRequests s) rid))
            \<lparr>ar_userID := subject, ar_authTime := now, ar_done := True\<rparr>) (authRequests s)\<rparr>"
  by (auto simp: CompleteAuthRequest_def split: option.splits if_splits)

interpretation lreq: approval CompleteAuthRequest loginPending loginBound
proof unfold_locales
  fix now rid rid' subject s
  show ok: "fst (CompleteAuthRequest now rid subject s) = None \<longleftrightarrow> known subject \<and> loginPending rid s"
    by (simp add: CompleteAuthRequest_ok loginPending_def fmlookup_dom'_iff)
  show "fst (CompleteAuthRequest now rid subject s) \<noteq> None \<Longrightarrow>
      snd (CompleteAuthRequest now rid subject s) = s"
    by (rule CompleteAuthRequest_fails)
  show "loginBound rid (snd (CompleteAuthRequest now rid subject s)) = Some (subject, now)"
    if "fst (CompleteAuthRequest now rid subject s) = None"
    using that unfolding ok by (auto simp: loginBound_def loginPending_def lookup_CompleteAuthRequest)
  show "loginPending rid' (snd (CompleteAuthRequest now rid subject s)) \<longleftrightarrow> loginPending rid' s"
    by (auto simp: loginPending_def lookup_CompleteAuthRequest)
qed

subsection \<open>The PKCE gate\<close>

lemma requirePKCES256_None:
  "requirePKCES256 c ar = None \<longleftrightarrow>
     (IsPublic c \<longrightarrow> o_CodeChallenge ar \<noteq> [] \<and> o_CodeChallengeMethod ar = CodeChallengeMethodS256)"
  by (auto simp: requirePKCES256_def)

lemma CreateAuthRequest_cases:
  obtains (rejected) err where "CreateAuthRequest uid ar userID s = (Inl err, s)"
  | (created) c where "fmlookup (clients s) (o_ClientID ar) = Some c" "requirePKCES256 c ar = None"
      "o_Prompt ar \<noteq> [''none'']"
      "CreateAuthRequest uid ar userID s =
         (Inr ((authRequestFromOIDC ar userID)\<lparr>ar_id := uid\<rparr>),
          s\<lparr>authRequests := fmupd uid ((authRequestFromOIDC ar userID)\<lparr>ar_id := uid\<rparr>)
              (authRequests s)\<rparr>)"
proof (cases "o_Prompt ar = [''none'']")
  case True
  then show ?thesis by (intro rejected) (simp add: CreateAuthRequest_def)
next
  case prompt: False
  then have gate: "\<not> (length (o_Prompt ar) = 1 \<and> o_Prompt ar ! 0 = ''none'')"
    by (auto simp: length_Suc_conv)
  show ?thesis
  proof (cases "fmlookup (clients s) (o_ClientID ar)")
    case None
    with gate show ?thesis by (intro rejected) (auto simp: CreateAuthRequest_def)
  next
    case (Some c)
    show ?thesis
    proof (cases "requirePKCES256 c ar")
      case None
      with gate Some show ?thesis
        by (intro created [OF Some None prompt]) (auto simp: CreateAuthRequest_def Let_def)
    next
      case (Some err)
      with gate \<open>fmlookup (clients s) (o_ClientID ar) = Some c\<close> show ?thesis
        by (intro rejected) (auto simp: CreateAuthRequest_def)
    qed
  qed
qed

subsection \<open>Codes\<close>

lemma DeleteAuthRequest_eq:
  "DeleteAuthRequest rid s =
     s\<lparr>authRequests := fmdrop rid (authRequests s),
       codes := fmdelete (\<lambda>_ reqID. reqID = rid) (codes s)\<rparr>"
  by (simp add: DeleteAuthRequest_def DeleteAuthRequest_range_def)

lemma DeleteAuthRequest_range_eq:
  "enumerates ks (codes s) \<Longrightarrow> DeleteAuthRequest_range ks rid s = DeleteAuthRequest rid s"
  by (simp add: DeleteAuthRequest_eq DeleteAuthRequest_range_def range_delete_eq)

lemma lookup_DeleteAuthRequest [lookup_simps]:
  "fmlookup (authRequests (DeleteAuthRequest rid s)) k =
     (if k = rid then None else fmlookup (authRequests s) k)"
  "fmlookup (codes (DeleteAuthRequest rid s)) code =
     (if fmlookup (codes s) code = Some rid then None else fmlookup (codes s) code)"
  by (simp_all add: DeleteAuthRequest_eq split: option.splits)

lemma AuthRequestByID_Inr: "AuthRequestByID rid s = Inr req \<longleftrightarrow> fmlookup (authRequests s) rid = Some req"
  by (simp add: AuthRequestByID_def split: option.splits)

lemma AuthRequestByCode_Inr:
  "AuthRequestByCode code s1 s2 = Inr req \<longleftrightarrow>
     (\<exists>rid. fmlookup (codes s1) code = Some rid \<and> fmlookup (authRequests s2) rid = Some req)"
  by (auto simp: AuthRequestByCode_def AuthRequestByID_Inr split: option.splits)

subsection \<open>Example requests\<close>

definition example_wire :: "string \<Rightarrow> string \<Rightarrow> string \<Rightarrow> oidcAuthRequest" where
  "example_wire cid challenge method =
     \<lparr>o_Scopes = [''openid''], o_ResponseType = ResponseTypeCode, o_ClientID = cid,
      o_RedirectURI = ''http://127.0.0.1/callback'', o_State = ''xyz'', o_Nonce = [],
      o_ResponseMode = [], o_Prompt = [], o_CodeChallenge = challenge,
      o_CodeChallengeMethod = method\<rparr>"

definition public_storage :: storage where
  "public_storage = RegisterClient cli_client boot_storage"

lemma public_storage_simps [simp]:
  "fmlookup (clients public_storage) ''orders-cli'' = Some cli_client"
  "authRequests public_storage = fmempty" "codes public_storage = fmempty"
  by (simp_all add: public_storage_def RegisterClient_def)

subsection \<open>Properties\<close>

text \<open>
  C9. PKCE is mandatory for public clients: a request is only ever created for a registered client,
  and for a public client only with an S256 challenge, which is recorded as sent. The created
  request is filed under its fresh id, for the client that asked, and is not done.
\<close>

theorem CreateAuthRequest_PKCE:
  assumes "CreateAuthRequest uid ar userID s = (Inr req, s')"
  shows "\<exists>c. fmlookup (clients s) (o_ClientID ar) = Some c
    \<and> (if IsPublic c
       then o_CodeChallenge ar \<noteq> []
         \<and> ar_codeChallenge req = Some \<lparr>Challenge = o_CodeChallenge ar, Method = CodeChallengeMethodS256\<rparr>
       else ar_codeChallenge req = None \<longleftrightarrow> o_CodeChallenge ar = [])
    \<and> AuthRequestByID uid s' = Inr req \<and> ar_id req = uid \<and> ar_applicationID req = o_ClientID ar
    \<and> ar_callbackURI req = o_RedirectURI ar \<and> \<not> Done req \<and> GetAMR req = []"
proof (cases rule: CreateAuthRequest_cases [of uid ar userID s])
  case (rejected err)
  with assms show ?thesis by simp
next
  case (created c)
  with assms have req: "req = (authRequestFromOIDC ar userID)\<lparr>ar_id := uid\<rparr>"
    and s': "s' = s\<lparr>authRequests := fmupd uid req (authRequests s)\<rparr>" by auto
  show ?thesis
    using created(1,2)
    by (intro exI [of _ c]) (auto simp: req s' requirePKCES256_None codeChallenge_fromOIDC
        AuthRequestByID_def Done_def GetAMR_def)
qed

theorem CreateAuthRequest_PKCE_witness:
  "\<exists>req s'. CreateAuthRequest ''u1'' (example_wire ''orders-cli'' ''abc'' ''S256'') [] public_storage =
      (Inr req, s')
    \<and> ar_codeChallenge req = Some \<lparr>Challenge = ''abc'', Method = CodeChallengeMethodS256\<rparr>"
proof -
  let ?ar = "example_wire ''orders-cli'' ''abc'' ''S256''"
  obtain req s' where c: "CreateAuthRequest ''u1'' ?ar [] public_storage = (Inr req, s')"
    by (simp add: CreateAuthRequest_def requirePKCES256_def example_wire_def
        CodeChallengeMethodS256_def Let_def)
  from CreateAuthRequest_PKCE [OF c] c show ?thesis by (auto simp: example_wire_def)
qed

text \<open>
  The requests \<open>/authorize\<close> refuses are exactly those with the prompt \<open>none\<close> alone, for an
  unregistered client, or from a public client without an S256 challenge; a refused request leaves
  no trace.
\<close>

theorem CreateAuthRequest_refuses:
  "(\<exists>err. CreateAuthRequest uid ar userID s = (Inl err, s)) \<longleftrightarrow>
     o_Prompt ar = [''none'']
     \<or> (case fmlookup (clients s) (o_ClientID ar) of
          None \<Rightarrow> True
        | Some c \<Rightarrow> IsPublic c
            \<and> (o_CodeChallenge ar = [] \<or> o_CodeChallengeMethod ar \<noteq> CodeChallengeMethodS256))"
proof (cases rule: CreateAuthRequest_cases [of uid ar userID s])
  case (created c)
  then show ?thesis by (auto simp: requirePKCES256_None)
next
  case (rejected err)
  have "o_Prompt ar = [''none''] \<or> fmlookup (clients s) (o_ClientID ar) = None
      \<or> (\<exists>c. fmlookup (clients s) (o_ClientID ar) = Some c \<and> requirePKCES256 c ar \<noteq> None)"
    using rejected
    by (auto simp: CreateAuthRequest_def length_Suc_conv Let_def split: option.splits if_splits)
  with rejected show ?thesis by (auto simp: requirePKCES256_None split: option.splits)
qed

text \<open>
  Login fails closed and binds exactly one request: completing a request succeeds exactly for a
  built-in identity and a stored request; then that request is done, with the chosen subject, the
  time and the passwordless AMR, and every other request is as before; otherwise nothing changes.
\<close>

theorem CompleteAuthRequest_spec:
  "if known subject \<and> rid \<in> fmdom' (authRequests s)
   then \<exists>req. fmlookup (authRequests s) rid = Some req
     \<and> CompleteAuthRequest now rid subject s =
         (None, s\<lparr>authRequests := fmupd rid
                   (req\<lparr>ar_userID := subject, ar_authTime := now, ar_done := True\<rparr>) (authRequests s)\<rparr>)
     \<and> GetAMR (req\<lparr>ar_userID := subject, ar_authTime := now, ar_done := True\<rparr>) = [''none'']
   else fst (CompleteAuthRequest now rid subject s) \<noteq> None
     \<and> snd (CompleteAuthRequest now rid subject s) = s"
  using CompleteAuthRequest_ok [of now rid subject s] CompleteAuthRequest_fails [of now rid subject s]
  by (auto simp: CompleteAuthRequest_def GetAMR_def fmlookup_dom'_iff split: option.splits)

text \<open>
  A saved code leads to its request until the request is deleted; deleting it removes the
  request and every code that leads to it, in whatever order the runtime ranges over the codes, and
  no other code or request.
\<close>

theorem code_roundtrip:
  assumes "fmlookup (authRequests s) rid = Some req"
    and "enumerates ks (codes (SaveAuthCode rid code s))"
  shows "AuthRequestByCode code (SaveAuthCode rid code s) (SaveAuthCode rid code s) = Inr req
    \<and> AuthRequestByCode code (DeleteAuthRequest_range ks rid (SaveAuthCode rid code s)) s2 = Inl CodeInvalid
    \<and> AuthRequestByID rid (DeleteAuthRequest_range ks rid (SaveAuthCode rid code s)) =
        Inl AuthRequestNotFound
    \<and> fmlookup (codes (DeleteAuthRequest_range ks rid (SaveAuthCode rid code s))) c =
        (if c = code \<or> fmlookup (codes s) c = Some rid then None else fmlookup (codes s) c)"
  unfolding DeleteAuthRequest_range_eq [OF assms(2)] AuthRequestByCode_def AuthRequestByID_def
    lookup_DeleteAuthRequest
  using assms(1) by (simp add: SaveAuthCode_def)

theorem code_roundtrip_witness:
  "\<exists>req s. fmlookup (authRequests s) ''r1'' = Some req
    \<and> AuthRequestByCode ''c1'' (SaveAuthCode ''r1'' ''c1'' s) (SaveAuthCode ''r1'' ''c1'' s) = Inr req"
proof -
  let ?req = "(authRequestFromOIDC (example_wire ''orders-cli'' ''abc'' ''S256'') [])\<lparr>ar_id := ''r1''\<rparr>"
  let ?s = "public_storage\<lparr>authRequests := fmupd ''r1'' ?req fmempty\<rparr>"
  have r: "fmlookup (authRequests ?s) ''r1'' = Some ?req" by simp
  have "enumerates [''c1''] (codes (SaveAuthCode ''r1'' ''c1'' ?s))"
    by (simp add: enumerates_def SaveAuthCode_def)
  from code_roundtrip [OF r this] r show ?thesis by blast
qed

end
