(* ===== verification/Tokens.thy ===== *)
theory Tokens
  imports AuthFlow
begin

text \<open>
  Access and refresh tokens (\<open>internal/idp/storage.go\<close>, \<open>authrequest.go\<close>): issuing, rotation,
  revocation, session termination, and the refresh-token request object the OP holds.

  \<open>op.TokenRequest\<close> is an interface. The code tells its own two implementations apart by a type
  assertion and treats every other one through the interface's methods, so a token request is an
  auth request, the address of a refresh token, or an unknown implementation with the values its
  methods return.
\<close>

record otherTokenRequest =
  otr_Subject :: string
  otr_Audience :: "string list"
  otr_Scopes :: "string list"

datatype tokenRequest =
    AuthReq authRequest
  | RefreshReq addr
  | OtherReq otherTokenRequest

text \<open>
  Following a \<open>*refreshToken\<close>. Addresses are made by \<open>newRefreshToken\<close> only and objects are never
  freed, so the object is always there (invariant \<open>heap_ok\<close> of the storage machine); the zero object
  stands for the case that does not occur.
\<close>

definition zero_refreshToken :: refreshToken where
  "zero_refreshToken =
     \<lparr>rt_id = [], rt_authTime = zero_time, rt_amr = [], rt_audience = [], rt_userID = [],
      rt_applicationID = [], rt_expiration = zero_time, rt_scopes = [], rt_accessTokenID = []\<rparr>"

definition deref :: "storage \<Rightarrow> addr \<Rightarrow> refreshToken" where
  "deref s p = (case fmlookup (rtHeap s) p of None \<Rightarrow> zero_refreshToken | Some rt \<Rightarrow> rt)"

text \<open>The methods of the interface, on the three implementations.\<close>

fun reqGetSubject :: "storage \<Rightarrow> tokenRequest \<Rightarrow> string" where
  "reqGetSubject s (AuthReq a) = ar_userID a"
| "reqGetSubject s (RefreshReq p) = rt_userID (deref s p)"
| "reqGetSubject s (OtherReq r) = otr_Subject r"

fun reqGetAudience :: "storage \<Rightarrow> tokenRequest \<Rightarrow> string list" where
  "reqGetAudience s (AuthReq a) = GetAudience a"
| "reqGetAudience s (RefreshReq p) = rt_audience (deref s p)"
| "reqGetAudience s (OtherReq r) = otr_Audience r"

fun reqGetScopes :: "storage \<Rightarrow> tokenRequest \<Rightarrow> string list" where
  "reqGetScopes s (AuthReq a) = ar_scopes a"
| "reqGetScopes s (RefreshReq p) = rt_scopes (deref s p)"
| "reqGetScopes s (OtherReq r) = otr_Scopes r"

text \<open>The other methods of \<open>refreshTokenRequest\<close>, which the OP calls on a looked-up refresh token.\<close>

definition refreshGetAMR :: "storage \<Rightarrow> addr \<Rightarrow> string list" where
  "refreshGetAMR s p = rt_amr (deref s p)"

definition refreshGetAuthTime :: "storage \<Rightarrow> addr \<Rightarrow> time" where
  "refreshGetAuthTime s p = rt_authTime (deref s p)"

definition refreshGetClientID :: "storage \<Rightarrow> addr \<Rightarrow> string" where
  "refreshGetClientID s p = rt_applicationID (deref s p)"

definition SetCurrentScopes :: "addr \<Rightarrow> string list \<Rightarrow> storage \<Rightarrow> storage" where
  "SetCurrentScopes p scopes s =
     s\<lparr>rtHeap := fmupd p ((deref s p)\<lparr>rt_scopes := scopes\<rparr>) (rtHeap s)\<rparr>"

fun infoFromRequest :: "storage \<Rightarrow> tokenRequest \<Rightarrow> string \<times> time \<times> string list" where
  "infoFromRequest s (AuthReq a) = (ar_applicationID a, ar_authTime a, GetAMR a)"
| "infoFromRequest s (RefreshReq p) =
     (rt_applicationID (deref s p), rt_authTime (deref s p), rt_amr (deref s p))"
| "infoFromRequest s (OtherReq r) = ([], zero_time, [])"

subsection \<open>Issuing\<close>

text \<open>\<open>accessToken\<close> makes a token that lives 15 minutes and files it under its id.\<close>

definition accessToken ::
    "string \<Rightarrow> time \<Rightarrow> string \<Rightarrow> string \<Rightarrow> string \<Rightarrow> string list \<Rightarrow> string list \<Rightarrow> storage
       \<Rightarrow> token \<times> storage" where
  "accessToken uid now appID refreshID subject audience scopes s =
     (let t = \<lparr>tk_id = uid, tk_applicationID = appID, tk_subject = subject, tk_refreshID = refreshID,
               tk_audience = audience, tk_expiration = now + 15 * Minute, tk_scopes = scopes\<rparr>
      in (t, s\<lparr>tokens := fmupd uid t (tokens s)\<rparr>))"

definition CreateAccessToken ::
    "string \<Rightarrow> time \<Rightarrow> tokenRequest \<Rightarrow> storage \<Rightarrow> (string \<times> time) \<times> storage" where
  "CreateAccessToken uid now req s =
     (let appID = (case req of AuthReq a \<Rightarrow> ar_applicationID a | _ \<Rightarrow> []);
          (t, s1) = accessToken uid now appID [] (reqGetSubject s req) (reqGetAudience s req)
                      (reqGetScopes s req) s
      in ((tk_id t, tk_expiration t), s1))"

definition newRefreshToken :: "refreshToken \<Rightarrow> storage \<Rightarrow> addr \<times> storage" where
  "newRefreshToken rt s =
     (rtNext s, s\<lparr>rtHeap := fmupd (rtNext s) rt (rtHeap s), rtNext := rtNext s + 1\<rparr>)"

text \<open>
  The two branches of \<open>CreateAccessAndRefreshTokens\<close>. In both, \<open>rid\<close> is the first id drawn (the
  refresh token's), \<open>tid\<close> the second (the access token's), and \<open>now1\<close>, \<open>now2\<close>, \<open>now3\<close> are the
  readings of the clock in order. The new access token is filed before the presented refresh token
  is looked up, and stays filed when that fails.
\<close>

definition issueTokens ::
    "string \<Rightarrow> string \<Rightarrow> time \<Rightarrow> time \<Rightarrow> tokenRequest \<Rightarrow> storage
       \<Rightarrow> (string \<times> string \<times> time) \<times> storage" where
  "issueTokens rid tid now1 now2 req s =
     (let (appID, authTime, amr) = infoFromRequest s req;
          (t, s1) = accessToken tid now1 appID rid (reqGetSubject s req) (reqGetAudience s req)
                      (reqGetScopes s req) s;
          rt = \<lparr>rt_id = rid, rt_authTime = authTime, rt_amr = amr, rt_audience = tk_audience t,
                rt_userID = tk_subject t, rt_applicationID = tk_applicationID t,
                rt_expiration = now2 + 24 * Hour, rt_scopes = tk_scopes t,
                rt_accessTokenID = tk_id t\<rparr>;
          (p, s2) = newRefreshToken rt s1;
          s3 = s2\<lparr>refreshers := fmupd (rt_id rt) p (refreshers s2)\<rparr>
      in ((tk_id t, rt_id rt, tk_expiration t), s3))"

definition rotateTokens ::
    "string \<Rightarrow> string \<Rightarrow> time \<Rightarrow> time \<Rightarrow> time \<Rightarrow> tokenRequest \<Rightarrow> string \<Rightarrow> storage
       \<Rightarrow> (string \<times> string \<times> time) result \<times> storage" where
  "rotateTokens rid tid now1 now2 now3 req currentRefreshToken s =
     (let (appID, authTime, amr) = infoFromRequest s req;
          (t, s1) = accessToken tid now1 appID rid (reqGetSubject s req) (reqGetAudience s req)
                      (reqGetScopes s req) s
      in case fmlookup (refreshers s1) currentRefreshToken of
           None \<Rightarrow> (Inl InvalidRefreshToken, s1)
         | Some p \<Rightarrow>
             let old = deref s1 p;
                 s2 = s1\<lparr>refreshers := fmdrop currentRefreshToken (refreshers s1),
                         tokens := fmdrop (rt_accessTokenID old) (tokens s1)\<rparr>
             in if rt_expiration old < now2 then (Inl ExpiredRefreshToken, s2)
                else
                  let s3 = s2\<lparr>rtHeap := fmupd p (old\<lparr>rt_id := rid, rt_accessTokenID := tk_id t,
                                                       rt_expiration := now3 + 24 * Hour\<rparr>) (rtHeap s2)\<rparr>;
                      s4 = s3\<lparr>refreshers := fmupd rid p (refreshers s3)\<rparr>
                  in (Inr (tk_id t, rid, tk_expiration t), s4))"

definition CreateAccessAndRefreshTokens ::
    "string \<Rightarrow> string \<Rightarrow> time \<Rightarrow> time \<Rightarrow> time \<Rightarrow> tokenRequest \<Rightarrow> string \<Rightarrow> storage
       \<Rightarrow> (string \<times> string \<times> time) result \<times> storage" where
  "CreateAccessAndRefreshTokens rid tid now1 now2 now3 req currentRefreshToken s =
     (if currentRefreshToken = []
      then let (r, s') = issueTokens rid tid now1 now2 req s in (Inr r, s')
      else rotateTokens rid tid now1 now2 now3 req currentRefreshToken s)"

subsection \<open>Looking up and revoking\<close>

definition TokenRequestByRefreshToken :: "string \<Rightarrow> storage \<Rightarrow> tokenRequest result" where
  "TokenRequestByRefreshToken refreshTokenID s =
     (case fmlookup (refreshers s) refreshTokenID of
        None \<Rightarrow> Inl InvalidRefreshTokenParam
      | Some p \<Rightarrow> Inr (RefreshReq p))"

definition GetRefreshTokenInfo :: "string \<Rightarrow> storage \<Rightarrow> (string \<times> string) result" where
  "GetRefreshTokenInfo tokenOrID s =
     (case fmlookup (refreshers s) tokenOrID of
        None \<Rightarrow> Inl OpInvalidRefreshToken
      | Some p \<Rightarrow> Inr (rt_userID (deref s p), rt_id (deref s p)))"

text \<open>
  The loop of \<open>TerminateSession\<close> ranges over the access tokens and deletes from both maps. A key
  deleted before it is reached is skipped, as in Go; the loop only deletes the key it is at.
\<close>

primrec terminateLoop ::
    "string list \<Rightarrow> string \<Rightarrow> string \<Rightarrow> (string, token) fmap \<times> (string, addr) fmap
       \<Rightarrow> (string, token) fmap \<times> (string, addr) fmap" where
  "terminateLoop [] userID clientID m = m"
| "terminateLoop (k # ks) userID clientID m =
     terminateLoop ks userID clientID
       (case fmlookup (fst m) k of
          None \<Rightarrow> m
        | Some t \<Rightarrow>
            if tk_applicationID t = clientID \<and> tk_subject t = userID
            then (fmdrop k (fst m), fmdrop (tk_refreshID t) (snd m))
            else m)"

definition TerminateSession_range ::
    "string list \<Rightarrow> string \<Rightarrow> string \<Rightarrow> storage \<Rightarrow> storage" where
  "TerminateSession_range ks userID clientID s =
     (let (ts, rs) = terminateLoop ks userID clientID (tokens s, refreshers s)
      in s\<lparr>tokens := ts, refreshers := rs\<rparr>)"

definition TerminateSession :: "string \<Rightarrow> string \<Rightarrow> storage \<Rightarrow> storage" where
  "TerminateSession userID clientID s =
     TerminateSession_range (range_keys (tokens s)) userID clientID s"

definition RevokeToken :: "string \<Rightarrow> string \<Rightarrow> storage \<Rightarrow> error option \<times> storage" where
  "RevokeToken tokenOrTokenID clientID s =
     (case fmlookup (tokens s) tokenOrTokenID of
        Some t \<Rightarrow>
          if tk_applicationID t \<noteq> clientID then (Some NotIssuedForClient, s)
          else (None, s\<lparr>tokens := fmdrop (tk_id t) (tokens s)\<rparr>)
      | None \<Rightarrow>
          (case fmlookup (refreshers s) tokenOrTokenID of
             Some p \<Rightarrow>
               let rt = deref s p
               in if rt_applicationID rt \<noteq> clientID then (Some NotIssuedForClient, s)
                  else (None, s\<lparr>refreshers := fmdrop (rt_id rt) (refreshers s),
                                tokens := fmdrop (rt_accessTokenID rt) (tokens s)\<rparr>)
           | None \<Rightarrow> (None, s)))"

subsection \<open>What the loop of TerminateSession does\<close>

abbreviation session_token :: "string \<Rightarrow> string \<Rightarrow> token \<Rightarrow> bool" where
  "session_token userID clientID t \<equiv> tk_applicationID t = clientID \<and> tk_subject t = userID"

lemma terminateLoop_tokens:
  "fst (terminateLoop ks u c m) = range_delete (\<lambda>_. session_token u c) ks (fst m)"
  by (induction ks arbitrary: m) (auto split: option.splits)

text \<open>The access token filed under \<open>k\<close> belongs to the session and names the refresh token \<open>r\<close>.\<close>

definition session_refresh ::
    "(string, token) fmap \<Rightarrow> string \<Rightarrow> string \<Rightarrow> string \<Rightarrow> string \<Rightarrow> bool" where
  "session_refresh ts userID clientID r k =
     (case fmlookup ts k of
        None \<Rightarrow> False
      | Some t \<Rightarrow> session_token userID clientID t \<and> tk_refreshID t = r)"

lemma session_refresh_drop:
  "session_refresh (fmdrop a ts) u c r k \<longleftrightarrow> k \<noteq> a \<and> session_refresh ts u c r k"
  by (simp add: session_refresh_def)

lemma terminateLoop_refreshers:
  "fmlookup (snd (terminateLoop ks u c m)) r =
     (if \<exists>k \<in> set ks. session_refresh (fst m) u c r k then None else fmlookup (snd m) r)"
proof (induction ks arbitrary: m)
  case Nil
  show ?case by simp
next
  case (Cons a ks)
  show ?case
  proof (cases "\<exists>t. fmlookup (fst m) a = Some t \<and> session_token u c t")
    case True
    then obtain t where t: "fmlookup (fst m) a = Some t" "session_token u c t" by blast
    then have "session_refresh (fst m) u c r a \<longleftrightarrow> tk_refreshID t = r"
      by (simp add: session_refresh_def)
    with t Cons.IH show ?thesis by (auto simp: session_refresh_drop)
  next
    case False
    then have "\<not> session_refresh (fst m) u c r a"
      by (auto simp: session_refresh_def split: option.splits)
    with False Cons.IH show ?thesis by (auto split: option.splits)
  qed
qed

definition ends_refresh :: "(string, token) fmap \<Rightarrow> string \<Rightarrow> string \<Rightarrow> string \<Rightarrow> bool" where
  "ends_refresh ts userID clientID r \<longleftrightarrow>
     list_ex (session_refresh ts userID clientID r) (range_keys ts)"

lemma ends_refresh_iff:
  "ends_refresh ts u c r \<longleftrightarrow>
     (\<exists>k t. fmlookup ts k = Some t \<and> session_token u c t \<and> tk_refreshID t = r)"
proof -
  have "session_refresh ts u c r k \<longleftrightarrow>
      (\<exists>t. fmlookup ts k = Some t \<and> session_token u c t \<and> tk_refreshID t = r)" for k
    by (cases "fmlookup ts k") (auto simp: session_refresh_def)
  then show ?thesis
    unfolding ends_refresh_def list_ex_iff set_range_keys by (blast intro: fmdom'I)
qed

lemma lookup_TerminateSession_range:
  assumes "enumerates ks (tokens s)"
  shows "tokens (TerminateSession_range ks u c s) = fmdelete (\<lambda>_. session_token u c) (tokens s)"
    and "fmlookup (refreshers (TerminateSession_range ks u c s)) r =
           (if ends_refresh (tokens s) u c r then None else fmlookup (refreshers s) r)"
proof -
  have loop: "TerminateSession_range ks u c s =
      s\<lparr>tokens := fst (terminateLoop ks u c (tokens s, refreshers s)),
        refreshers := snd (terminateLoop ks u c (tokens s, refreshers s))\<rparr>"
    by (simp add: TerminateSession_range_def split_beta)
  show "tokens (TerminateSession_range ks u c s) = fmdelete (\<lambda>_. session_token u c) (tokens s)"
    using assms by (simp add: loop terminateLoop_tokens range_delete_eq)
  have "(\<exists>k \<in> set ks. session_refresh (tokens s) u c r k) \<longleftrightarrow> ends_refresh (tokens s) u c r"
    using assms by (simp add: ends_refresh_def list_ex_iff enumerates_def)
  then show "fmlookup (refreshers (TerminateSession_range ks u c s)) r =
      (if ends_refresh (tokens s) u c r then None else fmlookup (refreshers s) r)"
    by (simp add: loop terminateLoop_refreshers)
qed

lemma TerminateSession_range_frame [simp]:
  "authRequests (TerminateSession_range ks u c s) = authRequests s"
  "codes (TerminateSession_range ks u c s) = codes s"
  "rtHeap (TerminateSession_range ks u c s) = rtHeap s"
  "rtNext (TerminateSession_range ks u c s) = rtNext s"
  "clients (TerminateSession_range ks u c s) = clients s"
  "seedIDs (TerminateSession_range ks u c s) = seedIDs s"
  "signKey (TerminateSession_range ks u c s) = signKey s"
  "deviceCodes (TerminateSession_range ks u c s) = deviceCodes s"
  "userCodes (TerminateSession_range ks u c s) = userCodes s"
  by (simp_all add: TerminateSession_range_def split_beta)

lemma TerminateSession_frame [simp]:
  "authRequests (TerminateSession u c s) = authRequests s"
  "codes (TerminateSession u c s) = codes s"
  "rtHeap (TerminateSession u c s) = rtHeap s"
  "rtNext (TerminateSession u c s) = rtNext s"
  "clients (TerminateSession u c s) = clients s"
  "seedIDs (TerminateSession u c s) = seedIDs s"
  "signKey (TerminateSession u c s) = signKey s"
  "deviceCodes (TerminateSession u c s) = deviceCodes s"
  "userCodes (TerminateSession u c s) = userCodes s"
  by (simp_all add: TerminateSession_def)

lemma TerminateSession_range_eq:
  assumes "enumerates ks (tokens s)"
  shows "TerminateSession_range ks u c s = TerminateSession u c s"
  unfolding TerminateSession_def
proof (rule storage.equality)
  show "refreshers (TerminateSession_range ks u c s) =
      refreshers (TerminateSession_range (range_keys (tokens s)) u c s)"
    by (rule fmap_ext)
      (simp add: lookup_TerminateSession_range(2) [OF assms]
        lookup_TerminateSession_range(2) [OF enumerates_range_keys])
qed (simp_all add: lookup_TerminateSession_range(1) assms)

lemmas lookup_TerminateSession [lookup_simps] =
  lookup_TerminateSession_range [OF enumerates_range_keys, folded TerminateSession_def]

end
