(* ===== verification/TokenInv.thy ===== *)
theory TokenInv
  imports Tokens
begin

text \<open>
  What the token store keeps true, and that every token operation keeps it. The invariant is over
  the four parts of the storage the tokens live in and the set \<open>U\<close> of the ids drawn so far, which
  is how the freshness of \<open>uuid.NewString\<close> is stated: an id is drawn once, and never empty.
\<close>

text \<open>Access tokens are filed under their own id and are never confused with refresh tokens.\<close>

definition tokens_ok :: "string set \<Rightarrow> (string, token) fmap \<Rightarrow> (string, addr) fmap \<Rightarrow> bool" where
  "tokens_ok U ts rs \<longleftrightarrow>
     (\<forall>k t. fmlookup ts k = Some t \<longrightarrow>
        tk_id t = k \<and> k \<in> U \<and> tk_refreshID t \<in> U \<and> fmlookup rs k = None)"

text \<open>
  A refresh token is an object of the heap, filed under the id it carries; so no object is filed
  under two ids. The access token it names, if still filed, names it back.
\<close>

definition refresh_ok ::
    "string set \<Rightarrow> (string, token) fmap \<Rightarrow> (string, addr) fmap \<Rightarrow> (addr, refreshToken) fmap \<Rightarrow> bool" where
  "refresh_ok U ts rs h \<longleftrightarrow>
     (\<forall>k p. fmlookup rs k = Some p \<longrightarrow> k \<in> U \<and> k \<noteq> [] \<and>
        (\<exists>rt. fmlookup h p = Some rt \<and> rt_id rt = k \<and> rt_accessTokenID rt \<in> U \<and>
           (\<forall>t. fmlookup ts (rt_accessTokenID rt) = Some t \<longrightarrow> tk_refreshID t = k)))"

text \<open>A live refresh token has at most one live access token: the one it names.\<close>

definition pair_ok ::
    "(string, token) fmap \<Rightarrow> (string, addr) fmap \<Rightarrow> (addr, refreshToken) fmap \<Rightarrow> bool" where
  "pair_ok ts rs h \<longleftrightarrow>
     (\<forall>k t p rt. fmlookup ts k = Some t \<longrightarrow> fmlookup rs (tk_refreshID t) = Some p \<longrightarrow>
        fmlookup h p = Some rt \<longrightarrow> rt_accessTokenID rt = k)"

definition heap_ok :: "(addr, refreshToken) fmap \<Rightarrow> addr \<Rightarrow> bool" where
  "heap_ok h n \<longleftrightarrow> (\<forall>p. fmlookup h p \<noteq> None \<longleftrightarrow> p < n)"

definition token_inv :: "string set \<Rightarrow> storage \<Rightarrow> bool" where
  "token_inv U s \<longleftrightarrow>
     [] \<in> U \<and> tokens_ok U (tokens s) (refreshers s)
     \<and> refresh_ok U (tokens s) (refreshers s) (rtHeap s)
     \<and> pair_ok (tokens s) (refreshers s) (rtHeap s) \<and> heap_ok (rtHeap s) (rtNext s)"

lemmas token_inv_defs = token_inv_def tokens_ok_def refresh_ok_def pair_ok_def heap_ok_def

lemma token_inv_mono: "token_inv U s \<Longrightarrow> U \<subseteq> U' \<Longrightarrow> token_inv U' s"
  unfolding token_inv_defs by blast

lemma token_inv_cong:
  "tokens s' = tokens s \<Longrightarrow> refreshers s' = refreshers s \<Longrightarrow> rtHeap s' = rtHeap s \<Longrightarrow>
     rtNext s' = rtNext s \<Longrightarrow> token_inv U s' = token_inv U s"
  by (simp add: token_inv_def)

subsection \<open>What follows from it\<close>

lemma token_inv_token:
  "token_inv U s \<Longrightarrow> fmlookup (tokens s) k = Some t \<Longrightarrow>
     tk_id t = k \<and> k \<in> U \<and> tk_refreshID t \<in> U \<and> fmlookup (refreshers s) k = None"
  by (simp add: token_inv_def tokens_ok_def)

lemma token_inv_refresh:
  assumes "token_inv U s" "fmlookup (refreshers s) k = Some p"
  shows "k \<in> U" "k \<noteq> []" "fmlookup (rtHeap s) p = Some (deref s p)" "rt_id (deref s p) = k"
    "rt_accessTokenID (deref s p) \<in> U" "p < rtNext s"
    "\<And>t. fmlookup (tokens s) (rt_accessTokenID (deref s p)) = Some t \<Longrightarrow> tk_refreshID t = k"
proof -
  have "refresh_ok U (tokens s) (refreshers s) (rtHeap s)" and heap: "heap_ok (rtHeap s) (rtNext s)"
    using assms(1) by (simp_all add: token_inv_def)
  with assms(2) obtain rt where "k \<in> U" "k \<noteq> []" and rt: "fmlookup (rtHeap s) p = Some rt"
    and "rt_id rt = k" "rt_accessTokenID rt \<in> U"
    and named: "\<forall>t. fmlookup (tokens s) (rt_accessTokenID rt) = Some t \<longrightarrow> tk_refreshID t = k"
    unfolding refresh_ok_def by blast
  moreover from rt have "deref s p = rt" by (simp add: deref_def)
  ultimately show "k \<in> U" "k \<noteq> []" "fmlookup (rtHeap s) p = Some (deref s p)"
    "rt_id (deref s p) = k" "rt_accessTokenID (deref s p) \<in> U"
    "\<And>t. fmlookup (tokens s) (rt_accessTokenID (deref s p)) = Some t \<Longrightarrow> tk_refreshID t = k"
    by simp_all
  from heap rt show "p < rtNext s" unfolding heap_ok_def by (metis option.distinct(1))
qed

lemma token_inv_pair:
  assumes "token_inv U s" "fmlookup (tokens s) k = Some t"
    "fmlookup (refreshers s) (tk_refreshID t) = Some p"
  shows "rt_accessTokenID (deref s p) = k"
  using assms token_inv_refresh(3) [OF assms(1,3)] by (simp add: token_inv_def pair_ok_def)

text \<open>The invariant can be shown over the objects themselves.\<close>

lemma token_invI:
  assumes "[] \<in> U"
    and "\<And>k t. fmlookup (tokens s) k = Some t \<Longrightarrow>
           tk_id t = k \<and> k \<in> U \<and> tk_refreshID t \<in> U \<and> fmlookup (refreshers s) k = None"
    and "\<And>k p. fmlookup (refreshers s) k = Some p \<Longrightarrow>
           k \<in> U \<and> k \<noteq> [] \<and> p < rtNext s \<and> rt_id (deref s p) = k
           \<and> rt_accessTokenID (deref s p) \<in> U"
    and "\<And>k p t. fmlookup (refreshers s) k = Some p \<Longrightarrow>
           fmlookup (tokens s) (rt_accessTokenID (deref s p)) = Some t \<Longrightarrow> tk_refreshID t = k"
    and "\<And>k t p. fmlookup (tokens s) k = Some t \<Longrightarrow>
           fmlookup (refreshers s) (tk_refreshID t) = Some p \<Longrightarrow> rt_accessTokenID (deref s p) = k"
    and "heap_ok (rtHeap s) (rtNext s)"
  shows "token_inv U s"
proof -
  have obj: "fmlookup (rtHeap s) p = Some (deref s p)" if "fmlookup (refreshers s) k = Some p" for k p
  proof -
    from assms(3) [OF that] have "p < rtNext s" by blast
    with assms(6) show ?thesis by (auto simp: heap_ok_def deref_def split: option.splits)
  qed
  have "refresh_ok U (tokens s) (refreshers s) (rtHeap s)"
    unfolding refresh_ok_def using obj assms(3,4) by blast
  moreover have "pair_ok (tokens s) (refreshers s) (rtHeap s)"
    unfolding pair_ok_def using obj assms(5) by (metis option.inject)
  ultimately show ?thesis using assms(1,2,6) by (simp add: token_inv_def tokens_ok_def)
qed

text \<open>No two ids share a refresh token object.\<close>

lemma token_inv_inj:
  "token_inv U s \<Longrightarrow> fmlookup (refreshers s) k = Some p \<Longrightarrow> fmlookup (refreshers s) k' = Some p \<Longrightarrow> k = k'"
  using token_inv_refresh(4) by metis

lemma token_inv_fresh:
  assumes "token_inv U s" "x \<notin> U"
  shows "fmlookup (tokens s) x = None" "fmlookup (refreshers s) x = None" "x \<noteq> []"
proof -
  show "fmlookup (tokens s) x = None"
    using token_inv_token [OF assms(1)] assms(2) by (metis option.exhaust)
  show "fmlookup (refreshers s) x = None"
    using token_inv_refresh(1) [OF assms(1)] assms(2) by (metis option.exhaust)
  show "x \<noteq> []" using assms by (auto simp: token_inv_def)
qed

subsection \<open>Dropping entries keeps it\<close>

text \<open>Every revocation only removes entries; the heap is untouched.\<close>

lemma token_inv_shrink:
  assumes inv: "token_inv U s"
    and ts: "\<And>k t. fmlookup (tokens s') k = Some t \<Longrightarrow> fmlookup (tokens s) k = Some t"
    and rs: "\<And>k p. fmlookup (refreshers s') k = Some p \<Longrightarrow> fmlookup (refreshers s) k = Some p"
    and heap: "rtHeap s' = rtHeap s" "rtNext s' = rtNext s"
  shows "token_inv U s'"
proof (rule token_invI)
  have [simp]: "deref s' = deref s" by (simp add: fun_eq_iff deref_def heap)
  show "[] \<in> U" "heap_ok (rtHeap s') (rtNext s')" using inv by (simp_all add: token_inv_def heap)
  fix k t
  assume t: "fmlookup (tokens s') k = Some t"
  have "fmlookup (refreshers s') k = None"
    using token_inv_token [OF inv ts [OF t]] rs by (metis option.exhaust)
  with token_inv_token [OF inv ts [OF t]]
  show "tk_id t = k \<and> k \<in> U \<and> tk_refreshID t \<in> U \<and> fmlookup (refreshers s') k = None" by simp
next
  fix k t p
  assume "fmlookup (tokens s') k = Some t" "fmlookup (refreshers s') (tk_refreshID t) = Some p"
  then show "rt_accessTokenID (deref s' p) = k"
    using token_inv_pair [OF inv ts rs] by (simp add: deref_def heap)
next
  fix k p
  assume p: "fmlookup (refreshers s') k = Some p"
  note token_inv_refresh [OF inv rs [OF p]]
  then show "k \<in> U \<and> k \<noteq> [] \<and> p < rtNext s' \<and> rt_id (deref s' p) = k
      \<and> rt_accessTokenID (deref s' p) \<in> U"
    by (simp add: deref_def heap)
next
  fix k p t
  assume p: "fmlookup (refreshers s') k = Some p"
    and "fmlookup (tokens s') (rt_accessTokenID (deref s' p)) = Some t"
  then show "tk_refreshID t = k"
    using token_inv_refresh(7) [OF inv rs [OF p]] ts by (simp add: deref_def heap)
qed

lemma token_inv_RevokeToken:
  "token_inv U s \<Longrightarrow> token_inv U (snd (RevokeToken tok c s))"
  by (erule token_inv_shrink)
    (auto simp: RevokeToken_def Let_def split: option.splits if_splits)

lemma token_inv_TerminateSession:
  "token_inv U s \<Longrightarrow> token_inv U (TerminateSession u c s)"
  by (erule token_inv_shrink)
    (auto simp: lookup_TerminateSession split: option.splits if_splits)

subsection \<open>Filing a fresh access token keeps it\<close>

lemma accessToken_tokens:
  "tokens (snd (accessToken tid now a r su au sc s)) =
     fmupd tid (fst (accessToken tid now a r su au sc s)) (tokens s)"
  "tk_id (fst (accessToken tid now a r su au sc s)) = tid"
  "tk_refreshID (fst (accessToken tid now a r su au sc s)) = r"
  by (simp_all add: accessToken_def Let_def)

lemma accessToken_frame [simp]:
  "refreshers (snd (accessToken tid now a r su au sc s)) = refreshers s"
  "rtHeap (snd (accessToken tid now a r su au sc s)) = rtHeap s"
  "rtNext (snd (accessToken tid now a r su au sc s)) = rtNext s"
  "deref (snd (accessToken tid now a r su au sc s)) = deref s"
  by (simp_all add: accessToken_def Let_def deref_def fun_eq_iff)

text \<open>
  The token is given a refresh id under which no refresh token is filed yet, or ever was one.
\<close>

lemma token_inv_accessToken:
  assumes inv: "token_inv U s" and fresh: "tid \<notin> U"
    and r: "r \<in> U'" "fmlookup (refreshers s) r = None" and U': "insert tid U \<subseteq> U'"
  shows "token_inv U' (snd (accessToken tid now appID r subject audience scopes s))"
    (is "token_inv U' ?s")
proof (rule token_invI)
  note none = token_inv_fresh [OF inv fresh]
  have inv': "token_inv U' s" by (rule token_inv_mono [OF inv]) (use U' in blast)
  show "[] \<in> U'" "heap_ok (rtHeap ?s) (rtNext ?s)" using inv' by (simp_all add: token_inv_def)
  show "tk_id t = k \<and> k \<in> U' \<and> tk_refreshID t \<in> U' \<and> fmlookup (refreshers ?s) k = None"
    if "fmlookup (tokens ?s) k = Some t" for k t
    using that token_inv_token [OF inv'] U' none r
    by (auto simp: accessToken_tokens split: if_splits)
  show "rt_accessTokenID (deref ?s p) = k"
    if "fmlookup (tokens ?s) k = Some t" "fmlookup (refreshers ?s) (tk_refreshID t) = Some p" for k t p
    using that token_inv_pair [OF inv'] r by (auto simp: accessToken_tokens split: if_splits)
  show "k \<in> U' \<and> k \<noteq> [] \<and> p < rtNext ?s \<and> rt_id (deref ?s p) = k
      \<and> rt_accessTokenID (deref ?s p) \<in> U'"
    if "fmlookup (refreshers ?s) k = Some p" for k p
    using that token_inv_refresh(1-6) [OF inv'] by simp
  show "tk_refreshID t = k"
    if p: "fmlookup (refreshers ?s) k = Some p"
      and t: "fmlookup (tokens ?s) (rt_accessTokenID (deref ?s p)) = Some t" for k p t
  proof -
    from p have p': "fmlookup (refreshers s) k = Some p" by simp
    then have "rt_accessTokenID (deref s p) \<noteq> tid"
      using token_inv_refresh(5) [OF inv] fresh by blast
    with p' t show ?thesis using token_inv_refresh(7) [OF inv'] by (simp add: accessToken_tokens)
  qed
qed

lemma token_inv_CreateAccessToken:
  assumes "token_inv U s" "tid \<notin> U"
  shows "token_inv (insert tid U) (snd (CreateAccessToken tid now req s))"
proof -
  have "fmlookup (refreshers s) [] = None"
    using token_inv_refresh(2) [OF assms(1)] by (metis option.exhaust)
  moreover have "[] \<in> insert tid U" using assms(1) by (simp add: token_inv_def)
  ultimately show ?thesis
    unfolding CreateAccessToken_def Let_def split_beta snd_conv
    by (intro token_inv_accessToken [OF assms]) auto
qed

lemma deref_SetCurrentScopes:
  "deref (SetCurrentScopes p scopes s) q =
     (if q = p then (deref s p)\<lparr>rt_scopes := scopes\<rparr> else deref s q)"
  by (simp add: SetCurrentScopes_def deref_def)

lemma SetCurrentScopes_frame [simp]:
  "tokens (SetCurrentScopes p scopes s) = tokens s"
  "refreshers (SetCurrentScopes p scopes s) = refreshers s"
  "rtNext (SetCurrentScopes p scopes s) = rtNext s"
  by (simp_all add: SetCurrentScopes_def)

lemma deref_SetCurrentScopes_fields [simp]:
  "rt_id (deref (SetCurrentScopes p scopes s) q) = rt_id (deref s q)"
  "rt_accessTokenID (deref (SetCurrentScopes p scopes s) q) = rt_accessTokenID (deref s q)"
  by (simp_all add: deref_SetCurrentScopes)

lemma token_inv_SetCurrentScopes:
  assumes inv: "token_inv U s" and p: "p < rtNext s"
  shows "token_inv U (SetCurrentScopes p scopes s)"
proof (rule token_invI)
  show "heap_ok (rtHeap (SetCurrentScopes p scopes s)) (rtNext (SetCurrentScopes p scopes s))"
    using inv p by (simp add: token_inv_def heap_ok_def SetCurrentScopes_def)
  show "[] \<in> U" using inv by (simp add: token_inv_def)
next
  fix k t
  assume "fmlookup (tokens (SetCurrentScopes p scopes s)) k = Some t"
  then show "tk_id t = k \<and> k \<in> U \<and> tk_refreshID t \<in> U
      \<and> fmlookup (refreshers (SetCurrentScopes p scopes s)) k = None"
    using token_inv_token [OF inv] by simp
next
  fix k q
  assume "fmlookup (refreshers (SetCurrentScopes p scopes s)) k = Some q"
  then show "k \<in> U \<and> k \<noteq> [] \<and> q < rtNext (SetCurrentScopes p scopes s)
      \<and> rt_id (deref (SetCurrentScopes p scopes s) q) = k
      \<and> rt_accessTokenID (deref (SetCurrentScopes p scopes s) q) \<in> U"
    using token_inv_refresh(1-6) [OF inv] by simp
next
  fix k q t
  assume "fmlookup (refreshers (SetCurrentScopes p scopes s)) k = Some q"
    "fmlookup (tokens (SetCurrentScopes p scopes s))
       (rt_accessTokenID (deref (SetCurrentScopes p scopes s) q)) = Some t"
  then show "tk_refreshID t = k"
    using token_inv_refresh(7) [OF inv] by simp
next
  fix k t q
  assume "fmlookup (tokens (SetCurrentScopes p scopes s)) k = Some t"
    "fmlookup (refreshers (SetCurrentScopes p scopes s)) (tk_refreshID t) = Some q"
  then show "rt_accessTokenID (deref (SetCurrentScopes p scopes s) q) = k"
    using token_inv_pair [OF inv] by simp
qed

end
