(* ===== verification/Rotation.thy ===== *)
theory Rotation
  imports TokenInv
begin

text \<open>
  Issuing and rotating refresh tokens: what each branch of \<open>CreateAccessAndRefreshTokens\<close> leaves,
  and that every branch, the failing ones included, keeps the token invariant.
\<close>

subsection \<open>What the branches do\<close>

definition issuedToken :: "string \<Rightarrow> string \<Rightarrow> time \<Rightarrow> tokenRequest \<Rightarrow> storage \<Rightarrow> token" where
  "issuedToken rid tid now req s =
     \<lparr>tk_id = tid, tk_applicationID = fst (infoFromRequest s req), tk_subject = reqGetSubject s req,
      tk_refreshID = rid, tk_audience = reqGetAudience s req,
      tk_expiration = now + 15 * Minute, tk_scopes = reqGetScopes s req\<rparr>"

definition issuedRefresh ::
    "string \<Rightarrow> string \<Rightarrow> time \<Rightarrow> tokenRequest \<Rightarrow> storage \<Rightarrow> refreshToken" where
  "issuedRefresh rid tid now req s =
     \<lparr>rt_id = rid, rt_authTime = fst (snd (infoFromRequest s req)),
      rt_amr = snd (snd (infoFromRequest s req)), rt_audience = reqGetAudience s req,
      rt_userID = reqGetSubject s req, rt_applicationID = fst (infoFromRequest s req),
      rt_expiration = now + 24 * Hour, rt_scopes = reqGetScopes s req, rt_accessTokenID = tid\<rparr>"

lemma issueTokens_eq:
  "issueTokens rid tid now1 now2 req s =
     ((tid, rid, now1 + 15 * Minute),
      s\<lparr>tokens := fmupd tid (issuedToken rid tid now1 req s) (tokens s),
        refreshers := fmupd rid (rtNext s) (refreshers s),
        rtHeap := fmupd (rtNext s) (issuedRefresh rid tid now2 req s) (rtHeap s),
        rtNext := rtNext s + 1\<rparr>)"
  by (cases "infoFromRequest s req")
    (simp add: issueTokens_def accessToken_def newRefreshToken_def issuedToken_def
      issuedRefresh_def Let_def)

definition rotatedRefresh :: "string \<Rightarrow> string \<Rightarrow> time \<Rightarrow> refreshToken \<Rightarrow> refreshToken" where
  "rotatedRefresh rid tid now old =
     old\<lparr>rt_id := rid, rt_accessTokenID := tid, rt_expiration := now + 24 * Hour\<rparr>"

text \<open>The state after the new access token is filed, in every branch of the rotation.\<close>

definition filed :: "string \<Rightarrow> string \<Rightarrow> time \<Rightarrow> tokenRequest \<Rightarrow> storage \<Rightarrow> storage" where
  "filed rid tid now req s = s\<lparr>tokens := fmupd tid (issuedToken rid tid now req s) (tokens s)\<rparr>"

lemma filed_eq:
  "filed rid tid now req s =
     snd (accessToken tid now (fst (infoFromRequest s req)) rid (reqGetSubject s req)
            (reqGetAudience s req) (reqGetScopes s req) s)"
  by (simp add: filed_def accessToken_def issuedToken_def Let_def)

definition retired :: "string \<Rightarrow> addr \<Rightarrow> storage \<Rightarrow> storage" where
  "retired cur p s =
     s\<lparr>refreshers := fmdrop cur (refreshers s),
       tokens := fmdrop (rt_accessTokenID (deref s p)) (tokens s)\<rparr>"

definition installed :: "string \<Rightarrow> addr \<Rightarrow> refreshToken \<Rightarrow> addr \<Rightarrow> storage \<Rightarrow> storage" where
  "installed rid p rt n s =
     s\<lparr>refreshers := fmupd rid p (refreshers s), rtHeap := fmupd p rt (rtHeap s), rtNext := n\<rparr>"

lemma issueTokens_state:
  "snd (issueTokens rid tid now1 now2 req s) =
     installed rid (rtNext s) (issuedRefresh rid tid now2 req s) (rtNext s + 1)
       (filed rid tid now1 req s)"
  by (simp add: issueTokens_eq installed_def filed_def)

lemma rotateTokens_eq:
  "rotateTokens rid tid now1 now2 now3 req cur s =
     (case fmlookup (refreshers s) cur of
        None \<Rightarrow> (Inl InvalidRefreshToken, filed rid tid now1 req s)
      | Some p \<Rightarrow>
          if rt_expiration (deref s p) < now2
          then (Inl ExpiredRefreshToken, retired cur p (filed rid tid now1 req s))
          else (Inr (tid, rid, now1 + 15 * Minute),
                installed rid p (rotatedRefresh rid tid now3 (deref s p)) (rtNext s)
                  (retired cur p (filed rid tid now1 req s))))"
  by (cases "infoFromRequest s req")
    (auto simp: rotateTokens_def accessToken_def issuedToken_def filed_def retired_def
      installed_def rotatedRefresh_def deref_def Let_def split: option.splits)

lemma filed_simps [simp]:
  "refreshers (filed rid tid now req s) = refreshers s"
  "rtHeap (filed rid tid now req s) = rtHeap s"
  "rtNext (filed rid tid now req s) = rtNext s"
  "tokens (filed rid tid now req s) = fmupd tid (issuedToken rid tid now req s) (tokens s)"
  "deref (filed rid tid now req s) = deref s"
  by (simp_all add: filed_def deref_def fun_eq_iff)

lemma retired_simps [simp]:
  "refreshers (retired cur p s) = fmdrop cur (refreshers s)"
  "rtHeap (retired cur p s) = rtHeap s" "rtNext (retired cur p s) = rtNext s"
  "tokens (retired cur p s) = fmdrop (rt_accessTokenID (deref s p)) (tokens s)"
  "deref (retired cur p s) = deref s"
  by (simp_all add: retired_def deref_def fun_eq_iff)

lemma installed_simps [simp]:
  "refreshers (installed rid p rt n s) = fmupd rid p (refreshers s)"
  "rtHeap (installed rid p rt n s) = fmupd p rt (rtHeap s)" "rtNext (installed rid p rt n s) = n"
  "tokens (installed rid p rt n s) = tokens s"
  "deref (installed rid p rt n s) q = (if q = p then rt else deref s q)"
  by (simp_all add: installed_def deref_def)

lemma issued_fields [simp]:
  "tk_id (issuedToken rid tid now req s) = tid" "tk_refreshID (issuedToken rid tid now req s) = rid"
  "rt_id (issuedRefresh rid tid now req s) = rid"
  "rt_accessTokenID (issuedRefresh rid tid now req s) = tid"
  "rt_id (rotatedRefresh rid tid now old) = rid"
  "rt_accessTokenID (rotatedRefresh rid tid now old) = tid"
  by (simp_all add: issuedToken_def issuedRefresh_def rotatedRefresh_def)

subsection \<open>They keep the invariant\<close>

lemma token_inv_filed:
  assumes "token_inv U s" "tid \<notin> U" "rid \<notin> U" "rid \<noteq> tid"
  shows "token_inv (insert rid (insert tid U)) (filed rid tid now req s)"
  unfolding filed_eq using token_inv_fresh(2) [OF assms(1,3)]
  by (intro token_inv_accessToken [OF assms(1,2)]) auto

lemma token_inv_retired:
  "token_inv U s \<Longrightarrow> token_inv U (retired cur p s)"
  by (erule token_inv_shrink) (auto split: if_splits)

text \<open>
  Filing a refresh token object: new at the end of the heap, or one no id leads to any more. The
  access token it names is the only one that names it.
\<close>

lemma token_inv_installed:
  assumes inv: "token_inv U s"
    and rid: "rid \<in> U" "rid \<noteq> []" "fmlookup (tokens s) rid = None"
    and t: "fmlookup (tokens s) tid = Some t" "tk_refreshID t = rid"
    and uniq: "\<And>k t'. fmlookup (tokens s) k = Some t' \<Longrightarrow> tk_refreshID t' = rid \<Longrightarrow> k = tid"
    and rt: "rt_id rt = rid" "rt_accessTokenID rt = tid"
    and p: "p = rtNext s \<and> n = p + 1 \<or> p < rtNext s \<and> n = rtNext s"
    and free: "\<And>k. fmlookup (refreshers s) k \<noteq> Some p"
  shows "token_inv U (installed rid p rt n s)"
proof (rule token_invI)
  show "[] \<in> U" using inv by (simp add: token_inv_def)
  show "heap_ok (rtHeap (installed rid p rt n s)) (rtNext (installed rid p rt n s))"
    using inv p by (auto simp: token_inv_def heap_ok_def)
next
  fix k t'
  assume "fmlookup (tokens (installed rid p rt n s)) k = Some t'"
  then show "tk_id t' = k \<and> k \<in> U \<and> tk_refreshID t' \<in> U
      \<and> fmlookup (refreshers (installed rid p rt n s)) k = None"
    using token_inv_token [OF inv] rid(3) by auto
next
  fix k q
  assume "fmlookup (refreshers (installed rid p rt n s)) k = Some q"
  moreover have "tid \<in> U" using token_inv_token [OF inv t(1)] by blast
  ultimately show "k \<in> U \<and> k \<noteq> [] \<and> q < rtNext (installed rid p rt n s)
      \<and> rt_id (deref (installed rid p rt n s) q) = k
      \<and> rt_accessTokenID (deref (installed rid p rt n s) q) \<in> U"
    using token_inv_refresh(1-6) [OF inv, of k q] rid rt p free [of k]
    by (auto split: if_splits)
next
  fix k q t'
  assume "fmlookup (refreshers (installed rid p rt n s)) k = Some q"
    "fmlookup (tokens (installed rid p rt n s))
       (rt_accessTokenID (deref (installed rid p rt n s) q)) = Some t'"
  then show "tk_refreshID t' = k"
    using token_inv_refresh(7) [OF inv, of k q] rt t free [of k] by (auto split: if_splits)
next
  fix k t' q
  assume "fmlookup (tokens (installed rid p rt n s)) k = Some t'"
    "fmlookup (refreshers (installed rid p rt n s)) (tk_refreshID t') = Some q"
  then show "rt_accessTokenID (deref (installed rid p rt n s) q) = k"
    using token_inv_pair [OF inv, of k t' q] rt uniq [of k t'] free by (auto split: if_splits)
qed

text \<open>A fresh refresh id is not yet named by any access token but the new one.\<close>

lemma filed_uniq:
  assumes "token_inv U s" "rid \<notin> U"
    and "fmlookup (tokens (filed rid tid now req s)) k = Some t" "tk_refreshID t = rid"
  shows "k = tid"
proof (rule ccontr)
  assume "k \<noteq> tid"
  with assms(3) have "fmlookup (tokens s) k = Some t" by simp
  then have "tk_refreshID t \<in> U" using token_inv_token [OF assms(1)] by blast
  with assms(2,4) show False by simp
qed

lemma token_inv_issueTokens:
  assumes inv: "token_inv U s" and fresh: "tid \<notin> U" "rid \<notin> U" "rid \<noteq> tid"
  shows "token_inv (insert rid (insert tid U)) (snd (issueTokens rid tid now1 now2 req s))"
  unfolding issueTokens_state
proof (rule token_inv_installed)
  show "token_inv (insert rid (insert tid U)) (filed rid tid now1 req s)"
    using assms by (rule token_inv_filed)
  show "rid \<noteq> []" "fmlookup (tokens (filed rid tid now1 req s)) rid = None"
    using token_inv_fresh [OF inv fresh(2)] fresh(3) by simp_all
  show "k = tid" if "fmlookup (tokens (filed rid tid now1 req s)) k = Some t'" "tk_refreshID t' = rid"
    for k t'
    using filed_uniq [OF inv fresh(2) that] .
  show "fmlookup (refreshers (filed rid tid now1 req s)) k \<noteq> Some (rtNext s)" for k
    using token_inv_refresh(6) [OF inv, of k "rtNext s"] by auto
  show "fmlookup (tokens (filed rid tid now1 req s)) tid = Some (issuedToken rid tid now1 req s)"
    "tk_refreshID (issuedToken rid tid now1 req s) = rid" by simp_all
qed simp_all

lemma token_inv_rotateTokens:
  assumes inv: "token_inv U s" and fresh: "tid \<notin> U" "rid \<notin> U" "rid \<noteq> tid"
  shows "token_inv (insert rid (insert tid U)) (snd (rotateTokens rid tid now1 now2 now3 req cur s))"
proof -
  let ?U = "insert rid (insert tid U)"
  have f: "token_inv ?U (filed rid tid now1 req s)"
    using assms by (rule token_inv_filed)
  show ?thesis
  proof (cases "fmlookup (refreshers s) cur")
    case None
    with f show ?thesis by (simp add: rotateTokens_eq)
  next
    case (Some p)
    let ?s = "retired cur p (filed rid tid now1 req s)"
    note ref = token_inv_refresh [OF inv Some]
    have "token_inv ?U (installed rid p (rotatedRefresh rid tid now3 (deref s p)) (rtNext s) ?s)"
    proof (rule token_inv_installed)
      show "token_inv ?U ?s" using f by (rule token_inv_retired)
      show "rid \<noteq> []" "fmlookup (tokens ?s) rid = None"
        using token_inv_fresh [OF inv fresh(2)] fresh(3) by simp_all
      have "rt_accessTokenID (deref s p) \<noteq> tid" using ref(5) fresh(1) by blast
      then show "fmlookup (tokens ?s) tid = Some (issuedToken rid tid now1 req s)" by simp
      show "tk_refreshID (issuedToken rid tid now1 req s) = rid" by simp
      show "k = tid" if "fmlookup (tokens ?s) k = Some t'" "tk_refreshID t' = rid" for k t'
        using that filed_uniq [OF inv fresh(2), of tid now1 req k t'] by (simp split: if_splits)
      show "p = rtNext ?s \<and> rtNext s = p + 1 \<or> p < rtNext ?s \<and> rtNext s = rtNext ?s"
        using ref(6) by simp
      show "fmlookup (refreshers ?s) k \<noteq> Some p" for k
        using token_inv_inj [OF inv Some, of k] by auto
    qed simp_all
    moreover have "token_inv ?U ?s" using f by (rule token_inv_retired)
    ultimately show ?thesis using Some by (simp add: rotateTokens_eq)
  qed
qed

lemma token_inv_CreateAccessAndRefreshTokens:
  assumes "token_inv U s" "tid \<notin> U" "rid \<notin> U" "rid \<noteq> tid"
  shows "token_inv (insert rid (insert tid U))
    (snd (CreateAccessAndRefreshTokens rid tid now1 now2 now3 req cur s))"
  using token_inv_issueTokens [OF assms] token_inv_rotateTokens [OF assms]
  by (simp add: CreateAccessAndRefreshTokens_def split_beta)

lemma CreateAccessAndRefreshTokens_issue:
  "cur = [] \<Longrightarrow> CreateAccessAndRefreshTokens rid tid now1 now2 now3 req cur s =
     (Inr (tid, rid, now1 + 15 * Minute), snd (issueTokens rid tid now1 now2 req s))"
  by (simp add: CreateAccessAndRefreshTokens_def issueTokens_eq)

lemma CreateAccessAndRefreshTokens_rotate:
  "cur \<noteq> [] \<Longrightarrow> CreateAccessAndRefreshTokens rid tid now1 now2 now3 req cur s =
     rotateTokens rid tid now1 now2 now3 req cur s"
  by (simp add: CreateAccessAndRefreshTokens_def)

end
