(* ===== verification/Device.thy ===== *)
theory Device
  imports AuthFlow
begin

text \<open>
  The device authorization grant (\<open>internal/idp/storage.go\<close>, RFC 8628): storing a flow, polling it
  by device code, and approving or denying it by user code. A user code that is not stored indexes
  the device map with the empty string, Go's zero value for a missing key.
\<close>

definition StoreDeviceAuthorization ::
    "string \<Rightarrow> string \<Rightarrow> string \<Rightarrow> time \<Rightarrow> string list \<Rightarrow> storage \<Rightarrow> error option \<times> storage" where
  "StoreDeviceAuthorization clientID deviceCode userCode expires scopes s =
     (if fmlookup (clients s) clientID = None then (Some DeviceClientNotFound, s)
      else if fmlookup (userCodes s) userCode \<noteq> None then (Some DuplicateUserCode, s)
      else (None, s\<lparr>deviceCodes := fmupd deviceCode
               \<lparr>de_deviceCode = deviceCode, de_userCode = userCode,
                de_state = \<lparr>ds_ClientID = clientID, ds_Scopes = scopes, ds_Expires = expires,
                            ds_Subject = [], ds_AuthTime = zero_time, ds_AMR = [],
                            ds_Done = False, ds_Denied = False\<rparr>\<rparr> (deviceCodes s),
             userCodes := fmupd userCode deviceCode (userCodes s)\<rparr>))"

text \<open>\<open>ctxErr\<close> is what \<open>ctx.Err()\<close> returned.\<close>

definition GetDeviceAuthorizatonState ::
    "error option \<Rightarrow> string \<Rightarrow> string \<Rightarrow> storage \<Rightarrow> DeviceAuthorizationState result" where
  "GetDeviceAuthorizatonState ctxErr clientID deviceCode s =
     (case ctxErr of
        Some err \<Rightarrow> Inl err
      | None \<Rightarrow>
          (case fmlookup (deviceCodes s) deviceCode of
             None \<Rightarrow> Inl DeviceCodeNotFound
           | Some e \<Rightarrow> if ds_ClientID (de_state e) \<noteq> clientID then Inl DeviceCodeNotFound
                       else Inr (de_state e)))"

definition userCodeIndex :: "string \<Rightarrow> storage \<Rightarrow> string" where
  "userCodeIndex userCode s = (case fmlookup (userCodes s) userCode of None \<Rightarrow> [] | Some dc \<Rightarrow> dc)"

definition GetDeviceAuthorizationByUserCode ::
    "string \<Rightarrow> storage \<Rightarrow> DeviceAuthorizationState result" where
  "GetDeviceAuthorizationByUserCode userCode s =
     (case fmlookup (deviceCodes s) (userCodeIndex userCode s) of
        None \<Rightarrow> Inl UserCodeNotFound
      | Some e \<Rightarrow> Inr (de_state e))"

definition CompleteDeviceAuthorization ::
    "time \<Rightarrow> string \<Rightarrow> string \<Rightarrow> storage \<Rightarrow> error option \<times> storage" where
  "CompleteDeviceAuthorization now userCode subject s =
     (if identityBySubject subject = None then (Some (UnknownIdentity subject), s)
      else
        case fmlookup (deviceCodes s) (userCodeIndex userCode s) of
          None \<Rightarrow> (Some UserCodeNotFound, s)
        | Some e \<Rightarrow>
            (None, s\<lparr>deviceCodes := fmupd (userCodeIndex userCode s)
                      (e\<lparr>de_state := (de_state e)\<lparr>ds_Subject := subject, ds_AuthTime := now,
                                                  ds_AMR := [''none''], ds_Done := True\<rparr>\<rparr>)
                      (deviceCodes s)\<rparr>))"

definition DenyDeviceAuthorization :: "string \<Rightarrow> storage \<Rightarrow> error option \<times> storage" where
  "DenyDeviceAuthorization userCode s =
     (case fmlookup (deviceCodes s) (userCodeIndex userCode s) of
        None \<Rightarrow> (Some UserCodeNotFound, s)
      | Some e \<Rightarrow>
          (None, s\<lparr>deviceCodes := fmupd (userCodeIndex userCode s)
                    (e\<lparr>de_state := (de_state e)\<lparr>ds_Denied := True\<rparr>\<rparr>) (deviceCodes s)\<rparr>))"

subsection \<open>The two ways an operation can end\<close>

lemma StoreDeviceAuthorization_ok:
  "fst (StoreDeviceAuthorization cid dc uc ex sc s) = None \<longleftrightarrow>
     cid \<in> fmdom' (clients s) \<and> uc \<notin> fmdom' (userCodes s)"
  by (auto simp: StoreDeviceAuthorization_def fmlookup_dom'_iff)

lemma StoreDeviceAuthorization_cases:
  obtains (rejected) "snd (StoreDeviceAuthorization cid dc uc ex sc s) = s"
    "fst (StoreDeviceAuthorization cid dc uc ex sc s) \<noteq> None"
  | (stored) e where "fst (StoreDeviceAuthorization cid dc uc ex sc s) = None"
      "fmlookup (userCodes s) uc = None" "cid \<in> fmdom' (clients s)"
      "snd (StoreDeviceAuthorization cid dc uc ex sc s) =
         s\<lparr>deviceCodes := fmupd dc e (deviceCodes s), userCodes := fmupd uc dc (userCodes s)\<rparr>"
      "de_deviceCode e = dc" "de_userCode e = uc" "ds_ClientID (de_state e) = cid"
      "ds_Scopes (de_state e) = sc" "ds_Expires (de_state e) = ex" "ds_Subject (de_state e) = []"
      "ds_AMR (de_state e) = []"
      "\<not> ds_Done (de_state e)" "\<not> ds_Denied (de_state e)"
proof (cases "fst (StoreDeviceAuthorization cid dc uc ex sc s) = None")
  case True
  then have "cid \<in> fmdom' (clients s)" "uc \<notin> fmdom' (userCodes s)"
    by (simp_all add: StoreDeviceAuthorization_ok)
  with True show ?thesis
    by (intro stored) (auto simp: StoreDeviceAuthorization_def fmlookup_dom'_iff)
next
  case False
  then show ?thesis by (intro rejected) (auto simp: StoreDeviceAuthorization_def)
qed

lemma CompleteDeviceAuthorization_ok:
  "fst (CompleteDeviceAuthorization now uc subject s) = None \<longleftrightarrow>
     known subject \<and> userCodeIndex uc s \<in> fmdom' (deviceCodes s)"
  by (auto simp: CompleteDeviceAuthorization_def fmlookup_dom'_iff split: option.splits)

lemma CompleteDeviceAuthorization_fails:
  "fst (CompleteDeviceAuthorization now uc subject s) \<noteq> None \<Longrightarrow>
     snd (CompleteDeviceAuthorization now uc subject s) = s"
  by (auto simp: CompleteDeviceAuthorization_def split: option.splits if_splits)

text \<open>The state an approval leaves.\<close>

definition approve :: "time \<Rightarrow> string \<Rightarrow> deviceEntry \<Rightarrow> deviceEntry" where
  "approve now subject e =
     e\<lparr>de_state := (de_state e)\<lparr>ds_Subject := subject, ds_AuthTime := now, ds_AMR := [''none''],
                                ds_Done := True\<rparr>\<rparr>"

lemma CompleteDeviceAuthorization_cases:
  obtains (unchanged) "snd (CompleteDeviceAuthorization now uc subject s) = s"
  | (completed) e where "known subject" "fmlookup (deviceCodes s) (userCodeIndex uc s) = Some e"
      "snd (CompleteDeviceAuthorization now uc subject s) =
         s\<lparr>deviceCodes := fmupd (userCodeIndex uc s) (approve now subject e) (deviceCodes s)\<rparr>"
proof (cases "fst (CompleteDeviceAuthorization now uc subject s) = None")
  case True
  then obtain e where "known subject" "fmlookup (deviceCodes s) (userCodeIndex uc s) = Some e"
    by (auto simp: CompleteDeviceAuthorization_ok fmlookup_dom'_iff)
  then show ?thesis by (intro completed) (auto simp: CompleteDeviceAuthorization_def approve_def)
next
  case False
  then show ?thesis by (intro unchanged CompleteDeviceAuthorization_fails)
qed

lemma lookup_CompleteDeviceAuthorization [lookup_simps]:
  "fmlookup (deviceCodes (snd (CompleteDeviceAuthorization now uc subject s))) dc =
     (if dc = userCodeIndex uc s \<and> known subject
      then map_option (approve now subject) (fmlookup (deviceCodes s) dc)
      else fmlookup (deviceCodes s) dc)"
  by (auto simp: CompleteDeviceAuthorization_def approve_def split: option.splits)

lemma CompleteDeviceAuthorization_frame [simp]:
  "userCodes (snd (CompleteDeviceAuthorization now uc subject s)) = userCodes s"
  "clients (snd (CompleteDeviceAuthorization now uc subject s)) = clients s"
  by (auto simp: CompleteDeviceAuthorization_def split: option.splits)

lemma DenyDeviceAuthorization_cases:
  obtains (unchanged) "snd (DenyDeviceAuthorization uc s) = s"
  | (denied) e where "fmlookup (deviceCodes s) (userCodeIndex uc s) = Some e"
      "snd (DenyDeviceAuthorization uc s) =
         s\<lparr>deviceCodes := fmupd (userCodeIndex uc s)
             (e\<lparr>de_state := (de_state e)\<lparr>ds_Denied := True\<rparr>\<rparr>) (deviceCodes s)\<rparr>"
  by (cases "fmlookup (deviceCodes s) (userCodeIndex uc s)")
    (auto simp: DenyDeviceAuthorization_def)

lemma userCodeIndex_unknown: "uc \<notin> fmdom' (userCodes s) \<Longrightarrow> userCodeIndex uc s = []"
  by (auto simp: userCodeIndex_def dest: fmdom'_notD)

text \<open>The identity an approved flow is bound to, and when.\<close>

definition flowBound :: "string \<Rightarrow> storage \<Rightarrow> (string \<times> time) option" where
  "flowBound uc s =
     (case GetDeviceAuthorizationByUserCode uc s of
        Inl err \<Rightarrow> None
      | Inr st \<Rightarrow> if ds_Done st then Some (ds_Subject st, ds_AuthTime st) else None)"

definition flowPending :: "string \<Rightarrow> storage \<Rightarrow> bool" where
  "flowPending uc s \<longleftrightarrow> fmlookup (deviceCodes s) (userCodeIndex uc s) \<noteq> None"

lemma CompleteDeviceAuthorization_done:
  "CompleteDeviceAuthorization now uc subject s = (None, s') \<Longrightarrow>
     s' = s\<lparr>deviceCodes := fmupd (userCodeIndex uc s)
            (approve now subject (the (fmlookup (deviceCodes s) (userCodeIndex uc s)))) (deviceCodes s)\<rparr>"
  by (auto simp: CompleteDeviceAuthorization_def approve_def split: option.splits if_splits)

interpretation dflow: approval CompleteDeviceAuthorization flowPending flowBound
proof unfold_locales
  fix now uc uc' subject s
  have idx: "userCodeIndex u (snd (CompleteDeviceAuthorization now uc subject s)) = userCodeIndex u s" for u
    by (simp add: userCodeIndex_def)
  show ok: "fst (CompleteDeviceAuthorization now uc subject s) = None \<longleftrightarrow>
      known subject \<and> flowPending uc s"
    by (simp add: CompleteDeviceAuthorization_ok flowPending_def fmlookup_dom'_iff)
  show "fst (CompleteDeviceAuthorization now uc subject s) \<noteq> None \<Longrightarrow>
      snd (CompleteDeviceAuthorization now uc subject s) = s"
    by (rule CompleteDeviceAuthorization_fails)
  show "flowBound uc (snd (CompleteDeviceAuthorization now uc subject s)) = Some (subject, now)"
    if "fst (CompleteDeviceAuthorization now uc subject s) = None"
    using that unfolding ok
    by (auto simp: flowBound_def flowPending_def GetDeviceAuthorizationByUserCode_def idx
        lookup_CompleteDeviceAuthorization approve_def)
  show "flowPending uc' (snd (CompleteDeviceAuthorization now uc subject s)) \<longleftrightarrow> flowPending uc' s"
    by (auto simp: flowPending_def idx lookup_CompleteDeviceAuthorization)
qed

subsection \<open>Properties\<close>

definition example_flow :: storage where
  "example_flow = snd (StoreDeviceAuthorization exampleClientID ''dc'' ''BCDF-GHJK'' 300
     [''openid''] boot_storage)"

lemma example_flow_stored:
  "fst (StoreDeviceAuthorization exampleClientID ''dc'' ''BCDF-GHJK'' 300 [''openid''] boot_storage) = None"
  using seed_lookup(1) by (auto simp: StoreDeviceAuthorization_ok fmlookup_dom'_iff)

text \<open>
  C17. The device grant end to end: a stored flow is pending for its client; approving its user code
  as a built-in identity makes the next poll by that client return a done state with that subject, the
  approval time and the passwordless AMR; denying it instead makes the poll return a denied one, still
  not done. Every other client that polls the device code, before the decision or after either one,
  is told that there is no such code.
\<close>

theorem device_grant_roundtrip:
  assumes stored: "fst (StoreDeviceAuthorization cid dc uc expires scopes s) = None"
    and s1: "s1 = snd (StoreDeviceAuthorization cid dc uc expires scopes s)"
    and subject: "known subject"
  shows "\<exists>st. GetDeviceAuthorizatonState None cid dc s1 = Inr st \<and> \<not> ds_Done st \<and> \<not> ds_Denied st
      \<and> ds_Scopes st = scopes \<and> ds_Expires st = expires
      \<and> fst (CompleteDeviceAuthorization now uc subject s1) = None
      \<and> GetDeviceAuthorizatonState None cid dc (snd (CompleteDeviceAuthorization now uc subject s1)) =
          Inr (st\<lparr>ds_Subject := subject, ds_AuthTime := now, ds_AMR := [''none''], ds_Done := True\<rparr>)
      \<and> GetDeviceAuthorizatonState None cid dc (snd (DenyDeviceAuthorization uc s1)) =
          Inr (st\<lparr>ds_Denied := True\<rparr>)
      \<and> GetDeviceAuthorizatonState None other dc s1 =
          (if other = cid then Inr st else Inl DeviceCodeNotFound)
      \<and> (if other = cid then True
         else GetDeviceAuthorizatonState None other dc (snd (CompleteDeviceAuthorization now uc subject s1)) =
                Inl DeviceCodeNotFound
            \<and> GetDeviceAuthorizatonState None other dc (snd (DenyDeviceAuthorization uc s1)) =
                Inl DeviceCodeNotFound)"
proof (cases rule: StoreDeviceAuthorization_cases [of cid dc uc expires scopes s])
  case rejected
  with stored show ?thesis by simp
next
  case (stored e)
  have dcs: "fmlookup (deviceCodes s1) dc = Some e" and idx: "userCodeIndex uc s1 = dc"
    by (simp_all add: s1 stored userCodeIndex_def)
  have "fst (CompleteDeviceAuthorization now uc subject s1) = None"
    using dcs idx subject by (auto simp: CompleteDeviceAuthorization_ok fmlookup_dom'_iff)
  moreover have "fmlookup (deviceCodes (snd (CompleteDeviceAuthorization now uc subject s1))) dc =
      Some (approve now subject e)"
    using dcs idx subject by (simp add: lookup_CompleteDeviceAuthorization)
  moreover have "fmlookup (deviceCodes (snd (DenyDeviceAuthorization uc s1))) dc =
      Some (e\<lparr>de_state := (de_state e)\<lparr>ds_Denied := True\<rparr>\<rparr>)"
    using dcs idx by (simp add: DenyDeviceAuthorization_def)
  ultimately show ?thesis
    using stored dcs
    by (intro exI [of _ "de_state e"]) (simp add: GetDeviceAuthorizatonState_def approve_def)
qed

theorem device_grant_roundtrip_witness:
  "\<exists>st. GetDeviceAuthorizatonState None exampleClientID ''dc''
      (snd (CompleteDeviceAuthorization 60 ''BCDF-GHJK'' ''alice'' example_flow)) = Inr st
    \<and> ds_Done st \<and> ds_Subject st = ''alice''"
proof -
  have "known ''alice''" by (subst known_iff) simp
  from device_grant_roundtrip [OF example_flow_stored example_flow_def this, of 60 "[]"]
  obtain st where "GetDeviceAuthorizatonState None exampleClientID ''dc''
      (snd (CompleteDeviceAuthorization 60 ''BCDF-GHJK'' ''alice'' example_flow)) =
    Inr (st\<lparr>ds_Subject := ''alice'', ds_AuthTime := 60, ds_AMR := [''none''], ds_Done := True\<rparr>)"
    by blast
  then show ?thesis by simp
qed

text \<open>
  A user code is used once: storing a second flow under a user code that is taken is refused
  with the duplicate error, whatever its device code, and leaves every flow as it was.
\<close>

theorem duplicate_user_code_refused:
  assumes "fst (StoreDeviceAuthorization cid dc uc expires scopes s) = None"
    and "cid' \<in> fmdom' (clients s)"
  shows "StoreDeviceAuthorization cid' dc' uc expires' scopes'
      (snd (StoreDeviceAuthorization cid dc uc expires scopes s)) =
    (Some DuplicateUserCode, snd (StoreDeviceAuthorization cid dc uc expires scopes s))"
proof -
  obtain c where "fmlookup (clients s) cid' = Some c" using assms(2) by (auto simp: fmlookup_dom'_iff)
  with assms(1) show ?thesis by (auto simp: StoreDeviceAuthorization_def split: if_splits)
qed

theorem duplicate_user_code_refused_witness:
  "fst (StoreDeviceAuthorization exampleClientID ''dc2'' ''BCDF-GHJK'' 600 [] example_flow) =
     Some DuplicateUserCode"
  using duplicate_user_code_refused [OF example_flow_stored, of exampleClientID "''dc2''" 600 "[]"]
  by (simp add: example_flow_def)

end
