(* ===== verification/ClientsFile.thy ===== *)
theory ClientsFile
  imports Registry
begin

text \<open>
  The hot-reloadable clients file (\<open>internal/idp/clientsfile.go\<close>): the on-disk entry, its
  validation, the loader and the watcher.

  The YAML library is a parameter: \<open>unmarshal\<close> maps the bytes of the file to the entries or to the
  text of a parse error. The file system is a value of type \<open>fs\<close>, one per system call, so that the
  file may change between two calls.
\<close>

record fileClient =
  f_ClientID :: string
  f_ClientSecret :: string
  f_TokenEndpointAuthMethod :: string
  f_RedirectURIs :: "string list"
  f_Tile :: Tile

definition authMethodFromFile :: "fileClient \<Rightarrow> AuthMethod result" where
  "authMethodFromFile fc =
     (if f_TokenEndpointAuthMethod fc = [] \<or> f_TokenEndpointAuthMethod fc = AuthMethodBasic then
        (if f_ClientSecret fc = [] then Inl EmptyConfidentialSecret else Inr AuthMethodBasic)
      else if f_TokenEndpointAuthMethod fc = AuthMethodNone then
        (if f_ClientSecret fc \<noteq> [] then Inl PublicWithSecret else Inr AuthMethodNone)
      else Inl (UnsupportedAuthMethod (f_TokenEndpointAuthMethod fc)))"

text \<open>A file as the system calls see it: its bytes and its modification time.\<close>

record diskFile =
  content :: string
  modTime :: time

type_synonym fs = "string \<Rightarrow> diskFile option"
type_synonym unmarshal = "string \<Rightarrow> string + fileClient list"

definition fileClientToClient :: "fileClient \<Rightarrow> AuthMethod \<Rightarrow> Client" where
  "fileClientToClient fc authMethod =
     \<lparr>c_id = f_ClientID fc, c_secret = f_ClientSecret fc, c_redirectURIs = f_RedirectURIs fc,
      c_grantTypes = [GrantTypeCode, GrantTypeRefreshToken, GrantTypeDeviceCode],
      c_authMethod = authMethod, c_tile = f_Tile fc\<rparr>"

text \<open>The loop over the entries: \<open>i\<close> is the index, \<open>clients\<close> the slice built so far.\<close>

fun loadEntries ::
    "string \<Rightarrow> nat \<Rightarrow> fileClient list \<Rightarrow> Client list \<Rightarrow> Client list result" where
  "loadEntries path i [] cs = Inr cs"
| "loadEntries path i (fc # fcs) cs =
     (if f_ClientID fc = [] then Inl (EmptyClientID path i)
      else case authMethodFromFile fc of
             Inl err \<Rightarrow> Inl (BadEntry path i (f_ClientID fc) err)
           | Inr authMethod \<Rightarrow>
               loadEntries path (i + 1) fcs (cs @ [fileClientToClient fc authMethod]))"

definition LoadClientsFile :: "unmarshal \<Rightarrow> string \<Rightarrow> fs \<Rightarrow> Client list result" where
  "LoadClientsFile unmarshal path fs =
     (case fs path of
        None \<Rightarrow> Inl (ReadClientsFile path)
      | Some f \<Rightarrow>
          (case unmarshal (content f) of
             Inl err \<Rightarrow> Inl (ParseClientsFile path err)
           | Inr fcs \<Rightarrow> loadEntries path 0 fcs []))"

definition clientsModTime :: "string \<Rightarrow> fs \<Rightarrow> time" where
  "clientsModTime path fs =
     (case fs path of None \<Rightarrow> zero_time | Some f \<Rightarrow> modTime f)"

subsection \<open>The watcher\<close>

text \<open>
  The state of the polling goroutine: the storage it shares, the modification time it saw last, the
  errors passed to \<open>onErr\<close>, whether it still runs, and whether the context it was given is cancelled,
  which happens elsewhere. \<open>onErr\<close> may be nil.
\<close>

record watcher =
  w_storage :: storage
  w_last :: time
  w_errors :: "error list"
  w_running :: bool
  w_cancelled :: bool

definition watchInterval :: "duration \<Rightarrow> duration" where
  "watchInterval interval = (if interval \<le> 0 then Second else interval)"

text \<open>
  The synchronous part: load from the file system \<open>fs1\<close>, register, then read the modification time
  from \<open>fs2\<close>. An error is returned before anything is registered.
\<close>

definition WatchClientsFile ::
    "unmarshal \<Rightarrow> string \<Rightarrow> fs \<Rightarrow> fs \<Rightarrow> storage \<Rightarrow> watcher result" where
  "WatchClientsFile unmarshal path fs1 fs2 s =
     (case LoadClientsFile unmarshal path fs1 of
        Inl err \<Rightarrow> Inl err
      | Inr cs \<Rightarrow> Inr \<lparr>w_storage = ReplaceFileClients cs s, w_last = clientsModTime path fs2,
                        w_errors = [], w_running = True, w_cancelled = False\<rparr>)"

text \<open>
  One tick of the loop: the modification time is read from \<open>fs1\<close>, the file, if it changed, from
  \<open>fs2\<close>. \<open>hasOnErr\<close> says whether the caller passed an error handler.
\<close>

definition watch_tick :: "unmarshal \<Rightarrow> string \<Rightarrow> bool \<Rightarrow> fs \<Rightarrow> fs \<Rightarrow> watcher \<Rightarrow> watcher" where
  "watch_tick unmarshal path hasOnErr fs1 fs2 w =
     (let mt = clientsModTime path fs1
      in if mt = w_last w then w
         else let w1 = w\<lparr>w_last := mt\<rparr>
              in case LoadClientsFile unmarshal path fs2 of
                   Inl lerr \<Rightarrow> if hasOnErr then w1\<lparr>w_errors := w_errors w1 @ [lerr]\<rparr> else w1
                 | Inr cs \<Rightarrow> w1\<lparr>w_storage := ReplaceFileClients cs (w_storage w1)\<rparr>)"

text \<open>
  The goroutine's steps, the two cases of its \<open>select\<close>: a tick, in whatever file systems the two
  system calls of the tick meet, or the context is done and the goroutine returns. Where both are
  ready Go takes either.
\<close>

inductive watch_step :: "unmarshal \<Rightarrow> string \<Rightarrow> bool \<Rightarrow> watcher \<Rightarrow> watcher \<Rightarrow> bool"
  for unmarshal path hasOnErr where
  tick: "w_running w \<Longrightarrow>
     watch_step unmarshal path hasOnErr w (watch_tick unmarshal path hasOnErr fs1 fs2 w)"
| stop: "w_running w \<Longrightarrow> w_cancelled w \<Longrightarrow> watch_step unmarshal path hasOnErr w (w\<lparr>w_running := False\<rparr>)"

inductive_cases watch_stepE: "watch_step unmarshal path hasOnErr w w'"
inductive_simps watch_step_simps: "watch_step unmarshal path hasOnErr w w'"

subsection \<open>Validation\<close>

lemma authMethodFromFile_Inr:
  "authMethodFromFile fc = Inr m \<longleftrightarrow>
     m = AuthMethodBasic \<and> f_TokenEndpointAuthMethod fc \<in> {[], AuthMethodBasic} \<and> f_ClientSecret fc \<noteq> []
     \<or> m = AuthMethodNone \<and> f_TokenEndpointAuthMethod fc = AuthMethodNone \<and> f_ClientSecret fc = []"
  by (auto simp: authMethodFromFile_def)

text \<open>What a valid entry is, without the loader's control flow.\<close>

definition entry_ok :: "fileClient \<Rightarrow> bool" where
  "entry_ok fc \<longleftrightarrow> f_ClientID fc \<noteq> []
     \<and> (f_ClientSecret fc \<noteq> [] \<and> f_TokenEndpointAuthMethod fc \<in> {[], AuthMethodBasic}
        \<or> f_ClientSecret fc = [] \<and> f_TokenEndpointAuthMethod fc = AuthMethodNone)"

definition entry_client :: "fileClient \<Rightarrow> Client" where
  "entry_client fc =
     fileClientToClient fc (if f_ClientSecret fc = [] then AuthMethodNone else AuthMethodBasic)"

definition entry_error :: "string \<Rightarrow> nat \<Rightarrow> fileClient \<Rightarrow> error" where
  "entry_error path i fc =
     (if f_ClientID fc = [] then EmptyClientID path i
      else BadEntry path i (f_ClientID fc)
             (if f_TokenEndpointAuthMethod fc \<in> {[], AuthMethodBasic} then EmptyConfidentialSecret
              else if f_TokenEndpointAuthMethod fc = AuthMethodNone then PublicWithSecret
              else UnsupportedAuthMethod (f_TokenEndpointAuthMethod fc)))"

lemma loadEntries_Cons_ok:
  "entry_ok fc \<Longrightarrow>
     loadEntries path i (fc # fcs) cs = loadEntries path (i + 1) fcs (cs @ [entry_client fc])"
  by (auto simp: entry_ok_def entry_client_def authMethodFromFile_def)

lemma loadEntries_Cons_bad:
  "\<not> entry_ok fc \<Longrightarrow> loadEntries path i (fc # fcs) cs = Inl (entry_error path i fc)"
  by (auto simp: entry_ok_def entry_error_def authMethodFromFile_def)

text \<open>The loader stops at the first bad entry, and otherwise maps every entry in order.\<close>

lemma loadEntries_ok:
  "list_all entry_ok fcs \<Longrightarrow> loadEntries path i fcs cs = Inr (cs @ map entry_client fcs)"
proof (induction fcs arbitrary: i cs)
  case Nil
  show ?case by simp
next
  case (Cons fc fcs)
  then have "entry_ok fc" and "list_all entry_ok fcs" by simp_all
  with Cons.IH show ?case by (simp only: loadEntries_Cons_ok append_assoc append_Cons append_Nil list.map)
qed

lemma loadEntries_bad:
  "list_all entry_ok good \<Longrightarrow> \<not> entry_ok fc \<Longrightarrow>
     loadEntries path i (good @ fc # rest) cs = Inl (entry_error path (i + length good) fc)"
proof (induction good arbitrary: i cs)
  case Nil
  then show ?case using loadEntries_Cons_bad by (simp del: loadEntries.simps)
next
  case (Cons g good)
  then have "entry_ok g" and "list_all entry_ok good" by simp_all
  with Cons.IH Cons.prems(2) show ?case
    by (simp add: loadEntries_Cons_ok del: loadEntries.simps)
qed

declare loadEntries.simps [simp del]

lemma loadEntries_Inr_iff:
  "loadEntries path i fcs cs = Inr out \<longleftrightarrow>
     list_all entry_ok fcs \<and> out = cs @ map entry_client fcs"
proof (cases "list_all entry_ok fcs")
  case True
  then show ?thesis by (auto simp: loadEntries_ok)
next
  case False
  then have "\<exists>fc \<in> set fcs. \<not> entry_ok fc" by (simp add: list_all_iff)
  from split_list_first_prop [OF this] obtain good fc rest
    where "fcs = good @ fc # rest" "\<not> entry_ok fc" "\<forall>g \<in> set good. \<not> \<not> entry_ok g" by blast
  with False show ?thesis by (simp add: loadEntries_bad list_all_iff)
qed

lemma wf_entry_client: "entry_ok fc \<Longrightarrow> wf_client (entry_client fc)"
  by (auto simp: entry_ok_def entry_client_def fileClientToClient_def wf_client_def IsPublic_def)

lemma LoadClientsFile_Inr:
  "LoadClientsFile unmarshal path fs = Inr cs \<longleftrightarrow>
     (\<exists>f fcs. fs path = Some f \<and> unmarshal (content f) = Inr fcs \<and> list_all entry_ok fcs
        \<and> cs = map entry_client fcs)"
  by (auto simp: LoadClientsFile_def loadEntries_Inr_iff split: option.splits sum.splits)

lemma ReplaceFileClients_idem:
  "ReplaceFileClients cs (ReplaceFileClients cs s) = ReplaceFileClients cs s"
proof (rule storage.equality)
  show "clients (ReplaceFileClients cs (ReplaceFileClients cs s)) = clients (ReplaceFileClients cs s)"
    by (rule fmap_ext) (simp add: lookup_ReplaceFileClients split: option.splits)
qed (simp_all add: ReplaceFileClients_def ReplaceFileClients_range_def)

lemma watch_tick_unchanged:
  "clientsModTime path fs1 = w_last w \<Longrightarrow> watch_tick unmarshal path h fs1 fs2 w = w"
  by (simp add: watch_tick_def)

lemma watch_tick_reload:
  "clientsModTime path fs1 \<noteq> w_last w \<Longrightarrow> LoadClientsFile unmarshal path fs2 = Inr cs \<Longrightarrow>
     watch_tick unmarshal path h fs1 fs2 w =
       w\<lparr>w_last := clientsModTime path fs1, w_storage := ReplaceFileClients cs (w_storage w)\<rparr>"
  by (simp add: watch_tick_def Let_def)

subsection \<open>Example files\<close>

definition orders_entry :: fileClient where
  "orders_entry = \<lparr>f_ClientID = ''orders'', f_ClientSecret = ''s'', f_TokenEndpointAuthMethod = [],
     f_RedirectURIs = [], f_Tile = no_tile\<rparr>"

definition cli_entry :: fileClient where
  "cli_entry = \<lparr>f_ClientID = ''cli'', f_ClientSecret = [], f_TokenEndpointAuthMethod = ''none'',
     f_RedirectURIs = [], f_Tile = no_tile\<rparr>"

definition secretless_entry :: fileClient where
  "secretless_entry = orders_entry\<lparr>f_ClientSecret := []\<rparr>"

text \<open>A parser of three files: one entry, two entries, two entries of which the second is bad.\<close>

definition toy_yaml :: unmarshal where
  "toy_yaml b =
     (if b = ''one'' then Inr [orders_entry]
      else if b = ''two'' then Inr [orders_entry, cli_entry]
      else if b = ''bad'' then Inr [cli_entry, secretless_entry]
      else Inl ''parse error'')"

definition disk :: "string \<Rightarrow> time \<Rightarrow> fs" where
  "disk b t = (\<lambda>path. if path = ''f'' then Some \<lparr>content = b, modTime = t\<rparr> else None)"

lemma example_entries [simp]:
  "entry_ok orders_entry" "entry_ok cli_entry" "\<not> entry_ok secretless_entry"
  by (simp_all add: entry_ok_def orders_entry_def cli_entry_def secretless_entry_def
      AuthMethodNone_def AuthMethodBasic_def)

lemma example_loads:
  "LoadClientsFile toy_yaml ''f'' (disk ''one'' t) = Inr [entry_client orders_entry]"
  "LoadClientsFile toy_yaml ''f'' (disk ''two'' t) =
     Inr [entry_client orders_entry, entry_client cli_entry]"
  by (simp_all add: LoadClientsFile_def disk_def toy_yaml_def loadEntries_ok)

lemma example_modTime [simp]: "clientsModTime ''f'' (disk b t) = t"
  by (simp add: clientsModTime_def disk_def)

subsection \<open>Properties\<close>

text \<open>
  C25. A clients file loads exactly when it can be read and parsed and every entry is valid; then
  the clients are its entries, in order, each well formed: a non-empty id, and a secret exactly
  when it is confidential.
\<close>

theorem LoadClientsFile_exact:
  "LoadClientsFile unmarshal path fs = Inr cs \<longleftrightarrow>
     (\<exists>f fcs. fs path = Some f \<and> unmarshal (content f) = Inr fcs \<and> list_all entry_ok fcs
        \<and> cs = map entry_client fcs \<and> list_all wf_client cs)"
  by (auto simp: LoadClientsFile_Inr list_all_iff wf_entry_client)

text \<open>
  A file with an invalid entry is rejected as a whole, with the error of the first invalid entry
  and its index, whatever comes after it: no half-configured client is ever registered.
\<close>

theorem LoadClientsFile_first_error:
  assumes "fs path = Some f" "unmarshal (content f) = Inr (good @ bad # rest)"
    and "list_all entry_ok good" "\<not> entry_ok bad"
  shows "LoadClientsFile unmarshal path fs = Inl (entry_error path (length good) bad)"
  using assms by (simp add: LoadClientsFile_def loadEntries_bad)

theorem LoadClientsFile_first_error_witness:
  "LoadClientsFile toy_yaml ''f'' (disk ''bad'' 7) =
     Inl (BadEntry ''f'' 1 ''orders'' EmptyConfidentialSecret)"
proof -
  have "LoadClientsFile toy_yaml ''f'' (disk ''bad'' 7) =
      Inl (entry_error ''f'' (length [cli_entry]) secretless_entry)"
    by (rule LoadClientsFile_first_error [where f = "\<lparr>content = ''bad'', modTime = 7\<rparr>"
          and rest = "[]"]) (simp_all add: disk_def toy_yaml_def)
  then show ?thesis
    by (simp add: entry_error_def secretless_entry_def orders_entry_def)
qed

text \<open>
  C26. A bad edit keeps the last good clients: when the file cannot be loaded, a tick changes nothing
  in the storage, remembers the file's time so that it is reported once, and passes the error to the
  handler, if there is one.
\<close>

theorem bad_edit_keeps_last_good:
  assumes "LoadClientsFile unmarshal path fs2 = Inl err" "clientsModTime path fs1 \<noteq> w_last w"
  shows "watch_tick unmarshal path hasOnErr fs1 fs2 w =
      w\<lparr>w_last := clientsModTime path fs1,
        w_errors := (if hasOnErr then w_errors w @ [err] else w_errors w)\<rparr>
    \<and> watch_tick unmarshal path hasOnErr fs1 fs2 (watch_tick unmarshal path hasOnErr fs1 fs2 w) =
        watch_tick unmarshal path hasOnErr fs1 fs2 w"
  using assms by (simp add: watch_tick_def Let_def)

definition example_watcher :: watcher where
  "example_watcher = \<lparr>w_storage = ReplaceFileClients [entry_client orders_entry] boot_storage,
     w_last = 1, w_errors = [], w_running = True, w_cancelled = False\<rparr>"

theorem bad_edit_keeps_last_good_witness:
  "w_storage (watch_tick toy_yaml ''f'' True (disk ''bad'' 7) (disk ''bad'' 7) example_watcher) =
     w_storage example_watcher
   \<and> length (w_errors (watch_tick toy_yaml ''f'' True (disk ''bad'' 7) (disk ''bad'' 7) example_watcher)) = 1"
proof -
  have "LoadClientsFile toy_yaml ''f'' (disk ''bad'' 7) =
      Inl (entry_error ''f'' (length [cli_entry]) secretless_entry)"
    using loadEntries_bad [of "[cli_entry]" secretless_entry "''f''" 0 "[]" "[]"]
    by (simp add: LoadClientsFile_def disk_def toy_yaml_def)
  from bad_edit_keeps_last_good [OF this, of "disk ''bad'' 7" example_watcher True]
  show ?thesis by (simp add: example_watcher_def)
qed

text \<open>
  C23. Hot reload converges: once the file is valid and its time differs from the last one seen, the
  first tick that finds it so installs its clients, and further ticks on the same file change
  nothing. No restart is needed.
\<close>

theorem reload_converges:
  assumes "clientsModTime path fs \<noteq> w_last w" "LoadClientsFile unmarshal path fs = Inr cs" "0 < n"
  shows "(watch_tick unmarshal path hasOnErr fs fs ^^ n) w =
    w\<lparr>w_last := clientsModTime path fs, w_storage := ReplaceFileClients cs (w_storage w)\<rparr>"
  using assms(3)
proof (induction n)
  case 0
  then show ?case by simp
next
  case (Suc n)
  show ?case
  proof (cases n)
    case 0
    then show ?thesis using watch_tick_reload [OF assms(1,2)] by simp
  next
    case (Suc m)
    with Suc.IH show ?thesis by (simp add: watch_tick_unchanged)
  qed
qed

theorem reload_converges_witness:
  "allClientIDs (w_storage ((watch_tick toy_yaml ''f'' True (disk ''two'' 7) (disk ''two'' 7) ^^ 3)
     example_watcher)) = [''cli'', ''devedge-idp-example'', ''orders'']"
proof -
  have w: "clientsModTime ''f'' (disk ''two'' 7) \<noteq> w_last example_watcher"
    by (simp add: example_watcher_def)
  let ?s = "ReplaceFileClients [entry_client orders_entry, entry_client cli_entry]
    (w_storage example_watcher)"
  have "set (allClientIDs ?s) = {''cli'', ''devedge-idp-example'', ''orders''}"
    using reg.set_ids_replace
    by (auto simp: example_watcher_def entry_client_def fileClientToClient_def orders_entry_def
        cli_entry_def exampleClientID_def allClientIDs_eq)
  then have "allClientIDs ?s = [''cli'', ''devedge-idp-example'', ''orders'']"
    by (intro sorted_distinct_eqI) (simp_all add: reg.ids_sorted reg.ids_distinct)
  with reload_converges [OF w example_loads(2), of 3 True] show ?thesis by simp
qed

text \<open>
  The polling loop loses no update: it reads the file's time before its contents, so when the
  file changes between the two calls of one tick, the next tick still brings the registry to the
  new contents.
\<close>

theorem poll_loses_no_update:
  assumes "clientsModTime path fs2 \<noteq> clientsModTime path fs1" "LoadClientsFile unmarshal path fs2 = Inr cs"
  shows "w_storage (watch_tick unmarshal path hasOnErr fs2 fs2
      (watch_tick unmarshal path hasOnErr fs1 fs2 w)) = ReplaceFileClients cs (w_storage w)"
proof (cases "clientsModTime path fs1 = w_last w")
  case True
  then show ?thesis
    using assms watch_tick_reload [of path fs2 w unmarshal fs2 cs hasOnErr]
    by (simp add: watch_tick_unchanged)
next
  case False
  then show ?thesis
    using assms by (simp add: watch_tick_reload ReplaceFileClients_idem)
qed

theorem poll_loses_no_update_witness:
  "w_storage (watch_tick toy_yaml ''f'' True (disk ''two'' 7) (disk ''two'' 7)
      (watch_tick toy_yaml ''f'' True (disk ''one'' 5) (disk ''two'' 7) example_watcher)) =
     ReplaceFileClients [entry_client orders_entry, entry_client cli_entry] (w_storage example_watcher)"
  by (rule poll_loses_no_update) (simp_all add: example_loads)

text \<open>
  C40. The start of the watcher can lose an update: it loads the file and only then reads its time.
  When the file changes in between, the watcher takes the new time for the one it loaded, and no
  number of ticks on the new file registers the new contents.
\<close>

theorem startup_loses_update:
  assumes "LoadClientsFile unmarshal path fs1 = Inr cs1"
    and "WatchClientsFile unmarshal path fs1 fs2 s = Inr w"
  shows "w_storage ((watch_tick unmarshal path hasOnErr fs2 fs2 ^^ n) w) = ReplaceFileClients cs1 s"
proof -
  have w: "w_last w = clientsModTime path fs2" "w_storage w = ReplaceFileClients cs1 s"
    using assms by (auto simp: WatchClientsFile_def)
  have "(watch_tick unmarshal path hasOnErr fs2 fs2 ^^ n) w = w"
    by (induction n) (simp_all add: w watch_tick_unchanged)
  with w show ?thesis by simp
qed

theorem startup_loses_update_witness:
  "\<exists>w. WatchClientsFile toy_yaml ''f'' (disk ''one'' 5) (disk ''two'' 7) boot_storage = Inr w
     \<and> LoadClientsFile toy_yaml ''f'' (disk ''two'' 7) =
         Inr [entry_client orders_entry, entry_client cli_entry]
     \<and> fmlookup (clients (w_storage
         ((watch_tick toy_yaml ''f'' True (disk ''two'' 7) (disk ''two'' 7) ^^ 1000) w))) ''cli'' = None"
proof -
  let ?w = "\<lparr>w_storage = ReplaceFileClients [entry_client orders_entry] boot_storage, w_last = 7,
    w_errors = [], w_running = True, w_cancelled = False\<rparr>"
  have w: "WatchClientsFile toy_yaml ''f'' (disk ''one'' 5) (disk ''two'' 7) boot_storage = Inr ?w"
    by (simp add: WatchClientsFile_def example_loads)
  have "fmlookup (clients (ReplaceFileClients [entry_client orders_entry] boot_storage)) ''cli'' = None"
    by (rule reg.get_replace_dropped)
      (simp_all add: entry_client_def fileClientToClient_def orders_entry_def exampleClientID_def)
  with startup_loses_update [OF example_loads(1) w, where hasOnErr = True and n = 1000] w example_loads(2)
  show ?thesis by auto
qed

end
