(* ===== verification/Machine.thy ===== *)
theory Machine
  imports Rotation Device ClientsFile
begin

text \<open>
  The storage as a state machine. An event is one call that changes the storage, with its arguments,
  the ids it draws from \<open>uuid.NewString\<close> and the clock readings it makes; every such method of
  \<open>*Storage\<close> is an event, and each takes the mutex once, so a run of the program is a sequence of
  events. The OP and the HTTP handlers are the environment that chooses them.

  A state of the machine pairs the storage with the set \<open>U\<close> of the ids drawn so far. A step draws
  ids that were not drawn before: this is the documented behaviour of \<open>uuid.NewString\<close>, and of the
  random device codes the OP generates. A \<open>refreshTokenRequest\<close> holds a pointer the storage handed
  out, so the address of a refresh-token event is allocated.
\<close>

datatype event =
    ERegisterClient Client
  | EReplaceFileClients "Client list"
  | ECreateAuthRequest string oidcAuthRequest string
  | ECompleteAuthRequest time string string
  | ESaveAuthCode string string
  | EDeleteAuthRequest string
  | ECreateAccessToken string time tokenRequest
  | ECreateAccessAndRefreshTokens string string time time time tokenRequest string
  | ESetCurrentScopes addr "string list"
  | ETerminateSession string string
  | ERevokeToken string string
  | EStoreDeviceAuthorization string string string time "string list"
  | ECompleteDeviceAuthorization time string string
  | EDenyDeviceAuthorization string

fun exec :: "event \<Rightarrow> storage \<Rightarrow> storage" where
  "exec (ERegisterClient c) s = RegisterClient c s"
| "exec (EReplaceFileClients cs) s = ReplaceFileClients cs s"
| "exec (ECreateAuthRequest uid ar userID) s = snd (CreateAuthRequest uid ar userID s)"
| "exec (ECompleteAuthRequest now rid subject) s = snd (CompleteAuthRequest now rid subject s)"
| "exec (ESaveAuthCode rid code) s = SaveAuthCode rid code s"
| "exec (EDeleteAuthRequest rid) s = DeleteAuthRequest rid s"
| "exec (ECreateAccessToken uid now req) s = snd (CreateAccessToken uid now req s)"
| "exec (ECreateAccessAndRefreshTokens rid tid now1 now2 now3 req cur) s =
     snd (CreateAccessAndRefreshTokens rid tid now1 now2 now3 req cur s)"
| "exec (ESetCurrentScopes p scopes) s = SetCurrentScopes p scopes s"
| "exec (ETerminateSession u c) s = TerminateSession u c s"
| "exec (ERevokeToken tok c) s = snd (RevokeToken tok c s)"
| "exec (EStoreDeviceAuthorization cid dc uc expires scopes) s =
     snd (StoreDeviceAuthorization cid dc uc expires scopes s)"
| "exec (ECompleteDeviceAuthorization now uc subject) s =
     snd (CompleteDeviceAuthorization now uc subject s)"
| "exec (EDenyDeviceAuthorization uc) s = snd (DenyDeviceAuthorization uc s)"

text \<open>The ids an event draws.\<close>

fun drawn :: "event \<Rightarrow> string list" where
  "drawn (ECreateAuthRequest uid ar userID) = [uid]"
| "drawn (ECreateAccessToken uid now req) = [uid]"
| "drawn (ECreateAccessAndRefreshTokens rid tid now1 now2 now3 req cur) = [rid, tid]"
| "drawn (EStoreDeviceAuthorization cid dc uc expires scopes) = [dc]"
| "drawn e = []"

fun pointers_ok :: "event \<Rightarrow> storage \<Rightarrow> bool" where
  "pointers_ok (ESetCurrentScopes p scopes) s \<longleftrightarrow> p < rtNext s"
| "pointers_ok e s \<longleftrightarrow> True"

inductive sys_step :: "string set \<times> storage \<Rightarrow> string set \<times> storage \<Rightarrow> bool" where
  event: "distinct (drawn e) \<Longrightarrow> set (drawn e) \<inter> U = {} \<Longrightarrow> pointers_ok e s \<Longrightarrow>
     sys_step (U, s) (U \<union> set (drawn e), exec e s)"

inductive_cases sys_stepE: "sys_step (U, s) (U', s')"

text \<open>The program starts from \<open>NewStorage\<close> on the seeded clients; the key id is the first id drawn.\<close>

inductive sys_init :: "string set \<times> storage \<Rightarrow> bool" where
  boot: "NewStorage key kid (seedClients uris) = Inr s \<Longrightarrow> sys_init ({[], kid}, s)"

inductive reachable :: "string set \<times> storage \<Rightarrow> bool" where
  start: "sys_init x \<Longrightarrow> reachable x"
| step: "reachable x \<Longrightarrow> sys_step x y \<Longrightarrow> reachable y"

subsection \<open>What each method leaves alone\<close>

lemmas exec_defs =
  RegisterClient_def ReplaceFileClients_def ReplaceFileClients_range_def CreateAuthRequest_def
  CompleteAuthRequest_def SaveAuthCode_def DeleteAuthRequest_eq CreateAccessToken_def accessToken_def
  CreateAccessAndRefreshTokens_def issueTokens_eq rotateTokens_eq filed_def retired_def
  installed_def SetCurrentScopes_def RevokeToken_def StoreDeviceAuthorization_def
  CompleteDeviceAuthorization_def DenyDeviceAuthorization_def

lemma clients_exec:
  "clients (exec e s) =
     (case e of
        ERegisterClient c \<Rightarrow> clients (RegisterClient c s)
      | EReplaceFileClients cs \<Rightarrow> clients (ReplaceFileClients cs s)
      | _ \<Rightarrow> clients s)"
  by (cases e) (auto simp: exec_defs Let_def split_beta split: option.splits)

lemma fixed_exec [simp]:
  "seedIDs (exec e s) = seedIDs s" "signKey (exec e s) = signKey s"
  by (cases e; auto simp: exec_defs Let_def split_beta split: option.splits)+

lemma authRequests_exec:
  "authRequests (exec e s) =
     (case e of
        ECreateAuthRequest uid ar u \<Rightarrow> authRequests (snd (CreateAuthRequest uid ar u s))
      | ECompleteAuthRequest now rid subject \<Rightarrow>
          authRequests (snd (CompleteAuthRequest now rid subject s))
      | EDeleteAuthRequest rid \<Rightarrow> fmdrop rid (authRequests s)
      | _ \<Rightarrow> authRequests s)"
  by (cases e) (auto simp: exec_defs Let_def split_beta split: option.splits)

text \<open>The events that touch the tokens, and the parts of the storage the others leave alone.\<close>

fun token_event :: "event \<Rightarrow> bool" where
  "token_event (ECreateAccessToken uid now req) = True"
| "token_event (ECreateAccessAndRefreshTokens rid tid now1 now2 now3 req cur) = True"
| "token_event (ESetCurrentScopes p scopes) = True"
| "token_event (ETerminateSession u c) = True"
| "token_event (ERevokeToken tok c) = True"
| "token_event e = False"

lemma tokens_exec:
  assumes "\<not> token_event e"
  shows "tokens (exec e s) = tokens s" "refreshers (exec e s) = refreshers s"
    "rtHeap (exec e s) = rtHeap s" "rtNext (exec e s) = rtNext s"
  using assms
  by (cases e; auto simp: exec_defs Let_def split_beta split: option.splits)+

fun device_event :: "event \<Rightarrow> bool" where
  "device_event (EStoreDeviceAuthorization cid dc uc expires scopes) = True"
| "device_event (ECompleteDeviceAuthorization now uc subject) = True"
| "device_event (EDenyDeviceAuthorization uc) = True"
| "device_event e = False"

lemma device_exec:
  assumes "\<not> device_event e"
  shows "deviceCodes (exec e s) = deviceCodes s" "userCodes (exec e s) = userCodes s"
  using assms
  by (cases e; auto simp: exec_defs Let_def split_beta split: option.splits)+

subsection \<open>The registry: every client under its own id, every seed registered\<close>

definition client_inv :: "storage \<Rightarrow> bool" where
  "client_inv s \<longleftrightarrow>
     (\<forall>k c. fmlookup (clients s) k = Some c \<longrightarrow> c_id c = k) \<and> fset (seedIDs s) \<subseteq> fmdom' (clients s)"

lemma client_inv_exec:
  assumes "client_inv s"
  shows "client_inv (exec e s)"
proof -
  have "client_inv (RegisterClient c s)" for c
    using assms by (auto simp: client_inv_def RegisterClient_def)
  moreover have "client_inv (ReplaceFileClients cs s)" for cs
    unfolding client_inv_def
  proof (intro conjI allI impI subsetI)
    fix k c
    assume "fmlookup (clients (ReplaceFileClients cs s)) k = Some c"
    then show "c_id c = k"
      using assms declared_id [of cs k]
      by (auto simp: client_inv_def lookup_ReplaceFileClients split: option.splits if_splits)
  next
    fix k
    assume "k \<in> fset (seedIDs (ReplaceFileClients cs s))"
    then have k: "k |\<in>| seedIDs s" by simp
    then have "k \<in> fmdom' (clients s)" using assms unfolding client_inv_def by blast
    then obtain c where "fmlookup (clients s) k = Some c" by (auto simp: fmlookup_dom'_iff)
    with k have "fmlookup (clients (ReplaceFileClients cs s)) k \<noteq> None"
      by (simp add: lookup_ReplaceFileClients split: option.splits)
    then show "k \<in> fmdom' (clients (ReplaceFileClients cs s))"
      by (auto simp: fmlookup_dom'_iff)
  qed
  moreover have "client_inv (exec e s)" if "clients (exec e s) = clients s"
    using assms that by (simp add: client_inv_def)
  ultimately show ?thesis
    by (cases e) (simp_all add: clients_exec del: exec.simps add: exec.simps(1,2))
qed

subsection \<open>Auth requests: filed under their id, done only for a known identity\<close>

definition auth_inv :: "string set \<Rightarrow> storage \<Rightarrow> bool" where
  "auth_inv U s \<longleftrightarrow>
     (\<forall>k r. fmlookup (authRequests s) k = Some r \<longrightarrow>
        ar_id r = k \<and> k \<in> U \<and> (ar_done r \<longrightarrow> known (ar_userID r)))"

lemma auth_invD:
  "auth_inv U s \<Longrightarrow> fmlookup (authRequests s) k = Some r \<Longrightarrow>
     ar_id r = k \<and> k \<in> U \<and> (ar_done r \<longrightarrow> known (ar_userID r))"
  by (simp add: auth_inv_def)

lemma auth_inv_exec:
  assumes inv: "auth_inv U s"
  shows "auth_inv (U \<union> set (drawn e)) (exec e s)"
proof (cases e)
  case (ECreateAuthRequest uid ar u)
  with inv show ?thesis
    by (cases rule: CreateAuthRequest_cases [of uid ar u s]) (auto simp: auth_inv_def)
next
  case (ECompleteAuthRequest now rid subject)
  with inv show ?thesis
    by (cases rule: CompleteAuthRequest_cases [of now rid subject s]) (auto simp: auth_inv_def)
qed (use inv in \<open>auto simp: auth_inv_def authRequests_exec simp del: exec.simps split: if_splits\<close>)

subsection \<open>Device flows\<close>

text \<open>
  The two device maps are inverse to each other, no flow has the empty device code, and a flow is
  done exactly when an identity is bound to it, with the passwordless authentication method.
\<close>

definition done_known :: "DeviceAuthorizationState \<Rightarrow> bool" where
  "done_known d \<longleftrightarrow>
     (if ds_Done d then known (ds_Subject d) \<and> ds_AMR d = [''none'']
      else ds_Subject d = [] \<and> ds_AMR d = [])"

definition device_inv :: "string set \<Rightarrow> storage \<Rightarrow> bool" where
  "device_inv U s \<longleftrightarrow> [] \<in> U \<and> fmlookup (deviceCodes s) [] = None
     \<and> (\<forall>dc e. fmlookup (deviceCodes s) dc = Some e \<longrightarrow>
           dc \<in> U \<and> de_deviceCode e = dc \<and> fmlookup (userCodes s) (de_userCode e) = Some dc
           \<and> done_known (de_state e))
     \<and> (\<forall>uc dc. fmlookup (userCodes s) uc = Some dc \<longrightarrow>
           (\<exists>e. fmlookup (deviceCodes s) dc = Some e \<and> de_userCode e = uc))"

lemma device_invD:
  assumes "device_inv U s" "fmlookup (deviceCodes s) dc = Some e"
  shows "dc \<in> U" "dc \<noteq> []" "de_deviceCode e = dc" "fmlookup (userCodes s) (de_userCode e) = Some dc"
    "done_known (de_state e)"
  using assms by (auto simp: device_inv_def)

lemma device_inv_user:
  "device_inv U s \<Longrightarrow> fmlookup (userCodes s) uc = Some dc \<Longrightarrow>
     \<exists>e. fmlookup (deviceCodes s) dc = Some e \<and> de_userCode e = uc"
  by (simp add: device_inv_def)

text \<open>In a state of the machine an unknown user code leads to no flow.\<close>

lemma device_inv_index:
  assumes "device_inv U s"
  shows "fmlookup (deviceCodes s) (userCodeIndex uc s) = Some e \<longleftrightarrow>
    (\<exists>dc. fmlookup (userCodes s) uc = Some dc \<and> fmlookup (deviceCodes s) dc = Some e)"
  using assms by (auto simp: userCodeIndex_def device_inv_def split: option.splits)

text \<open>Rewriting the state of one flow, keeping its codes and the done-means-known rule.\<close>

lemma device_inv_update:
  assumes inv: "device_inv U s" and e: "fmlookup (deviceCodes s) dc = Some e"
    and e': "de_deviceCode e' = de_deviceCode e" "de_userCode e' = de_userCode e"
      "done_known (de_state e')"
  shows "device_inv U (s\<lparr>deviceCodes := fmupd dc e' (deviceCodes s)\<rparr>)"
proof -
  note D = device_invD [OF inv e]
  have "\<exists>x. fmlookup (fmupd dc e' (deviceCodes s)) d = Some x \<and> de_userCode x = uc"
    if "fmlookup (userCodes s) uc = Some d" for uc d
    using device_inv_user [OF inv that] e e'(2) by auto
  with inv D e' show ?thesis
    unfolding device_inv_def by (auto split: if_splits)
qed

lemma device_inv_store:
  assumes inv: "device_inv U s" and dc: "dc \<notin> U" and uc: "fmlookup (userCodes s) uc = None"
    and e: "de_deviceCode e = dc" "de_userCode e = uc" "done_known (de_state e)"
  shows "device_inv (insert dc U)
    (s\<lparr>deviceCodes := fmupd dc e (deviceCodes s), userCodes := fmupd uc dc (userCodes s)\<rparr>)"
    (is "device_inv _ ?s")
proof -
  have empty: "[] \<in> insert dc U" "fmlookup (deviceCodes ?s) [] = None"
    using inv dc by (auto simp: device_inv_def)
  have old: "d \<in> U \<and> d \<noteq> dc \<and> de_userCode x \<noteq> uc" if "fmlookup (deviceCodes s) d = Some x" for d x
    using device_invD(1,4) [OF inv that] dc uc by auto
  have "dc' \<in> insert dc U \<and> de_deviceCode x = dc' \<and> fmlookup (userCodes ?s) (de_userCode x) = Some dc'
      \<and> done_known (de_state x)"
    if "fmlookup (deviceCodes ?s) dc' = Some x" for dc' x
    using that e old [of dc' x] device_invD [OF inv, of dc' x] by (auto split: if_splits)
  moreover have "\<exists>x. fmlookup (deviceCodes ?s) dc' = Some x \<and> de_userCode x = u"
    if "fmlookup (userCodes ?s) u = Some dc'" for u dc'
    using that e old [of dc'] device_inv_user [OF inv, of u dc'] by (fastforce split: if_splits)
  ultimately show ?thesis using empty unfolding device_inv_def by blast
qed

lemma device_inv_exec:
  assumes inv: "device_inv U s" and fresh: "set (drawn e) \<inter> U = {}"
  shows "device_inv (U \<union> set (drawn e)) (exec e s)"
proof (cases "device_event e")
  case False
  have "device_inv (U \<union> set (drawn e)) s" using inv unfolding device_inv_def by blast
  with False show ?thesis by (simp add: device_inv_def device_exec)
next
  case True
  then show ?thesis
  proof (cases e)
    case (EStoreDeviceAuthorization cid dc uc expires scopes)
    then have dc: "dc \<notin> U" using fresh by simp
    show ?thesis
    proof (cases rule: StoreDeviceAuthorization_cases [of cid dc uc expires scopes s])
      case rejected
      have "device_inv (insert dc U) s" using inv unfolding device_inv_def by blast
      with rejected EStoreDeviceAuthorization show ?thesis by simp
    next
      case (stored en)
      then have "done_known (de_state en)" by (simp add: done_known_def)
      with EStoreDeviceAuthorization stored device_inv_store [OF inv dc stored(2)]
      show ?thesis by simp
    qed
  next
    case (ECompleteDeviceAuthorization now uc subject)
    show ?thesis
    proof (cases rule: CompleteDeviceAuthorization_cases [of now uc subject s])
      case unchanged
      with inv ECompleteDeviceAuthorization show ?thesis by simp
    next
      case (completed en)
      have "device_inv U (snd (CompleteDeviceAuthorization now uc subject s))"
        unfolding completed(3) using completed(1)
        by (intro device_inv_update [OF inv completed(2)]) (simp_all add: approve_def done_known_def)
      with ECompleteDeviceAuthorization show ?thesis by simp
    qed
  next
    case (EDenyDeviceAuthorization uc)
    show ?thesis
    proof (cases rule: DenyDeviceAuthorization_cases [of uc s])
      case unchanged
      with inv EDenyDeviceAuthorization show ?thesis by simp
    next
      case (denied en)
      have "device_inv U (snd (DenyDeviceAuthorization uc s))"
        unfolding denied(2) using device_invD(5) [OF inv denied(1)]
        by (intro device_inv_update [OF inv denied(1)]) (simp_all add: done_known_def)
      with EDenyDeviceAuthorization show ?thesis by simp
    qed
  qed simp_all
qed

end
