(* ===== verification/Runs.thy ===== *)
theory Runs
  imports Machine
begin

text \<open>
  Whole runs of the storage machine: the invariant of every reachable state, and what can only
  change one way along a run. Ids are drawn once, so an auth request, an access token or a refresh
  token that is gone stays gone, and an access token is never rewritten; a device flow keeps its
  codes, client and scopes, and stays done or denied once it is.
\<close>

definition sys_inv :: "string set \<times> storage \<Rightarrow> bool" where
  "sys_inv x \<longleftrightarrow> client_inv (snd x) \<and> auth_inv (fst x) (snd x) \<and> token_inv (fst x) (snd x)
     \<and> device_inv (fst x) (snd x)"

lemma token_inv_exec:
  assumes inv: "token_inv U s" and fresh: "set (drawn e) \<inter> U = {}" "distinct (drawn e)"
    and ptr: "pointers_ok e s"
  shows "token_inv (U \<union> set (drawn e)) (exec e s)"
proof (cases "token_event e")
  case False
  have "token_inv (U \<union> set (drawn e)) s" using inv by (rule token_inv_mono) simp
  with False show ?thesis by (subst token_inv_cong [of _ s]) (simp_all add: tokens_exec)
next
  case True
  then show ?thesis
  proof (cases e)
    case (ECreateAccessToken uid now req)
    then show ?thesis using token_inv_CreateAccessToken [OF inv, of uid] fresh by simp
  next
    case (ECreateAccessAndRefreshTokens rid tid now1 now2 now3 req cur)
    then show ?thesis
      using token_inv_CreateAccessAndRefreshTokens [OF inv, of tid rid] fresh
      by (simp add: insert_commute)
  next
    case (ESetCurrentScopes p scopes)
    then show ?thesis using token_inv_SetCurrentScopes [OF inv] ptr by simp
  next
    case (ETerminateSession u c)
    then show ?thesis using token_inv_TerminateSession [OF inv] by simp
  next
    case (ERevokeToken tok c)
    then show ?thesis using token_inv_RevokeToken [OF inv] by simp
  qed simp_all
qed

lemma sys_inv_step: "sys_inv x \<Longrightarrow> sys_step x y \<Longrightarrow> sys_inv y"
  by (erule sys_step.cases)
    (auto simp: sys_inv_def intro: client_inv_exec auth_inv_exec token_inv_exec device_inv_exec)

lemma sys_inv_init: "sys_init x \<Longrightarrow> sys_inv x"
proof (erule sys_init.cases)
  fix key kid uris s
  assume x: "x = ({[], kid}, s)" and s: "NewStorage key kid (seedClients uris) = Inr s"
  have "client_inv s"
    using s wf_seedClients [of uris]
    by (auto simp: NewStorage_def client_inv_def fmdom'_alt_def split: sum.splits)
  with s show "sys_inv x"
    by (auto simp: x sys_inv_def NewStorage_def auth_inv_def token_inv_defs device_inv_def
        split: sum.splits)
qed

lemma reachable_sys_inv: "reachable x \<Longrightarrow> sys_inv x"
  by (induction rule: reachable.induct) (auto intro: sys_inv_init sys_inv_step)

lemma reachable_steps: "sys_step\<^sup>*\<^sup>* x y \<Longrightarrow> reachable x \<Longrightarrow> reachable y"
  by (induction rule: rtranclp_induct) (auto intro: reachable.step)

subsection \<open>Entries appear under drawn ids only\<close>

lemma authRequests_exec_old:
  "k \<notin> set (drawn e) \<Longrightarrow> fmlookup (authRequests s) k = None \<Longrightarrow>
     fmlookup (authRequests (exec e s)) k = None"
  by (cases e)
    (auto simp: authRequests_exec lookup_CompleteAuthRequest CreateAuthRequest_def Let_def
      simp del: exec.simps split: option.splits)

lemma tokens_exec_old:
  "k \<notin> set (drawn e) \<Longrightarrow> fmlookup (tokens (exec e s)) k = Some t \<Longrightarrow> fmlookup (tokens s) k = Some t"
  by (cases "token_event e"; cases e)
    (auto simp: tokens_exec exec_defs lookup_TerminateSession Let_def split_beta
      split: option.splits if_splits)

lemma refreshers_exec_old:
  "k \<notin> set (drawn e) \<Longrightarrow> fmlookup (refreshers (exec e s)) k = Some p \<Longrightarrow>
     fmlookup (refreshers s) k = Some p"
  by (cases "token_event e"; cases e)
    (auto simp: tokens_exec exec_defs lookup_TerminateSession Let_def split_beta
      split: option.splits if_splits)

subsection \<open>Device flows only move forward\<close>

text \<open>The order in which a flow evolves.\<close>

definition flow_le :: "deviceEntry \<Rightarrow> deviceEntry \<Rightarrow> bool" where
  "flow_le e e' \<longleftrightarrow> de_deviceCode e' = de_deviceCode e \<and> de_userCode e' = de_userCode e
     \<and> ds_ClientID (de_state e') = ds_ClientID (de_state e)
     \<and> ds_Scopes (de_state e') = ds_Scopes (de_state e)
     \<and> ds_Expires (de_state e') = ds_Expires (de_state e)
     \<and> (ds_Done (de_state e) \<longrightarrow> ds_Done (de_state e'))
     \<and> (ds_Denied (de_state e) \<longrightarrow> ds_Denied (de_state e'))"

lemma flow_le_refl [simp]: "flow_le e e"
  by (simp add: flow_le_def)

lemma flow_le_trans: "flow_le a b \<Longrightarrow> flow_le b c \<Longrightarrow> flow_le a c"
  by (simp add: flow_le_def)

lemma deviceCodes_exec:
  assumes "dc \<notin> set (drawn e)" "fmlookup (deviceCodes s) dc = Some en"
  shows "\<exists>en'. fmlookup (deviceCodes (exec e s)) dc = Some en' \<and> flow_le en en'"
proof (cases "device_event e")
  case False
  with assms show ?thesis by (simp add: device_exec)
next
  case True
  with assms show ?thesis
    by (cases e)
      (auto simp: StoreDeviceAuthorization_def lookup_CompleteDeviceAuthorization approve_def
        DenyDeviceAuthorization_def flow_le_def split: option.splits)
qed

lemma userCodes_exec:
  assumes "fmlookup (userCodes s) uc = Some dc"
  shows "fmlookup (userCodes (exec e s)) uc = Some dc"
proof (cases "device_event e")
  case False
  with assms show ?thesis by (simp add: device_exec)
next
  case True
  with assms show ?thesis
    by (cases e) (auto simp: StoreDeviceAuthorization_def CompleteDeviceAuthorization_def
        DenyDeviceAuthorization_def split: option.splits)
qed

subsection \<open>Runs\<close>

definition evolves :: "string set \<times> storage \<Rightarrow> string set \<times> storage \<Rightarrow> bool" where
  "evolves x y \<longleftrightarrow> fst x \<subseteq> fst y
     \<and> (\<forall>k \<in> fst x. fmlookup (authRequests (snd x)) k = None \<longrightarrow>
           fmlookup (authRequests (snd y)) k = None)
     \<and> (\<forall>k \<in> fst x. \<forall>t. fmlookup (tokens (snd y)) k = Some t \<longrightarrow> fmlookup (tokens (snd x)) k = Some t)
     \<and> (\<forall>k \<in> fst x. \<forall>p. fmlookup (refreshers (snd y)) k = Some p \<longrightarrow>
           fmlookup (refreshers (snd x)) k = Some p)
     \<and> (\<forall>dc en. fmlookup (deviceCodes (snd x)) dc = Some en \<longrightarrow>
           (\<exists>en'. fmlookup (deviceCodes (snd y)) dc = Some en' \<and> flow_le en en'))
     \<and> (\<forall>uc dc. fmlookup (userCodes (snd x)) uc = Some dc \<longrightarrow>
           fmlookup (userCodes (snd y)) uc = Some dc)
     \<and> seedIDs (snd y) = seedIDs (snd x) \<and> signKey (snd y) = signKey (snd x)"

lemma evolves_refl: "evolves x x"
  unfolding evolves_def using flow_le_refl by blast

lemma evolves_trans: "evolves x y \<Longrightarrow> evolves y z \<Longrightarrow> evolves x z"
  unfolding evolves_def by (simp add: subset_iff) (meson flow_le_trans)

lemma evolves_step:
  assumes "sys_inv x" "sys_step x y"
  shows "evolves x y"
  using assms(2)
proof (cases rule: sys_step.cases)
  case (event e U s)
  have old: "k \<notin> set (drawn e)" if "k \<in> U" for k using event(4) that by blast
  have dc: "dc \<in> U" if "fmlookup (deviceCodes s) dc = Some en" for dc en
    using assms(1) that device_invD(1) by (auto simp: event sys_inv_def)
  have "\<forall>k \<in> U. fmlookup (authRequests s) k = None \<longrightarrow> fmlookup (authRequests (exec e s)) k = None"
    using old authRequests_exec_old by blast
  moreover have "\<forall>k \<in> U. \<forall>t. fmlookup (tokens (exec e s)) k = Some t \<longrightarrow> fmlookup (tokens s) k = Some t"
    using old tokens_exec_old by blast
  moreover have "\<forall>k \<in> U. \<forall>p. fmlookup (refreshers (exec e s)) k = Some p \<longrightarrow>
      fmlookup (refreshers s) k = Some p"
    using old refreshers_exec_old by blast
  moreover have "\<forall>dc en. fmlookup (deviceCodes s) dc = Some en \<longrightarrow>
      (\<exists>en'. fmlookup (deviceCodes (exec e s)) dc = Some en' \<and> flow_le en en')"
    using old dc deviceCodes_exec by blast
  moreover have "\<forall>uc dc. fmlookup (userCodes s) uc = Some dc \<longrightarrow>
      fmlookup (userCodes (exec e s)) uc = Some dc"
    using userCodes_exec by blast
  ultimately show ?thesis
    unfolding evolves_def event fst_conv snd_conv by (intro conjI Un_upper1 fixed_exec)
qed

interpretation sys: step_monotone sys_step sys_inv evolves
  by unfold_locales (fact sys_inv_step evolves_refl evolves_trans evolves_step)+

lemma run_evolves: "reachable x \<Longrightarrow> sys_step\<^sup>*\<^sup>* x y \<Longrightarrow> reachable y \<and> sys_inv y \<and> evolves x y"
  using sys.steps_rel reachable_sys_inv reachable_steps by blast

end
