(* ===== verification/Claims.thy ===== *)
theory Claims
  imports Tokens
begin

text \<open>
  The claims (\<open>internal/idp/storage.go\<close>): the one function that fills in userinfo, and the hooks of
  the OP that go through it. \<open>oidc.UserInfo\<close> and \<open>oidc.IntrospectionResponse\<close> are structs of the
  OpenID library; the records have the fields the code writes. \<open>AppendClaims\<close> sets a key of the map
  of additional claims.
\<close>

definition appsClaim :: string where
  "appsClaim = ''apps''"

definition EmittedClaims :: "string list" where
  "EmittedClaims = [''sub'', ''name'', ''email'', ''email_verified'', appsClaim]"

definition ScopeOpenID :: string where "ScopeOpenID = ''openid''"
definition ScopeProfile :: string where "ScopeProfile = ''profile''"
definition ScopeEmail :: string where "ScopeEmail = ''email''"

record UserInfo =
  ui_Subject :: string
  ui_Name :: string
  ui_Email :: string
  ui_EmailVerified :: bool
  ui_Claims :: "(string, string list) fmap"

definition zero_UserInfo :: UserInfo where
  "zero_UserInfo =
     \<lparr>ui_Subject = [], ui_Name = [], ui_Email = [], ui_EmailVerified = False, ui_Claims = fmempty\<rparr>"

definition AppendClaims :: "string \<Rightarrow> string list \<Rightarrow> UserInfo \<Rightarrow> UserInfo" where
  "AppendClaims k v info = info\<lparr>ui_Claims := fmupd k v (ui_Claims info)\<rparr>"

text \<open>
  \<open>unionSorted\<close>: the loop over both lists with the set of elements already seen, then the sort.
\<close>

fun unionLoop :: "string list \<Rightarrow> string fset \<Rightarrow> string list \<Rightarrow> string list" where
  "unionLoop [] seen out = out"
| "unionLoop (x # xs) seen out =
     (if x |\<in>| seen then unionLoop xs seen out
      else unionLoop xs (finsert x seen) (out @ [x]))"

definition unionSorted :: "string list \<Rightarrow> string list \<Rightarrow> string list" where
  "unionSorted a b = sort (unionLoop (([] @ a) @ b) {||} [])"

text \<open>The loop over the requested scopes.\<close>

fun applyScopes :: "Identity \<Rightarrow> string list \<Rightarrow> UserInfo \<Rightarrow> UserInfo" where
  "applyScopes i [] info = info"
| "applyScopes i (scope # scopes) info =
     applyScopes i scopes
       (if scope = ScopeProfile then info\<lparr>ui_Name := Name i\<rparr>
        else if scope = ScopeEmail then
          (if Email i \<noteq> [] then info\<lparr>ui_Email := Email i, ui_EmailVerified := True\<rparr> else info)
        else info)"

text \<open>
  \<open>setCoarseUserinfo\<close> writes through the pointer \<open>info\<close>, so it returns the new contents; on an
  unknown subject it returns before writing. It is stated over an identity table, so that two
  tables can be compared, and used on the built-in one.
\<close>

definition setCoarseUserinfoIn ::
    "Identity list \<Rightarrow> UserInfo \<Rightarrow> string \<Rightarrow> string list \<Rightarrow> storage \<Rightarrow> error option \<times> UserInfo" where
  "setCoarseUserinfoIn ids info subject scopes s =
     (case identityIn ids subject of
        None \<Rightarrow> (Some (IdentityNotFound subject), info)
      | Some i \<Rightarrow>
          (None, AppendClaims appsClaim (unionSorted (Apps i) (allClientIDs s))
                   (applyScopes i scopes (info\<lparr>ui_Subject := Subject i\<rparr>))))"

definition setCoarseUserinfo ::
    "UserInfo \<Rightarrow> string \<Rightarrow> string list \<Rightarrow> storage \<Rightarrow> error option \<times> UserInfo" where
  "setCoarseUserinfo = setCoarseUserinfoIn Identities"

definition SetUserinfoFromRequest ::
    "UserInfo \<Rightarrow> string \<Rightarrow> string list \<Rightarrow> storage \<Rightarrow> error option \<times> UserInfo" where
  "SetUserinfoFromRequest info reqSubject scopes s = setCoarseUserinfo info reqSubject scopes s"

definition SetUserinfoFromScopes :: "UserInfo \<Rightarrow> error option \<times> UserInfo" where
  "SetUserinfoFromScopes info = (None, info)"

text \<open>
  Looking the token up and listing the clients are two critical sections: \<open>s1\<close> is the state of the
  first, \<open>s2\<close> that of the second.
\<close>

definition SetUserinfoFromToken ::
    "time \<Rightarrow> UserInfo \<Rightarrow> string \<Rightarrow> storage \<Rightarrow> storage \<Rightarrow> error option \<times> UserInfo" where
  "SetUserinfoFromToken now info tokenID s1 s2 =
     (case fmlookup (tokens s1) tokenID of
        None \<Rightarrow> (Some TokenInvalidOrExpired, info)
      | Some t \<Rightarrow>
          if tk_expiration t < now then (Some TokenExpired, info)
          else setCoarseUserinfo info (tk_subject t) (tk_scopes t) s2)"

record IntrospectionResponse =
  ir_UserInfo :: UserInfo       \<comment> \<open>the fields \<open>SetUserInfo\<close> writes\<close>
  ir_Scope :: "string list"
  ir_ClientID :: string
  ir_Expiration :: int          \<comment> \<open>an \<open>oidc.Time\<close>\<close>

text \<open>
  The two functions of the OpenID library that the introspection hook calls, which are parameters:
  \<open>SetUserInfo\<close> merges a userinfo into a response, \<open>FromTime\<close> turns a time into the library's.
\<close>

record oidcLib =
  lib_SetUserInfo :: "UserInfo \<Rightarrow> IntrospectionResponse \<Rightarrow> IntrospectionResponse"
  lib_FromTime :: "time \<Rightarrow> int"

text \<open>The loop over the audience stops at the first entry that is the caller.\<close>

fun introspectLoop ::
    "oidcLib \<Rightarrow> string list \<Rightarrow> string \<Rightarrow> token \<Rightarrow> storage \<Rightarrow> IntrospectionResponse
       \<Rightarrow> error option \<times> IntrospectionResponse" where
  "introspectLoop lib [] clientID t s resp = (Some TokenNotValidForClient, resp)"
| "introspectLoop lib (aud # auds) clientID t s resp =
     (if aud = clientID then
        (case setCoarseUserinfo zero_UserInfo (tk_subject t) (tk_scopes t) s of
           (Some err, info) \<Rightarrow> (Some err, resp)
         | (None, info) \<Rightarrow>
             (None, (lib_SetUserInfo lib info resp)
                       \<lparr>ir_Scope := tk_scopes t, ir_ClientID := tk_applicationID t,
                        ir_Expiration := lib_FromTime lib (tk_expiration t)\<rparr>))
      else introspectLoop lib auds clientID t s resp)"

definition SetIntrospectionFromToken ::
    "oidcLib \<Rightarrow> time \<Rightarrow> IntrospectionResponse \<Rightarrow> string \<Rightarrow> string \<Rightarrow> storage \<Rightarrow> storage
       \<Rightarrow> error option \<times> IntrospectionResponse" where
  "SetIntrospectionFromToken lib now resp tokenID clientID s1 s2 =
     (case fmlookup (tokens s1) tokenID of
        None \<Rightarrow> (Some TokenInvalid, resp)
      | Some t \<Rightarrow>
          if tk_expiration t < now then (Some TokenExpired, resp)
          else introspectLoop lib (tk_audience t) clientID t s2 resp)"

definition GetPrivateClaimsFromScopes :: "string list \<Rightarrow> (string, string) fmap result" where
  "GetPrivateClaimsFromScopes scopes = Inr fmempty"

definition GetKeyByIDAndClientID :: "string \<Rightarrow> string \<Rightarrow> opKey result" where
  "GetKeyByIDAndClientID keyID clientID = Inl JWTProfileUnsupported"

fun ValidateJWTProfileScopes :: "string list \<Rightarrow> string list" where
  "ValidateJWTProfileScopes [] = []"
| "ValidateJWTProfileScopes (sc # scopes) =
     (if sc = ScopeOpenID then sc # ValidateJWTProfileScopes scopes
      else ValidateJWTProfileScopes scopes)"

definition Health :: "error option" where
  "Health = None"

subsection \<open>The union\<close>

lemma unionLoop_spec:
  "fset seen = set out \<Longrightarrow> distinct out \<Longrightarrow>
     distinct (unionLoop xs seen out) \<and> set (unionLoop xs seen out) = set xs \<union> set out"
proof (induction xs arbitrary: seen out)
  case Nil
  then show ?case by simp
next
  case (Cons x xs)
  show ?case
  proof (cases "x |\<in>| seen")
    case True
    with Cons show ?thesis by auto
  next
    case False
    then have "x \<notin> set out" using Cons.prems(1) by simp
    with False Cons.prems Cons.IH [of "finsert x seen" "out @ [x]"] show ?thesis by simp
  qed
qed

lemma set_unionSorted [simp]: "set (unionSorted a b) = set a \<union> set b"
  using unionLoop_spec [of "{||}" "[]" "a @ b"] by (simp add: unionSorted_def)

lemma sorted_unionSorted [simp]: "sorted (unionSorted a b)"
  by (simp add: unionSorted_def)

lemma distinct_unionSorted [simp]: "distinct (unionSorted a b)"
  using unionLoop_spec [of "{||}" "[]" "a @ b"] by (simp add: unionSorted_def)

lemma unionSorted_eq: "unionSorted a b = sorted_list_of_set (set a \<union> set b)"
  by (rule sorted_distinct_eqI) simp_all

subsection \<open>The claims of a userinfo\<close>

text \<open>
  The keys of the JSON object a userinfo becomes: a string field that is empty and a flag that is
  false are left out, additional claims are keys of their own.
\<close>

definition claimKeys :: "UserInfo \<Rightarrow> string set" where
  "claimKeys info =
     (if ui_Subject info \<noteq> [] then {''sub''} else {})
     \<union> (if ui_Name info \<noteq> [] then {''name''} else {})
     \<union> (if ui_Email info \<noteq> [] then {''email''} else {})
     \<union> (if ui_EmailVerified info then {''email_verified''} else {})
     \<union> fmdom' (ui_Claims info)"

lemma applyScopes_frame [simp]:
  "ui_Subject (applyScopes i scopes info) = ui_Subject info"
  "ui_Claims (applyScopes i scopes info) = ui_Claims info"
  by (induction scopes arbitrary: info) auto

lemma applyScopes_Name:
  "ui_Name (applyScopes i scopes info) = (if ScopeProfile \<in> set scopes then Name i else ui_Name info)"
  by (induction scopes arbitrary: info) (auto simp: ScopeProfile_def ScopeEmail_def)

lemma applyScopes_Email:
  "ui_Email (applyScopes i scopes info) =
     (if ScopeEmail \<in> set scopes \<and> Email i \<noteq> [] then Email i else ui_Email info)"
  "ui_EmailVerified (applyScopes i scopes info) =
     (ui_EmailVerified info \<or> ScopeEmail \<in> set scopes \<and> Email i \<noteq> [])"
  by (induction scopes arbitrary: info) (auto simp: ScopeProfile_def ScopeEmail_def)

lemmas applyScopes_fields = applyScopes_Name applyScopes_Email

text \<open>The loop depends on the set of scopes and on three fields of the identity only.\<close>

lemma applyScopes_eqI:
  "set scopes = set scopes' \<Longrightarrow> Name i = Name i' \<Longrightarrow> Email i = Email i' \<Longrightarrow>
     applyScopes i scopes info = applyScopes i' scopes' info"
  by (rule UserInfo.equality) (simp_all add: applyScopes_fields)

lemma setCoarseUserinfo_ok:
  "fst (setCoarseUserinfo info subject scopes s) = None \<longleftrightarrow> known subject"
  by (simp add: setCoarseUserinfo_def setCoarseUserinfoIn_def identityBySubject_def
      split: option.splits)

lemma setCoarseUserinfo_known:
  assumes "identityBySubject subject = Some i"
  shows "setCoarseUserinfo info subject scopes s =
    (None, AppendClaims appsClaim (unionSorted (Apps i) (allClientIDs s))
             (applyScopes i scopes (info\<lparr>ui_Subject := subject\<rparr>)))"
  using assms identityBySubject_Subject [OF assms]
  by (simp add: setCoarseUserinfo_def setCoarseUserinfoIn_def identityBySubject_def)

lemma introspectLoop_eq:
  "introspectLoop lib auds clientID t s resp =
     (if clientID \<in> set auds then introspectLoop lib [clientID] clientID t s resp
      else (Some TokenNotValidForClient, resp))"
  by (induction auds) (auto split: prod.splits option.splits)

subsection \<open>Properties\<close>

text \<open>
  C20. The loops of the claims builder compute a plain table: for a built-in identity the userinfo is
  the given one with the subject, the name and the email set exactly when their scopes are asked
  for, in whatever order and however often, and the app-access claim set to the sorted list of the
  set of the identity's apps and all registered clients; for any other subject it is untouched.
\<close>

theorem claims_reference:
  "setCoarseUserinfo info subject scopes s =
     (case identityBySubject subject of
        None \<Rightarrow> (Some (IdentityNotFound subject), info)
      | Some i \<Rightarrow>
          (None, info\<lparr>ui_Subject := subject,
                      ui_Name := (if ScopeProfile \<in> set scopes then Name i else ui_Name info),
                      ui_Email := (if ScopeEmail \<in> set scopes then Email i else ui_Email info),
                      ui_EmailVerified := (ScopeEmail \<in> set scopes \<or> ui_EmailVerified info),
                      ui_Claims := fmupd appsClaim
                        (sorted_list_of_set (set (Apps i) \<union> fmdom' (clients s))) (ui_Claims info)\<rparr>))"
proof (cases "identityBySubject subject")
  case None
  then show ?thesis
    by (simp add: setCoarseUserinfo_def setCoarseUserinfoIn_def identityBySubject_def)
next
  case (Some i)
  then have "Email i \<noteq> []"
    using identity_Email_nonempty by (auto simp: identityBySubject_def dest: identityIn_Some)
  with Some show ?thesis
    by (auto simp: setCoarseUserinfo_known AppendClaims_def unionSorted_eq allClientIDs_eq
        applyScopes_fields intro!: UserInfo.equality)
qed

text \<open>
  C19. The coarse-claims rule: a userinfo filled in for an id_token carries only the documented
  claims, with the subject asked for, and the app-access claim as its only additional claim; an
  unknown subject gets nothing.
\<close>

theorem claims_are_coarse:
  "(case setCoarseUserinfo zero_UserInfo subject scopes s of
      (None, info) \<Rightarrow> known subject \<and> claimKeys info \<subseteq> set EmittedClaims
        \<and> ui_Subject info = subject \<and> fmdom' (ui_Claims info) = {appsClaim}
        \<and> (ui_Name info = [] \<longleftrightarrow> ScopeProfile \<notin> set scopes)
        \<and> (ui_Email info = [] \<longleftrightarrow> ScopeEmail \<notin> set scopes)
        \<and> (ui_EmailVerified info \<longleftrightarrow> ScopeEmail \<in> set scopes)
    | (Some err, info) \<Rightarrow> \<not> known subject \<and> info = zero_UserInfo)"
proof (cases "identityBySubject subject")
  case None
  then show ?thesis
    by (simp add: setCoarseUserinfo_def setCoarseUserinfoIn_def identityBySubject_def)
next
  case (Some i)
  then have "i \<in> set Identities" by (auto simp: identityBySubject_def dest: identityIn_Some)
  then have "Email i \<noteq> [] \<and> Name i \<noteq> []" by (auto simp: Identities_def)
  with Some show ?thesis
    by (auto simp: setCoarseUserinfo_known AppendClaims_def claimKeys_def EmittedClaims_def
        zero_UserInfo_def applyScopes_fields)
qed

text \<open>
  The richer profile never leaves the storage: two identity tables that agree on subject, name,
  email and apps, whatever their tenants, roles and groups, produce the same userinfo for every
  subject, every scopes and every registry.
\<close>

theorem profile_not_emitted:
  assumes "map (\<lambda>i. (Subject i, Name i, Email i, Apps i)) ids =
      map (\<lambda>i. (Subject i, Name i, Email i, Apps i)) ids'"
  shows "setCoarseUserinfoIn ids info subject scopes s = setCoarseUserinfoIn ids' info subject scopes s"
proof -
  have "rel_option (\<lambda>i j. Subject i = Subject j \<and> Name i = Name j \<and> Email i = Email j \<and> Apps i = Apps j)
      (identityIn ids subject) (identityIn ids' subject)"
    using assms
  proof (induction ids arbitrary: ids')
    case Nil
    then show ?case by simp
  next
    case (Cons i ids)
    then obtain j js where "ids' = j # js" by (cases ids') auto
    with Cons show ?case by simp
  qed
  then show ?thesis
    by (cases "identityIn ids subject"; cases "identityIn ids' subject")
      (auto simp: setCoarseUserinfoIn_def intro!: arg_cong [where f = "AppendClaims _ _"] applyScopes_eqI)
qed

theorem profile_not_emitted_witness:
  "setCoarseUserinfoIn (map (\<lambda>i. i\<lparr>Tenant := ''other'', Roles := [], Groups := [''root'']\<rparr>) Identities)
     zero_UserInfo ''alice'' [ScopeProfile] boot_storage =
   setCoarseUserinfoIn Identities zero_UserInfo ''alice'' [ScopeProfile] boot_storage"
  by (rule profile_not_emitted) simp

text \<open>
  The entitlement claim of a built-in identity is the sorted, duplicate-free union of its own
  apps and every registered client id, so a client a reload has just installed is in it.
\<close>

theorem entitled_to_registered_apps:
  assumes "identityBySubject subject = Some i" "c \<in> set cs"
  shows "fmlookup (ui_Claims (snd (setCoarseUserinfo info subject scopes s))) appsClaim =
      Some (sorted_list_of_set (set (Apps i) \<union> fmdom' (clients s)))
    \<and> (\<exists>apps. fmlookup (ui_Claims (snd (setCoarseUserinfo info subject scopes
            (ReplaceFileClients cs s)))) appsClaim = Some apps
          \<and> c_id c \<in> set apps \<and> sorted_wrt (<) apps)"
  using assms reg.set_ids_replace [of cs s]
  by (auto simp: setCoarseUserinfo_known AppendClaims_def unionSorted_eq allClientIDs_eq)

theorem entitled_to_registered_apps_witness:
  "\<exists>apps. fmlookup (ui_Claims (snd (setCoarseUserinfo zero_UserInfo ''bob'' []
      (ReplaceFileClients [orders_client] boot_storage)))) appsClaim = Some apps \<and> ''orders'' \<in> set apps"
proof -
  obtain i where i: "identityBySubject ''bob'' = Some i" using known_iff [of "''bob''"] by auto
  have c: "orders_client \<in> set [orders_client]" by simp
  from entitled_to_registered_apps [OF i c, of zero_UserInfo "[]" boot_storage] show ?thesis by auto
qed

text \<open>
  C21. Introspection answers only for a live token: a token that is not filed, or whose time has
  passed, or whose audience does not name the caller, or whose subject is unknown, gets its error
  and nothing is written; otherwise the library is given the coarse
  userinfo of the token's own subject and scopes to set, and the response ends up with the token's
  own scopes and client and the library's rendering of its own time.
\<close>

theorem introspection_spec:
  "SetIntrospectionFromToken lib now resp tokenID clientID s1 s2 =
     (case fmlookup (tokens s1) tokenID of
        None \<Rightarrow> (Some TokenInvalid, resp)
      | Some t \<Rightarrow>
          if tk_expiration t < now then (Some TokenExpired, resp)
          else if clientID \<notin> set (tk_audience t) then (Some TokenNotValidForClient, resp)
          else if \<not> known (tk_subject t) then (Some (IdentityNotFound (tk_subject t)), resp)
          else (None, (lib_SetUserInfo lib
                         (snd (setCoarseUserinfo zero_UserInfo (tk_subject t) (tk_scopes t) s2)) resp)
                      \<lparr>ir_Scope := tk_scopes t, ir_ClientID := tk_applicationID t,
                       ir_Expiration := lib_FromTime lib (tk_expiration t)\<rparr>))"
proof (cases "fmlookup (tokens s1) tokenID")
  case None
  then show ?thesis by (simp add: SetIntrospectionFromToken_def)
next
  case (Some t)
  have "introspectLoop lib [clientID] clientID t s2 resp =
      (if known (tk_subject t)
       then (None, (lib_SetUserInfo lib
                      (snd (setCoarseUserinfo zero_UserInfo (tk_subject t) (tk_scopes t) s2)) resp)
                   \<lparr>ir_Scope := tk_scopes t, ir_ClientID := tk_applicationID t,
                    ir_Expiration := lib_FromTime lib (tk_expiration t)\<rparr>)
       else (Some (IdentityNotFound (tk_subject t)), resp))"
  proof (cases "identityBySubject (tk_subject t)")
    case None
    then show ?thesis
      by (simp add: setCoarseUserinfo_def setCoarseUserinfoIn_def identityBySubject_def)
  next
    case (Some i)
    then show ?thesis by (simp add: setCoarseUserinfo_known)
  qed
  with Some show ?thesis
    using introspectLoop_eq [of lib "tk_audience t" clientID t s2 resp]
    by (simp add: SetIntrospectionFromToken_def)
qed

end
