(* ===== verification/Lifecycle.thy ===== *)
theory Lifecycle
  imports Runs Claims
begin

text \<open>
  What the token operations guarantee, per call and along whole runs of the storage machine: what a
  fresh pair holds, what a rotation keeps and kills, that a replayed or revoked token stays dead,
  whom revocation and session termination reach, and where they stop short.
\<close>

lemma reachable_event:
  "reachable (U, s) \<Longrightarrow> distinct (drawn e) \<Longrightarrow> set (drawn e) \<inter> U = {} \<Longrightarrow> pointers_ok e s \<Longrightarrow>
     reachable (U \<union> set (drawn e), exec e s)"
  by (rule reachable.step) (auto intro: sys_step.event)

lemma reachable_token_inv: "reachable (U, s) \<Longrightarrow> token_inv U s"
  using reachable_sys_inv [of "(U, s)"] by (simp add: sys_inv_def)

lemma reachable_boot: "reachable ({[], ''kid''}, boot_storage)"
  by (rule reachable.start, rule sys_init.boot, rule NewStorage_boot)

subsection \<open>An example run\<close>

text \<open>Alice has logged in to the seeded client and holds the pair \<open>r1\<close>, \<open>a1\<close>.\<close>

definition alice_request :: authRequest where
  "alice_request = (authRequestFromOIDC (example_wire exampleClientID [] []) [])
     \<lparr>ar_id := ''q1'', ar_userID := ''alice'', ar_done := True\<rparr>"

definition held :: storage where
  "held = exec (ECreateAccessAndRefreshTokens ''r1'' ''a1'' 0 0 0 (AuthReq alice_request) []) boot_storage"

definition held_ids :: "string set" where
  "held_ids = {[], ''kid''} \<union> {''r1'', ''a1''}"

lemma reachable_held: "reachable (held_ids, held)"
  using reachable_event [OF reachable_boot,
      of "ECreateAccessAndRefreshTokens ''r1'' ''a1'' 0 0 0 (AuthReq alice_request) []"]
  by (simp add: held_def held_ids_def)

lemma held_simps [simp]:
  "tokens held = fmupd ''a1'' (issuedToken ''r1'' ''a1'' 0 (AuthReq alice_request) boot_storage) fmempty"
  "refreshers held = fmupd ''r1'' 0 fmempty"
  "deref held 0 = issuedRefresh ''r1'' ''a1'' 0 (AuthReq alice_request) boot_storage"
  "rtNext held = 1"
  by (simp_all add: held_def CreateAccessAndRefreshTokens_issue issueTokens_eq deref_def)

lemma alice_request_simps [simp]:
  "ar_applicationID alice_request = exampleClientID" "ar_userID alice_request = ''alice''"
  "ar_scopes alice_request = [''openid'']"
  by (simp_all add: alice_request_def example_wire_def)

subsection \<open>What a token is worth\<close>

text \<open>
  An access token works when the userinfo endpoint answers for it, a refresh token when a rotation
  that presents it succeeds.
\<close>

definition access_works :: "time \<Rightarrow> string \<Rightarrow> storage \<Rightarrow> bool" where
  "access_works now tid s \<longleftrightarrow> fst (SetUserinfoFromToken now zero_UserInfo tid s s) = None"

definition refresh_works :: "time \<Rightarrow> string \<Rightarrow> storage \<Rightarrow> bool" where
  "refresh_works now r s \<longleftrightarrow>
     (case TokenRequestByRefreshToken r s of
        Inl err \<Rightarrow> False
      | Inr req \<Rightarrow> (case fst (CreateAccessAndRefreshTokens [] [] now now now req r s) of
                     Inl err \<Rightarrow> False | Inr res \<Rightarrow> r \<noteq> []))"

lemma access_works_iff:
  "access_works now tid s \<longleftrightarrow>
     (\<exists>t. fmlookup (tokens s) tid = Some t \<and> now \<le> tk_expiration t \<and> known (tk_subject t))"
  using setCoarseUserinfo_ok [of zero_UserInfo _ _ s]
  by (auto simp: access_works_def SetUserinfoFromToken_def not_less split: option.splits)

lemma access_works_gone: "fmlookup (tokens s) tid = None \<Longrightarrow> \<not> access_works now tid s"
  by (simp add: access_works_iff)

lemma rotate_result:
  "cur \<noteq> [] \<Longrightarrow> fst (CreateAccessAndRefreshTokens rid tid now1 now2 now3 req cur s) =
     (case fmlookup (refreshers s) cur of
        None \<Rightarrow> Inl InvalidRefreshToken
      | Some p \<Rightarrow> if rt_expiration (deref s p) < now2 then Inl ExpiredRefreshToken
                  else Inr (tid, rid, now1 + 15 * Minute))"
  by (simp add: CreateAccessAndRefreshTokens_rotate rotateTokens_eq split: option.splits)

lemma refresh_works_iff:
  "refresh_works now r s \<longleftrightarrow>
     (\<exists>p. fmlookup (refreshers s) r = Some p \<and> now \<le> rt_expiration (deref s p)) \<and> r \<noteq> []"
  by (cases "r = []"; cases "fmlookup (refreshers s) r")
    (simp_all add: refresh_works_def TokenRequestByRefreshToken_def rotate_result not_less
      split: sum.splits)

lemma refresh_works_gone: "fmlookup (refreshers s) r = None \<Longrightarrow> \<not> refresh_works now r s"
  by (simp add: refresh_works_iff)

text \<open>A presented refresh token that is not filed is refused, in whatever call.\<close>

lemma refused_gone:
  assumes "fmlookup (refreshers s) r = None" "r \<noteq> []"
  shows "TokenRequestByRefreshToken r s = Inl InvalidRefreshTokenParam"
    "fst (CreateAccessAndRefreshTokens rid tid now1 now2 now3 req r s) = Inl InvalidRefreshToken"
  using assms by (simp_all add: TokenRequestByRefreshToken_def rotate_result)

text \<open>Along a run, what is gone under a drawn id stays gone.\<close>

lemma gone_stays_gone:
  assumes "reachable x" "sys_step\<^sup>*\<^sup>* x y" "k \<in> fst x"
  shows "fmlookup (tokens (snd x)) k = None \<Longrightarrow> fmlookup (tokens (snd y)) k = None"
    "fmlookup (refreshers (snd x)) k = None \<Longrightarrow> fmlookup (refreshers (snd y)) k = None"
    "fmlookup (authRequests (snd x)) k = None \<Longrightarrow> fmlookup (authRequests (snd y)) k = None"
proof -
  have e: "evolves x y" using run_evolves assms(1,2) by blast
  show "fmlookup (tokens (snd x)) k = None \<Longrightarrow> fmlookup (tokens (snd y)) k = None"
    using e assms(3) unfolding evolves_def by (metis option.exhaust option.distinct(1))
  show "fmlookup (refreshers (snd x)) k = None \<Longrightarrow> fmlookup (refreshers (snd y)) k = None"
    using e assms(3) unfolding evolves_def by (metis option.exhaust option.distinct(1))
  show "fmlookup (authRequests (snd x)) k = None \<Longrightarrow> fmlookup (authRequests (snd y)) k = None"
    using e assms(3) unfolding evolves_def by blast
qed

subsection \<open>Properties: issuing and rotating\<close>

text \<open>
  A login or an approved device yields one linked pair: the access token lives 15 minutes, the
  refresh token 24 hours, both under their fresh ids with the subject, client, audience and scopes
  of the request; every other token is as before.
\<close>

theorem issue_spec:
  "CreateAccessAndRefreshTokens rid tid now1 now2 now3 req [] s =
     (Inr (tid, rid, now1 + 15 * Minute), s') \<Longrightarrow>
   fmlookup (tokens s') tid = Some
       \<lparr>tk_id = tid, tk_applicationID = fst (infoFromRequest s req), tk_subject = reqGetSubject s req,
        tk_refreshID = rid, tk_audience = reqGetAudience s req,
        tk_expiration = now1 + 15 * Minute, tk_scopes = reqGetScopes s req\<rparr>
   \<and> TokenRequestByRefreshToken rid s' = Inr (RefreshReq (rtNext s))
   \<and> reqGetSubject s' (RefreshReq (rtNext s)) = reqGetSubject s req
   \<and> reqGetScopes s' (RefreshReq (rtNext s)) = reqGetScopes s req
   \<and> reqGetAudience s' (RefreshReq (rtNext s)) = reqGetAudience s req
   \<and> infoFromRequest s' (RefreshReq (rtNext s)) = infoFromRequest s req
   \<and> rt_expiration (deref s' (rtNext s)) = now2 + 24 * Hour
   \<and> (k \<noteq> tid \<longrightarrow> fmlookup (tokens s') k = fmlookup (tokens s) k)
   \<and> (k \<noteq> rid \<longrightarrow> fmlookup (refreshers s') k = fmlookup (refreshers s) k)
   \<and> (p \<noteq> rtNext s \<longrightarrow> deref s' p = deref s p)"
  by (cases "infoFromRequest s req")
    (auto simp: CreateAccessAndRefreshTokens_issue issueTokens_eq issuedToken_def issuedRefresh_def
      TokenRequestByRefreshToken_def deref_def)

theorem issue_spec_witness:
  "GetRefreshTokenInfo ''r1'' held = Inr (''alice'', ''r1'') \<and> rt_expiration (deref held 0) = 24 * Hour"
proof -
  have "CreateAccessAndRefreshTokens ''r1'' ''a1'' 0 0 0 (AuthReq alice_request) [] boot_storage =
      (Inr (''a1'', ''r1'', 0 + 15 * Minute), held)"
    by (simp add: held_def CreateAccessAndRefreshTokens_issue)
  from issue_spec [OF this] show ?thesis
    by (simp add: GetRefreshTokenInfo_def issuedRefresh_def TokenRequestByRefreshToken_def)
qed

text \<open>
  C5. Rotation: presenting a live refresh token, in a state the program can be in and with fresh
  ids, swaps the pair. The presented refresh token and its access token are gone; the new refresh
  token is the old one with a new id and 24 more hours, for the same user, client, audience, scopes
  and login; every other pair is untouched.
\<close>

theorem rotation_spec:
  assumes "reachable (U, s)" "rid \<notin> U" "tid \<notin> U" "rid \<noteq> tid"
    and cur: "fmlookup (refreshers s) cur = Some p" and live: "now2 \<le> rt_expiration (deref s p)"
    and rot: "CreateAccessAndRefreshTokens rid tid now1 now2 now3 (RefreshReq p) cur s = (r, s')"
  shows "r = Inr (tid, rid, now1 + 15 * Minute)
    \<and> fmlookup (refreshers s') cur = None
    \<and> fmlookup (tokens s') (rt_accessTokenID (deref s p)) = None
    \<and> fmlookup (refreshers s') rid = Some p
    \<and> deref s' p = (deref s p)\<lparr>rt_id := rid, rt_accessTokenID := tid, rt_expiration := now3 + 24 * Hour\<rparr>
    \<and> fmlookup (tokens s') tid = Some
        \<lparr>tk_id = tid, tk_applicationID = rt_applicationID (deref s p), tk_subject = rt_userID (deref s p),
         tk_refreshID = rid, tk_audience = rt_audience (deref s p),
         tk_expiration = now1 + 15 * Minute, tk_scopes = rt_scopes (deref s p)\<rparr>
    \<and> (k \<notin> {cur, rid} \<longrightarrow> fmlookup (refreshers s') k = fmlookup (refreshers s) k)
    \<and> (k \<notin> {rt_accessTokenID (deref s p), tid} \<longrightarrow> fmlookup (tokens s') k = fmlookup (tokens s) k)
    \<and> (q \<noteq> p \<longrightarrow> deref s' q = deref s q)"
proof -
  note inv = reachable_token_inv [OF assms(1)]
  note ref = token_inv_refresh [OF inv cur]
  have ids: "cur \<noteq> rid" "rt_accessTokenID (deref s p) \<noteq> tid" using ref(1,5) assms(2,3) by auto
  have "r = Inr (tid, rid, now1 + 15 * Minute)"
    and s': "s' = installed rid p (rotatedRefresh rid tid now3 (deref s p)) (rtNext s)
               (retired cur p (filed rid tid now1 (RefreshReq p) s))"
    using rot cur live ref(2) by (auto simp: CreateAccessAndRefreshTokens_rotate rotateTokens_eq)
  then show ?thesis
    using ids by (simp add: rotatedRefresh_def issuedToken_def)
qed

theorem rotation_spec_witness:
  "\<exists>s'. CreateAccessAndRefreshTokens ''r2'' ''a2'' 60 60 60 (RefreshReq 0) ''r1'' held =
      (Inr (''a2'', ''r2'', 60 + 15 * Minute), s')
    \<and> fmlookup (refreshers s') ''r1'' = None \<and> fmlookup (tokens s') ''a1'' = None"
proof -
  obtain r s' where
    e: "CreateAccessAndRefreshTokens ''r2'' ''a2'' 60 60 60 (RefreshReq 0) ''r1'' held = (r, s')"
    by (cases "CreateAccessAndRefreshTokens ''r2'' ''a2'' 60 60 60 (RefreshReq 0) ''r1'' held")
  have live: "60 \<le> rt_expiration (deref held 0)"
    by (simp add: issuedRefresh_def Hour_def Minute_def Second_def)
  have fresh: "''r2'' \<notin> held_ids" "''a2'' \<notin> held_ids" "''r2'' \<noteq> ''a2''"
    and cur: "fmlookup (refreshers held) ''r1'' = Some 0" by (simp_all add: held_ids_def)
  from rotation_spec [OF reachable_held fresh cur live e] e show ?thesis by simp
qed

text \<open>
  C6. Replay protection: once a refresh token has been presented, whether the rotation succeeded or
  found it expired, then in every state any later run can reach it is refused, and the access token
  it was paired with does not work.
\<close>

theorem replay_refused:
  assumes "reachable (U, s)" "rid \<notin> U" "tid \<notin> U" "rid \<noteq> tid"
    and "fmlookup (refreshers s) cur = Some p"
    and run: "sys_step\<^sup>*\<^sup>* (U \<union> {rid, tid},
        snd (CreateAccessAndRefreshTokens rid tid now1 now2 now3 req cur s)) (U', t)"
  shows "TokenRequestByRefreshToken cur t = Inl InvalidRefreshTokenParam
    \<and> fst (CreateAccessAndRefreshTokens rid' tid' m1 m2 m3 req' cur t) = Inl InvalidRefreshToken
    \<and> \<not> access_works m (rt_accessTokenID (deref s p)) t"
proof -
  let ?e = "ECreateAccessAndRefreshTokens rid tid now1 now2 now3 req cur"
  let ?s = "snd (CreateAccessAndRefreshTokens rid tid now1 now2 now3 req cur s)"
  note inv = reachable_token_inv [OF assms(1)]
  note ref = token_inv_refresh [OF inv assms(5)]
  have reach: "reachable (U \<union> {rid, tid}, ?s)"
    using reachable_event [OF assms(1), of ?e] assms(2-4) by simp
  have ids: "cur \<noteq> rid" "rt_accessTokenID (deref s p) \<noteq> tid" using ref(1,5) assms(2,3) by auto
  have "fmlookup (refreshers ?s) cur = None" "fmlookup (tokens ?s) (rt_accessTokenID (deref s p)) = None"
    using assms(5) ref(2) ids by (auto simp: CreateAccessAndRefreshTokens_rotate rotateTokens_eq)
  then have "fmlookup (refreshers t) cur = None" "fmlookup (tokens t) (rt_accessTokenID (deref s p)) = None"
    using gone_stays_gone [OF reach run] ref(1,5) by simp_all
  then show ?thesis
    using refused_gone [of t cur] ref(2) access_works_gone [of t] by simp
qed

theorem replay_refused_witness:
  "TokenRequestByRefreshToken ''r1'' (snd (CreateAccessAndRefreshTokens ''r2'' ''a2'' 60 60 60
      (RefreshReq 0) ''r1'' held)) = Inl InvalidRefreshTokenParam"
proof -
  have fresh: "''r2'' \<notin> held_ids" "''a2'' \<notin> held_ids" "''r2'' \<noteq> ''a2''"
    and cur: "fmlookup (refreshers held) ''r1'' = Some 0" by (simp_all add: held_ids_def)
  from replay_refused [OF reachable_held fresh cur rtranclp.rtrancl_refl] show ?thesis by blast
qed

text \<open>
  A refused rotation is not free of effects: presenting a refresh token that is not stored
  returns an error and no token, yet the access token made for the request stays filed and works
  for 15 minutes. No caller is told its id.
\<close>

theorem refused_rotation_leaves_token:
  assumes "cur \<noteq> []" "fmlookup (refreshers s) cur = None"
    and "known (reqGetSubject s req)" "now \<le> now1 + 15 * Minute"
  shows "fst (CreateAccessAndRefreshTokens rid tid now1 now2 now3 req cur s) = Inl InvalidRefreshToken
    \<and> access_works now tid (snd (CreateAccessAndRefreshTokens rid tid now1 now2 now3 req cur s))"
  using assms
  by (simp add: access_works_iff CreateAccessAndRefreshTokens_rotate rotateTokens_eq issuedToken_def)

theorem refused_rotation_leaves_token_witness:
  "access_works 70 ''a2'' (snd (CreateAccessAndRefreshTokens ''r2'' ''a2'' 60 60 60 (RefreshReq 0)
      ''gone'' held))"
proof -
  have "known (reqGetSubject held (RefreshReq 0))"
    using known_iff [of "''alice''"] by (simp add: issuedRefresh_def)
  then show ?thesis
    using refused_rotation_leaves_token [of "''gone''" held "RefreshReq 0" 70 60 "''r2''" "''a2''" 60 60]
    by (simp add: Minute_def Second_def)
qed

text \<open>
  C38. Narrowing the scopes of one refresh sticks: the request object shares the stored refresh
  token, so after \<open>SetCurrentScopes\<close> and a rotation the new refresh token itself carries the
  narrowed scopes, and the original ones cannot be had again.
\<close>

theorem narrowing_persists:
  assumes "reachable (U, s)" "rid \<notin> U" "tid \<notin> U" "rid \<noteq> tid"
    and "fmlookup (refreshers s) cur = Some p" "now2 \<le> rt_expiration (deref s p)"
    and "s' = snd (CreateAccessAndRefreshTokens rid tid now1 now2 now3 (RefreshReq p) cur
                    (SetCurrentScopes p narrowed s))"
  shows "TokenRequestByRefreshToken rid s' = Inr (RefreshReq p)
    \<and> reqGetScopes s' (RefreshReq p) = narrowed
    \<and> (\<exists>t. fmlookup (tokens s') tid = Some t \<and> tk_scopes t = narrowed)"
proof -
  note inv = reachable_token_inv [OF assms(1)]
  note ref = token_inv_refresh [OF inv assms(5)]
  have "rt_accessTokenID (deref s p) \<noteq> tid" using ref(5) assms(3) by auto
  then show ?thesis
    using assms(5,6) ref(2)
    by (simp add: assms(7) CreateAccessAndRefreshTokens_rotate rotateTokens_eq issuedToken_def
        rotatedRefresh_def TokenRequestByRefreshToken_def deref_SetCurrentScopes)
qed

theorem narrowing_persists_witness:
  "reqGetScopes held (RefreshReq 0) = [''openid'']
   \<and> reqGetScopes (snd (CreateAccessAndRefreshTokens ''r2'' ''a2'' 60 60 60 (RefreshReq 0) ''r1''
        (SetCurrentScopes 0 [] held))) (RefreshReq 0) = []"
proof -
  have live: "60 \<le> rt_expiration (deref held 0)"
    by (simp add: issuedRefresh_def Hour_def Minute_def Second_def)
  have fresh: "''r2'' \<notin> held_ids" "''a2'' \<notin> held_ids" "''r2'' \<noteq> ''a2''"
    and cur: "fmlookup (refreshers held) ''r1'' = Some 0" by (simp_all add: held_ids_def)
  from narrowing_persists [OF reachable_held fresh cur live refl, of 60 60 "[]"]
  show ?thesis by (simp add: issuedRefresh_def)
qed

subsection \<open>Properties: revocation and session end\<close>

text \<open>
  C8. Pairing: in every state the program can be in, a live refresh token has at most one live
  access token, no two refresh ids share an object, and no id is both an access and a refresh token.
\<close>

theorem tokens_paired:
  assumes "reachable (U, s)"
  shows "(fmlookup (tokens s) k = Some t \<and> fmlookup (tokens s) k' = Some t'
        \<and> tk_refreshID t = tk_refreshID t' \<and> fmlookup (refreshers s) (tk_refreshID t) = Some p
        \<longrightarrow> k = k' \<and> rt_accessTokenID (deref s p) = k \<and> rt_id (deref s p) = tk_refreshID t)
    \<and> (fmlookup (refreshers s) r = Some q \<and> fmlookup (refreshers s) r' = Some q \<longrightarrow> r = r')
    \<and> (fmlookup (tokens s) x = None \<or> fmlookup (refreshers s) x = None)"
proof -
  note inv = reachable_token_inv [OF assms]
  have "fmlookup (tokens s) x = None \<or> fmlookup (refreshers s) x = None"
    using token_inv_token [OF inv, of x] by (cases "fmlookup (tokens s) x") auto
  moreover have "k = k' \<and> rt_accessTokenID (deref s p) = k \<and> rt_id (deref s p) = tk_refreshID t"
    if "fmlookup (tokens s) k = Some t" "fmlookup (tokens s) k' = Some t'"
      "tk_refreshID t = tk_refreshID t'" "fmlookup (refreshers s) (tk_refreshID t) = Some p"
    using token_inv_pair [OF inv that(1,4)] token_inv_pair [OF inv that(2)] that(3,4)
      token_inv_refresh(4) [OF inv that(4)] by simp
  ultimately show ?thesis using token_inv_inj [OF inv] by blast
qed

theorem tokens_paired_witness:
  "fmlookup (tokens held) ''a1'' \<noteq> None \<and> fmlookup (refreshers held) ''a1'' = None"
  using tokens_paired [OF reachable_held, of _ _ _ _ _ _ _ _ "''a1''"] by simp

text \<open>
  C12. Revoking a refresh token kills the pair for good and a client can only revoke its own: in a
  state the program can be in, the owner's revocation succeeds and in every later run neither the
  refresh token nor its access token works; any other client is refused and nothing changes.
\<close>

theorem revoke_refresh_token:
  assumes "reachable (U, s)" "fmlookup (refreshers s) r = Some p"
  shows "if clientID = rt_applicationID (deref s p)
    then fst (RevokeToken r clientID s) = None
      \<and> (\<forall>U' t. sys_step\<^sup>*\<^sup>* (U, snd (RevokeToken r clientID s)) (U', t) \<longrightarrow>
           \<not> refresh_works now r t \<and> \<not> access_works now (rt_accessTokenID (deref s p)) t)
    else RevokeToken r clientID s = (Some NotIssuedForClient, s)"
proof -
  note inv = reachable_token_inv [OF assms(1)]
  note ref = token_inv_refresh [OF inv assms(2)]
  have tok: "fmlookup (tokens s) r = None"
    using token_inv_token [OF inv] assms(2) by (metis option.exhaust option.distinct(1))
  show ?thesis
  proof (cases "clientID = rt_applicationID (deref s p)")
    case False
    with tok assms(2) show ?thesis by (simp add: RevokeToken_def)
  next
    case True
    let ?s = "snd (RevokeToken r clientID s)"
    from True tok assms(2) have rev: "RevokeToken r clientID s = (None, s\<lparr>refreshers :=
        fmdrop (rt_id (deref s p)) (refreshers s), tokens := fmdrop (rt_accessTokenID (deref s p)) (tokens s)\<rparr>)"
      by (simp add: RevokeToken_def Let_def)
    have reach: "reachable (U, ?s)"
      using reachable_event [OF assms(1), of "ERevokeToken r clientID"] by simp
    have gone: "fmlookup (refreshers ?s) r = None" "fmlookup (tokens ?s) (rt_accessTokenID (deref s p)) = None"
      using ref(4) by (simp_all add: rev)
    have "\<not> refresh_works now r t \<and> \<not> access_works now (rt_accessTokenID (deref s p)) t"
      if run: "sys_step\<^sup>*\<^sup>* (U, ?s) (U', t)" for U' t
      using gone_stays_gone [OF reach run] gone ref(1,5) refresh_works_gone access_works_gone by simp
    with True rev show ?thesis by simp
  qed
qed

theorem revoke_refresh_token_witness:
  "\<not> refresh_works 60 ''r1'' (snd (RevokeToken ''r1'' exampleClientID held))
   \<and> RevokeToken ''r1'' ''orders'' held = (Some NotIssuedForClient, held)"
proof -
  have cur: "fmlookup (refreshers held) ''r1'' = Some 0" by simp
  have app: "rt_applicationID (deref held 0) = exampleClientID" "''orders'' \<noteq> exampleClientID"
    by (simp_all add: issuedRefresh_def exampleClientID_def)
  from revoke_refresh_token [OF reachable_held cur, of exampleClientID 60]
    revoke_refresh_token [OF reachable_held cur, of "''orders''" 60] app
  show ?thesis by auto
qed

text \<open>
  C27. Ending a session, in whatever order the runtime ranges over the tokens: afterwards no access
  token of that user at that client is stored and no refresh token such an access token named; every
  other access token, and every refresh token no removed access token named, is as before.
\<close>

theorem TerminateSession_spec:
  assumes "enumerates ks (tokens s)"
  shows "fmlookup (tokens (TerminateSession_range ks u c s)) k =
      (case fmlookup (tokens s) k of
         None \<Rightarrow> None
       | Some t \<Rightarrow> if tk_subject t = u \<and> tk_applicationID t = c then None else Some t)
    \<and> fmlookup (refreshers (TerminateSession_range ks u c s)) r =
      (if \<exists>x t. fmlookup (tokens s) x = Some t \<and> tk_subject t = u \<and> tk_applicationID t = c
                \<and> tk_refreshID t = r
       then None else fmlookup (refreshers s) r)"
  using assms
  by (auto simp: lookup_TerminateSession_range ends_refresh_iff split: option.splits)

theorem TerminateSession_spec_witness:
  "enumerates [''a1''] (tokens held)
   \<and> refreshers (TerminateSession_range [''a1''] ''alice'' exampleClientID held) = fmempty"
proof -
  have e: "enumerates [''a1''] (tokens held)" by (simp add: enumerates_def)
  have "fmlookup (refreshers (TerminateSession_range [''a1''] ''alice'' exampleClientID held)) r = None" for r
    using TerminateSession_spec [OF e, of "''alice''" exampleClientID "''a1''" r]
    by (auto simp: issuedToken_def split: if_splits)
  then show ?thesis using e by (auto intro: fmap_ext)
qed

text \<open>
  C36. Ending a session can miss a refresh token: it is found only through its stored access token,
  so once that access token was revoked, the refresh token survives the end of the session and
  still rotates.
\<close>

theorem session_end_misses_refresh:
  assumes "reachable (U, s)" "fmlookup (refreshers s) r = Some p"
    and live: "now \<le> rt_expiration (deref s p)"
    and a: "fmlookup (tokens s) (rt_accessTokenID (deref s p)) = Some t"
  shows "refresh_works now r
      (TerminateSession (rt_userID (deref s p)) (rt_applicationID (deref s p))
        (snd (RevokeToken (rt_accessTokenID (deref s p)) (tk_applicationID t) s)))"
proof -
  let ?a = "rt_accessTokenID (deref s p)"
  let ?s = "snd (RevokeToken ?a (tk_applicationID t) s)"
  note inv = reachable_token_inv [OF assms(1)]
  note ref = token_inv_refresh [OF inv assms(2)]
  have rev: "?s = s\<lparr>tokens := fmdrop ?a (tokens s)\<rparr>"
    using a token_inv_token [OF inv a] by (simp add: RevokeToken_def)
  have "\<not> ends_refresh (tokens ?s) u c r" for u c
  proof
    assume "ends_refresh (tokens ?s) u c r"
    then obtain k t' where k: "fmlookup (tokens ?s) k = Some t'" "tk_refreshID t' = r"
      by (auto simp: ends_refresh_iff)
    then have "fmlookup (tokens s) k = Some t'" "k \<noteq> ?a" by (auto simp: rev split: if_splits)
    then show False using token_inv_pair [OF inv _ assms(2) [folded k(2)]] by blast
  qed
  then have "fmlookup (refreshers (TerminateSession u c ?s)) r = Some p" for u c
    using assms(2) by (simp add: lookup_TerminateSession rev)
  moreover have "deref (TerminateSession u c ?s) p = deref s p" for u c
    unfolding rev by (simp add: deref_def)
  ultimately show ?thesis using live ref(2) by (simp add: refresh_works_iff)
qed

theorem session_end_misses_refresh_witness:
  "refresh_works 60 ''r1''
     (TerminateSession ''alice'' exampleClientID (snd (RevokeToken ''a1'' exampleClientID held)))"
proof -
  have cur: "fmlookup (refreshers held) ''r1'' = Some 0" by simp
  have live: "60 \<le> rt_expiration (deref held 0)"
    by (simp add: issuedRefresh_def Hour_def Minute_def Second_def)
  have a: "fmlookup (tokens held) (rt_accessTokenID (deref held 0)) =
      Some (issuedToken ''r1'' ''a1'' 0 (AuthReq alice_request) boot_storage)" by simp
  from session_end_misses_refresh [OF reachable_held cur live a] show ?thesis
    by (simp add: issuedRefresh_def issuedToken_def)
qed

text \<open>
  C37. Tokens of a device login belong to no client: a token request that is neither an auth request
  nor a refresh token is issued a pair with the empty client id, so no client with a name can revoke
  either half, and the refresh token names no client.
\<close>

theorem device_tokens_unowned:
  assumes "reachable (U, s)" "rid \<notin> U" "tid \<notin> U" "rid \<noteq> tid" "clientID \<noteq> []"
    and "s' = snd (CreateAccessAndRefreshTokens rid tid now1 now2 now3 (OtherReq req) [] s)"
  shows "RevokeToken tid clientID s' = (Some NotIssuedForClient, s')
    \<and> RevokeToken rid clientID s' = (Some NotIssuedForClient, s')
    \<and> fst (infoFromRequest s' (RefreshReq (rtNext s))) = []"
proof -
  have "fmlookup (tokens s) rid = None"
    using token_inv_fresh(1) [OF reachable_token_inv [OF assms(1)] assms(2)] .
  with assms(4-6) show ?thesis
    by (simp add: CreateAccessAndRefreshTokens_issue issueTokens_eq RevokeToken_def deref_def
        issuedToken_def issuedRefresh_def)
qed

theorem device_tokens_unowned_witness:
  "fst (RevokeToken ''a2'' exampleClientID (snd (CreateAccessAndRefreshTokens ''r2'' ''a2'' 0 0 0
      (OtherReq \<lparr>otr_Subject = ''bob'', otr_Audience = [exampleClientID], otr_Scopes = []\<rparr>) [] held))) =
    Some NotIssuedForClient"
proof -
  have fresh: "''r2'' \<notin> held_ids" "''a2'' \<notin> held_ids" "''r2'' \<noteq> ''a2''" "exampleClientID \<noteq> []"
    by (simp_all add: held_ids_def exampleClientID_def)
  from device_tokens_unowned [OF reachable_held fresh refl] show ?thesis by simp
qed

end
