(* ===== verification/Guarantees.thy ===== *)
theory Guarantees
  imports Lifecycle
begin

text \<open>
  What holds of logins, device flows, the registry and the signing key in every state the program
  can be in and along every run, and the authorization-code login from request to userinfo.
\<close>

lemma reachable_invs:
  assumes "reachable (U, s)"
  shows "client_inv s" "auth_inv U s" "device_inv U s"
  using reachable_sys_inv [OF assms] by (simp_all add: sys_inv_def)

lemma NewStorage_fixed:
  "NewStorage key kid cs = Inr s \<Longrightarrow> sk_algorithm (signKey s) = RS256 \<and> seedIDs s = fmdom cs"
  by (cases key) (auto simp: NewStorage_def)

lemma reachable_fixed:
  "reachable x \<Longrightarrow> sk_algorithm (signKey (snd x)) = RS256 \<and> seedIDs (snd x) = {|exampleClientID|}"
proof (induction rule: reachable.induct)
  case (start x)
  have "fmdom (seedClients uris) = {|exampleClientID|}" for uris
    by (simp add: seedClients_def Let_def)
  with start show ?case by (cases rule: sys_init.cases) (auto dest: NewStorage_fixed)
next
  case (step x y)
  then show ?case by (auto simp: sys_step.simps)
qed

subsection \<open>Logins\<close>

text \<open>
  The OP never sees a finished login without an identity: in every state the program can be in,
  an auth request found by its id carries that id; once done its subject is a built-in identity and
  its AMR the passwordless one; before, its AMR is empty.
\<close>

theorem finished_login_has_identity:
  assumes "reachable (U, s)" "AuthRequestByID rid s = Inr req"
  shows "ar_id req = rid
    \<and> (if Done req then known (GetSubject req) \<and> GetAMR req = [''none''] else GetAMR req = [])"
  using auth_invD [OF reachable_invs(2) [OF assms(1)]] assms(2)
  by (auto simp: AuthRequestByID_Inr Done_def GetSubject_def GetAMR_def)

definition asked :: storage where
  "asked = exec (ECreateAuthRequest ''q1'' (example_wire exampleClientID [] []) []) boot_storage"

lemma reachable_asked: "reachable ({[], ''kid''} \<union> {''q1''}, asked)"
  using reachable_event [OF reachable_boot,
      of "ECreateAuthRequest ''q1'' (example_wire exampleClientID [] []) []"]
  by (simp add: asked_def)

lemma asked_simps:
  "authRequests asked = fmupd ''q1''
     ((authRequestFromOIDC (example_wire exampleClientID [] []) [])\<lparr>ar_id := ''q1''\<rparr>) fmempty"
  "codes asked = fmempty"
  by (simp_all add: asked_def CreateAuthRequest_def example_wire_def seedClients_def Let_def
      requirePKCES256_def IsPublic_def)

theorem finished_login_has_identity_witness:
  "\<exists>req. AuthRequestByID ''q1'' asked = Inr req \<and> ar_id req = ''q1'' \<and> GetAMR req = []"
proof -
  obtain req where r: "AuthRequestByID ''q1'' asked = Inr req" "\<not> Done req"
    by (simp add: AuthRequestByID_def asked_simps Done_def)
  from finished_login_has_identity [OF reachable_asked r(1)] r show ?thesis by auto
qed

text \<open>
  C11. An authorization request is used once: after it is deleted, in every state any later run
  reaches, its id finds nothing, it cannot be completed, and a code that still or again leads to it
  is refused.
\<close>

theorem auth_request_single_use:
  assumes "reachable (U, s)" "AuthRequestByID rid s = Inr req"
    and run: "sys_step\<^sup>*\<^sup>* (U, DeleteAuthRequest rid s) (U', t)"
  shows "AuthRequestByID rid t = Inl AuthRequestNotFound
    \<and> fst (CompleteAuthRequest now rid subject t) \<noteq> None
    \<and> snd (CompleteAuthRequest now rid subject t) = t
    \<and> (if fmlookup (codes t) code = Some rid
       then AuthRequestByCode code t t = Inl AuthRequestNotFound
       else AuthRequestByCode code t t \<noteq> Inr req)"
proof -
  have r: "rid \<in> U" "ar_id req = rid"
    using auth_invD [OF reachable_invs(2) [OF assms(1)]] assms(2) by (auto simp: AuthRequestByID_Inr)
  have reach: "reachable (U, DeleteAuthRequest rid s)"
    using reachable_event [OF assms(1), of "EDeleteAuthRequest rid"] by simp
  have gone: "fmlookup (authRequests t) rid = None"
    using gone_stays_gone(3) [OF reach run] r by (simp add: lookup_DeleteAuthRequest)
  have "AuthRequestByCode code t t \<noteq> Inr req" if "fmlookup (codes t) code \<noteq> Some rid"
  proof
    assume "AuthRequestByCode code t t = Inr req"
    then obtain k where "fmlookup (codes t) code = Some k" "fmlookup (authRequests t) k = Some req"
      by (auto simp: AuthRequestByCode_Inr)
    moreover have "reachable (U', t)" using reachable_steps [OF run reach] .
    ultimately show False
      using auth_invD [OF reachable_invs(2)] r(2) that by fastforce
  qed
  moreover have "fst (CompleteAuthRequest now rid subject t) \<noteq> None"
    using gone by (simp add: CompleteAuthRequest_ok fmlookup_dom'_iff)
  ultimately show ?thesis
    using gone CompleteAuthRequest_fails by (auto simp: AuthRequestByID_def AuthRequestByCode_def)
qed

theorem auth_request_single_use_witness:
  "AuthRequestByID ''q1'' (DeleteAuthRequest ''q1'' asked) = Inl AuthRequestNotFound
   \<and> fst (CompleteAuthRequest 5 ''q1'' ''alice'' (DeleteAuthRequest ''q1'' asked)) \<noteq> None"
proof -
  obtain req where r: "AuthRequestByID ''q1'' asked = Inr req"
    by (simp add: AuthRequestByID_def asked_simps)
  from auth_request_single_use [OF reachable_asked r rtranclp.rtrancl_refl] show ?thesis by blast
qed

text \<open>
  C1. The code flow end to end: a created request, completed as a built-in identity and given a
  code, is what the code leads to; the pair issued for it makes the userinfo endpoint answer for
  that identity and the introspection endpoint answer the asking client, after the request and its
  code are deleted, and the code leads nowhere.
\<close>

theorem login_end_to_end:
  assumes create: "CreateAuthRequest uid ar u s = (Inr req, s1)"
    and sub: "known subject" and cid: "o_ClientID ar \<noteq> []"
    and live: "now \<le> now1 + 15 * Minute"
    and s2: "s2 = snd (CompleteAuthRequest t0 uid subject s1)"
    and s3: "s3 = SaveAuthCode uid code s2"
    and s4: "s4 = snd (CreateAccessAndRefreshTokens rid tid now1 now2 now3
                    (AuthReq (req\<lparr>ar_userID := subject, ar_authTime := t0, ar_done := True\<rparr>)) [] s3)"
    and s5: "s5 = DeleteAuthRequest uid s4"
  shows "AuthRequestByCode code s3 s3 =
        Inr (req\<lparr>ar_userID := subject, ar_authTime := t0, ar_done := True\<rparr>)
    \<and> AuthRequestByCode code s5 s5 = Inl CodeInvalid
    \<and> fst (SetUserinfoFromToken now zero_UserInfo tid s5 s5) = None
    \<and> ui_Subject (snd (SetUserinfoFromToken now zero_UserInfo tid s5 s5)) = subject
    \<and> fst (SetIntrospectionFromToken lib now resp tid (o_ClientID ar) s5 s5) = None
    \<and> ir_ClientID (snd (SetIntrospectionFromToken lib now resp tid (o_ClientID ar) s5 s5)) = o_ClientID ar
    \<and> ir_Scope (snd (SetIntrospectionFromToken lib now resp tid (o_ClientID ar) s5 s5)) = o_Scopes ar"
proof -
  let ?req = "req\<lparr>ar_userID := subject, ar_authTime := t0, ar_done := True\<rparr>"
  from create have req: "req = (authRequestFromOIDC ar u)\<lparr>ar_id := uid\<rparr>"
    and s1: "fmlookup (authRequests s1) uid = Some req"
    by (cases rule: CreateAuthRequest_cases [of uid ar u s]; auto)+
  obtain i where i: "identityBySubject subject = Some i" using sub by blast
  have s2': "fmlookup (authRequests s2) uid = Some ?req"
    using s1 sub by (simp add: s2 lookup_CompleteAuthRequest)
  have c3: "fmlookup (codes s3) code = Some uid" "fmlookup (authRequests s3) uid = Some ?req"
    using s2' by (simp_all add: s3 SaveAuthCode_def)
  have "fmlookup (codes s4) code = Some uid"
    using c3 by (simp add: s4 CreateAccessAndRefreshTokens_issue issueTokens_eq)
  then have c5: "fmlookup (codes s5) code = None" by (simp add: s5 lookup_DeleteAuthRequest)
  have t5: "fmlookup (tokens s5) tid = Some (issuedToken rid tid now1 (AuthReq ?req) s3)"
    by (simp add: s5 DeleteAuthRequest_eq s4 CreateAccessAndRefreshTokens_issue issueTokens_eq)
  have "o_ClientID ar = ar_applicationID req" "o_Scopes ar = ar_scopes req" by (simp_all add: req)
  then show ?thesis
    using c3 c5 t5 live i
    by (simp add: AuthRequestByCode_def AuthRequestByID_def SetUserinfoFromToken_def
        SetIntrospectionFromToken_def issuedToken_def setCoarseUserinfo_known AppendClaims_def
        GetAudience_def not_less)
qed

theorem login_end_to_end_witness:
  "\<exists>s5. fst (SetUserinfoFromToken 60 zero_UserInfo ''a1'' s5 s5) = None
     \<and> ui_Subject (snd (SetUserinfoFromToken 60 zero_UserInfo ''a1'' s5 s5)) = ''alice''"
proof -
  let ?ar = "example_wire exampleClientID [] []"
  obtain req s1 where c: "CreateAuthRequest ''q1'' ?ar [] boot_storage = (Inr req, s1)"
    by (simp add: CreateAuthRequest_def example_wire_def seedClients_def Let_def
        requirePKCES256_def IsPublic_def)
  have k: "known ''alice''" by (subst known_iff) simp
  have cid: "o_ClientID ?ar \<noteq> []" by (simp add: example_wire_def exampleClientID_def)
  have live: "60 \<le> 0 + 15 * Minute" by (simp add: Minute_def Second_def)
  from login_end_to_end [OF c k cid live refl refl refl refl] show ?thesis by blast
qed

subsection \<open>Device flows\<close>

text \<open>
  A user code that was never stored reaches no flow: in every state the program can be in it can
  be neither shown, approved nor denied. The storage indexes the device map with the empty string
  then, and no flow has the empty device code.
\<close>

theorem unknown_user_code_fails_closed:
  assumes "reachable (U, s)" "uc \<notin> fmdom' (userCodes s)"
  shows "GetDeviceAuthorizationByUserCode uc s = Inl UserCodeNotFound
    \<and> fst (CompleteDeviceAuthorization now uc subject s) \<noteq> None
    \<and> snd (CompleteDeviceAuthorization now uc subject s) = s
    \<and> DenyDeviceAuthorization uc s = (Some UserCodeNotFound, s)"
proof -
  have none: "fmlookup (deviceCodes s) (userCodeIndex uc s) = None"
    using reachable_invs(3) [OF assms(1)] userCodeIndex_unknown [OF assms(2)]
    by (simp add: device_inv_def)
  then have "fst (CompleteDeviceAuthorization now uc subject s) \<noteq> None"
    by (simp add: CompleteDeviceAuthorization_ok fmlookup_dom'_iff)
  with none show ?thesis
    using CompleteDeviceAuthorization_fails
    by (simp add: GetDeviceAuthorizationByUserCode_def DenyDeviceAuthorization_def)
qed

theorem unknown_user_code_fails_closed_witness:
  "GetDeviceAuthorizationByUserCode [] boot_storage = Inl UserCodeNotFound
   \<and> DenyDeviceAuthorization [] boot_storage = (Some UserCodeNotFound, boot_storage)"
  using unknown_user_code_fails_closed [OF reachable_boot, of "[]"] by simp

text \<open>
  C18. A device flow only moves forward: along every run it can still be polled by its client, with
  the same scopes and expiry; done stays done, denied stays denied, and done always means a built-in
  identity with the passwordless AMR.
\<close>

theorem device_flow_moves_forward:
  assumes "reachable (U, s)" "GetDeviceAuthorizatonState None cid dc s = Inr st"
    and run: "sys_step\<^sup>*\<^sup>* (U, s) (U', t)"
  shows "\<exists>st'. GetDeviceAuthorizatonState None cid dc t = Inr st'
    \<and> ds_Scopes st' = ds_Scopes st \<and> ds_Expires st' = ds_Expires st
    \<and> (ds_Done st \<longrightarrow> ds_Done st') \<and> (ds_Denied st \<longrightarrow> ds_Denied st')
    \<and> (if ds_Done st' then known (ds_Subject st') \<and> ds_AMR st' = [''none''] else ds_Subject st' = [])"
proof -
  obtain en where en: "fmlookup (deviceCodes s) dc = Some en" "ds_ClientID (de_state en) = cid"
    "de_state en = st"
    using assms(2) by (auto simp: GetDeviceAuthorizatonState_def split: option.splits if_splits)
  have "evolves (U, s) (U', t)" and t: "reachable (U', t)"
    using run_evolves [OF assms(1) run] by simp_all
  then obtain en' where en': "fmlookup (deviceCodes t) dc = Some en'" "flow_le en en'"
    using en(1) unfolding evolves_def fst_conv snd_conv by blast
  have "done_known (de_state en')" using device_invD(5) [OF reachable_invs(3) [OF t] en'(1)] .
  with en en' show ?thesis
    by (intro exI [of _ "de_state en'"])
      (auto simp: GetDeviceAuthorizatonState_def flow_le_def done_known_def split: if_splits)
qed

definition flow_event :: event where
  "flow_event = EStoreDeviceAuthorization exampleClientID ''dc'' ''BCDF-GHJK'' 300 [''openid'']"

lemma example_flow_exec: "exec flow_event boot_storage = example_flow"
  by (simp add: flow_event_def example_flow_def)

lemma reachable_flow: "reachable ({[], ''kid''} \<union> {''dc''}, example_flow)"
  using reachable_event [OF reachable_boot, of flow_event] unfolding example_flow_exec
  by (simp add: flow_event_def)

theorem device_flow_moves_forward_witness:
  "\<exists>st. GetDeviceAuthorizatonState None exampleClientID ''dc''
      (snd (DenyDeviceAuthorization ''BCDF-GHJK'' example_flow)) = Inr st \<and> ds_Scopes st = [''openid'']"
proof -
  obtain st where st: "GetDeviceAuthorizatonState None exampleClientID ''dc'' example_flow = Inr st"
    "ds_Scopes st = [''openid'']"
    by (simp add: example_flow_def StoreDeviceAuthorization_def GetDeviceAuthorizatonState_def
        seedClients_def Let_def)
  have "sys_step ({[], ''kid''} \<union> {''dc''}, example_flow)
      ({[], ''kid''} \<union> {''dc''} \<union> set (drawn (EDenyDeviceAuthorization ''BCDF-GHJK'')),
       exec (EDenyDeviceAuthorization ''BCDF-GHJK'') example_flow)"
    by (rule sys_step.event) simp_all
  then have "sys_step\<^sup>*\<^sup>* ({[], ''kid''} \<union> {''dc''}, example_flow)
      ({[], ''kid''} \<union> {''dc''}, snd (DenyDeviceAuthorization ''BCDF-GHJK'' example_flow))"
    by (simp add: r_into_rtranclp)
  from device_flow_moves_forward [OF reachable_flow st(1) this] st(2) show ?thesis by auto
qed

subsection \<open>The registry and the signing key\<close>

text \<open>
  The registry in every state the program can be in: the seeded client can be looked up whatever
  was registered or reloaded, every client is filed under its own id, and the tiles and the
  entitlement list name exactly the clients that can be looked up.
\<close>

theorem registry_always_seeded:
  assumes "reachable (U, s)"
  shows "(\<exists>c. GetClientByClientID exampleClientID s = Inr c)
    \<and> (\<forall>cid. case GetClientByClientID cid s of
           Inl err \<Rightarrow> err = ClientNotFound cid \<and> cid \<notin> set (allClientIDs s)
         | Inr c \<Rightarrow> GetID c = cid \<and> cid \<in> set (allClientIDs s))
    \<and> map ct_ClientID (ClientTiles s) = allClientIDs s"
proof -
  note inv = reachable_invs(1) [OF assms]
  have "exampleClientID \<in> fmdom' (clients s)"
    using inv reachable_fixed [OF assms] by (auto simp: client_inv_def)
  then have seed: "\<exists>c. GetClientByClientID exampleClientID s = Inr c"
    by (auto simp: GetClientByClientID_def fmlookup_dom'_iff)
  have "case GetClientByClientID cid s of
           Inl err \<Rightarrow> err = ClientNotFound cid \<and> cid \<notin> set (allClientIDs s)
         | Inr c \<Rightarrow> GetID c = cid \<and> cid \<in> set (allClientIDs s)" for cid
    using inv
    by (auto simp: GetClientByClientID_def client_inv_def GetID_def allClientIDs_eq fmlookup_dom'_iff
        split: option.splits)
  moreover have "map ct_ClientID (ClientTiles s) = allClientIDs s"
    by (simp add: ClientTiles_def ClientTiles_range_ids)
  ultimately show ?thesis using seed by blast
qed

theorem registry_always_seeded_witness:
  "\<exists>c. GetClientByClientID exampleClientID example_flow = Inr c"
  using registry_always_seeded [OF reachable_flow] by blast

text \<open>
  One key for the whole life of the process: along every run the key set published for
  verification stays the same, holds one RS256 signature key, and is the public half, under the same
  id, of the key the tokens are signed with.
\<close>

theorem published_key_matches:
  assumes "reachable (U, s)" "sys_step\<^sup>*\<^sup>* (U, s) (U', t)"
  shows "KeySet t = KeySet s
    \<and> (\<exists>priv pub. SigningKey t = Inr priv \<and> KeySet s = Inr [pub] \<and> pub_ID pub = sign_ID priv
         \<and> pub_Key pub = rsa_PublicKey (sign_Key priv) \<and> pub_Use pub = ''sig''
         \<and> SignatureAlgorithms t = Inr [RS256] \<and> pub_Algorithm pub = RS256 \<and> sign_Algorithm priv = RS256)"
proof -
  have "evolves (U, s) (U', t)" using run_evolves assms by blast
  then have "signKey t = signKey s" by (simp add: evolves_def)
  then show ?thesis
    using reachable_fixed [OF assms(1)]
    by (simp add: KeySet_def SigningKey_def SignatureAlgorithms_def publicKeyView_def signingKeyView_def)
qed

theorem published_key_matches_witness:
  "\<exists>pub. KeySet boot_storage = Inr [pub] \<and> pub_Algorithm pub = RS256"
  using published_key_matches [OF reachable_boot rtranclp.rtrancl_refl] by blast

end
