(* ===== verification/Utf8.thy ===== *)
theory Utf8
  imports Prelude
begin

text \<open>
  UTF-8 as \<open>unicode/utf8\<close> decodes it, and the hexadecimal digits and the backslash of the escapes the
  standard library writes. A string is its bytes, valid UTF-8 or not.
\<close>

definition between :: "nat \<Rightarrow> nat \<Rightarrow> char \<Rightarrow> bool" where
  "between lo hi c \<longleftrightarrow> lo \<le> of_char c \<and> of_char c \<le> hi"

definition continuation :: "char \<Rightarrow> bool" where
  "continuation c \<longleftrightarrow> between 0x80 0xBF c"

text \<open>
  \<open>utf8.DecodeRuneInString\<close> on a string whose first byte is not ASCII: the length of the encoding,
  or 0 for \<open>RuneError\<close> with size 1.
\<close>

fun runeLen :: "string \<Rightarrow> nat" where
  "runeLen (a # b # s) =
     (if between 0xC2 0xDF a then (if continuation b then 2 else 0)
      else if between 0xE0 0xEF a then
        (if (if a = CHR 0xE0 then between 0xA0 0xBF b
             else if a = CHR 0xED then between 0x80 0x9F b else continuation b)
         then (case s of c # _ \<Rightarrow> if continuation c then 3 else 0 | [] \<Rightarrow> 0) else 0)
      else if between 0xF0 0xF4 a then
        (if (if a = CHR 0xF0 then between 0x90 0xBF b
             else if a = CHR 0xF4 then between 0x80 0x8F b else continuation b)
         then (case s of c # d # _ \<Rightarrow> if continuation c \<and> continuation d then 4 else 0 | _ \<Rightarrow> 0)
         else 0)
      else 0)"
| "runeLen s = 0"

definition lowerhex :: "nat \<Rightarrow> char" where
  "lowerhex n = ''0123456789abcdef'' ! n"

definition backslash :: char where
  "backslash = CHR 0x5C"

text \<open>The code point of a valid encoding: the payload bits of its bytes.\<close>

definition payload :: "char \<Rightarrow> nat" where
  "payload c = of_char c mod 64"

fun runeValue :: "string \<Rightarrow> nat" where
  "runeValue [a, b] = (of_char a mod 32) * 64 + payload b"
| "runeValue [a, b, c] = (of_char a mod 16) * 4096 + payload b * 64 + payload c"
| "runeValue [a, b, c, d] = (of_char a mod 8) * 262144 + payload b * 4096 + payload c * 64 + payload d"
| "runeValue s = 0"

text \<open>The bytes that end no line and move no terminal.\<close>

definition printable :: "char \<Rightarrow> bool" where
  "printable c \<longleftrightarrow> 0x20 \<le> (of_char c :: nat) \<and> c \<noteq> CHR 0x7F"

definition is_line :: "string \<Rightarrow> bool" where
  "is_line s \<longleftrightarrow> list_all printable s"

lemma is_line_simps [simp]:
  "is_line []" "is_line (c # s) \<longleftrightarrow> printable c \<and> is_line s" "is_line (s @ t) \<longleftrightarrow> is_line s \<and> is_line t"
  by (simp_all add: is_line_def)

lemma nibble: "(of_char c div 16 :: nat) < 16" "n mod 16 < (16::nat)"
  by (rule less_mult_imp_div_less) simp_all

lemma printable_lowerhex: "n < 16 \<Longrightarrow> printable (lowerhex n)"
proof -
  have "\<forall>n \<in> set [0..<16]. printable (lowerhex n)" by code_simp
  then show "n < 16 \<Longrightarrow> printable (lowerhex n)" by auto
qed

text \<open>Every byte of a multi-byte encoding is above ASCII.\<close>

lemma between_high: "between lo hi c \<Longrightarrow> 0x80 \<le> lo \<Longrightarrow> printable c"
  by (auto simp: between_def printable_def)

lemma runeLen_high:
  assumes "\<not> between 0 0x7F a" "c \<in> set (take (runeLen (a # s)) (a # s))"
  shows "printable c"
proof -
  have high: "printable c" if "0x80 \<le> (of_char c :: nat)" for c
    using that by (auto simp: printable_def)
  have a: "0x80 \<le> (of_char a :: nat)" using assms(1) by (simp add: between_def)
  show ?thesis
    using assms(2) a
    by (cases "a # s" rule: runeLen.cases)
      (auto simp: between_def continuation_def intro!: high split: if_splits list.splits)
qed

end
