(* ===== verification/GoFmt.thy ===== *)
theory GoFmt
  imports Utf8
begin

text \<open>
  How the errors read: the verbs \<open>%q\<close> and \<open>%d\<close> of \<open>fmt\<close>, and the text of every error the code makes.
  \<open>isPrint\<close> is \<open>unicode.IsPrint\<close> above ASCII, a table of the standard library. \<open>ext\<close> is the text of an
  error made by a library, or of the library's error a file error wraps.
\<close>

subsection \<open>The verbs\<close>

definition quoteAscii :: "char \<Rightarrow> string" where
  "quoteAscii c =
     (if c = CHR 0x22 \<or> c = backslash then [backslash, c]
      else if between 0x20 0x7E c then [c]
      else if c = CHR 0x07 then [backslash, CHR ''a'']
      else if c = CHR 0x08 then [backslash, CHR ''b'']
      else if c = CHR 0x0C then [backslash, CHR ''f'']
      else if c = CHR 0x0A then [backslash, CHR ''n'']
      else if c = CHR 0x0D then [backslash, CHR ''r'']
      else if c = CHR 0x09 then [backslash, CHR ''t'']
      else if c = CHR 0x0B then [backslash, CHR ''v'']
      else [backslash, CHR ''x'', lowerhex (of_char c div 16), lowerhex (of_char c mod 16)])"

text \<open>\<open>n\<close> hexadecimal digits, the last first in the recursion.\<close>

fun hexDigits :: "nat \<Rightarrow> nat \<Rightarrow> string" where
  "hexDigits 0 r = []"
| "hexDigits (Suc n) r = hexDigits n (r div 16) @ [lowerhex (r mod 16)]"

definition escapeRune :: "nat \<Rightarrow> string" where
  "escapeRune r =
     (if r < 0x10000 then [backslash, CHR ''u''] @ hexDigits 4 r else [backslash, CHR ''U''] @ hexDigits 8 r)"

function quoteChars :: "(nat \<Rightarrow> bool) \<Rightarrow> string \<Rightarrow> string" where
  "quoteChars isPrint [] = []"
| "quoteChars isPrint (c # s) =
     (if between 0 0x7F c then quoteAscii c @ quoteChars isPrint s
      else
        let n = runeLen (c # s)
        in if n = 0
           then [backslash, CHR ''x'', lowerhex (of_char c div 16), lowerhex (of_char c mod 16)]
                  @ quoteChars isPrint s
           else
             let rune = take n (c # s)
             in (if isPrint (runeValue rune) then rune else escapeRune (runeValue rune))
                  @ quoteChars isPrint (drop (n - 1) s))"
  by pat_completeness auto
termination by (relation "measure (\<lambda>(p, s). length s)") auto

text \<open>\<open>strconv.Quote\<close>, which is \<open>%q\<close> on a string.\<close>

definition Quote :: "(nat \<Rightarrow> bool) \<Rightarrow> string \<Rightarrow> string" where
  "Quote isPrint s = [CHR 0x22] @ quoteChars isPrint s @ [CHR 0x22]"

fun decimal :: "nat \<Rightarrow> string" where
  "decimal n =
     (if n < 10 then [''0123456789'' ! n] else decimal (n div 10) @ [''0123456789'' ! (n mod 10)])"

declare decimal.simps [simp del]

subsection \<open>The texts\<close>

fun errorText :: "(nat \<Rightarrow> bool) \<Rightarrow> (error \<Rightarrow> string) \<Rightarrow> error \<Rightarrow> string" where
  "errorText p ext (UnknownIdentity subject) = ''unknown identity '' @ Quote p subject"
| "errorText p ext (IdentityNotFound subject) = ''identity '' @ Quote p subject @ '' not found''"
| "errorText p ext AuthRequestNotFound = ''auth request not found''"
| "errorText p ext (ClientNotFound cid) = ''client '' @ Quote p cid @ '' not found''"
| "errorText p ext (ClientIsPublic cid) =
     ''client '' @ Quote p cid @ '' is public (token_endpoint_auth_method none) and has no secret''"
| "errorText p ext InvalidClientSecret = ''invalid client secret''"
| "errorText p ext CodeInvalid = ''code invalid or expired''"
| "errorText p ext ExpiredRefreshToken = ''expired refresh token''"
| "errorText p ext InvalidRefreshToken = ''invalid refresh token''"
| "errorText p ext InvalidRefreshTokenParam = ''invalid refresh_token''"
| "errorText p ext TokenInvalid = ''token invalid''"
| "errorText p ext TokenInvalidOrExpired = ''token invalid or expired''"
| "errorText p ext TokenExpired = ''token expired''"
| "errorText p ext TokenNotValidForClient = ''token not valid for this client''"
| "errorText p ext JWTProfileUnsupported = ''JWT profile clients are not supported''"
| "errorText p ext DeviceClientNotFound = ''client not found''"
| "errorText p ext DeviceCodeNotFound = ''device code not found for client''"
| "errorText p ext UserCodeNotFound = ''user code not found''"
| "errorText p ext (KeyGeneration msg) = ''generate signing key: '' @ msg"
| "errorText p ext EmptyConfidentialSecret =
     ''confidential client has an empty client_secret; set one, or declare token_endpoint_auth_method: none for a public (PKCE) client''"
| "errorText p ext PublicWithSecret =
     ''token_endpoint_auth_method none (public client) must not have a client_secret''"
| "errorText p ext (UnsupportedAuthMethod m) =
     ''unsupported token_endpoint_auth_method '' @ Quote p m @ '' (supported: client_secret_basic, none)''"
| "errorText p ext (ReadClientsFile path) =
     ''idp: read clients file '' @ Quote p path @ '': '' @ ext (ReadClientsFile path)"
| "errorText p ext (ParseClientsFile path msg) = ''idp: parse clients file '' @ Quote p path @ '': '' @ msg"
| "errorText p ext (EmptyClientID path i) =
     ''idp: clients file '' @ Quote p path @ '': entry '' @ decimal i @ '' has an empty client_id''"
| "errorText p ext (BadEntry path i cid err) =
     ''idp: clients file '' @ Quote p path @ '': entry '' @ decimal i @ '' (client_id '' @ Quote p cid @ ''): ''
       @ errorText p ext err"
| "errorText p ext err = ext err"

subsection \<open>Quoted text stays on its line\<close>

lemma printable_letters [simp]:
  "printable backslash" "printable CHR 0x22" "printable CHR ''u''" "printable CHR ''U''" "printable CHR ''x''"
  "printable CHR ''a''" "printable CHR ''b''" "printable CHR ''f''" "printable CHR ''n''"
  "printable CHR ''r''" "printable CHR ''t''" "printable CHR ''v''"
  by code_simp+

lemma printable_quoteAscii: "list_all printable (quoteAscii c)"
proof -
  have "printable c" if "between 0x20 0x7E c"
    using that by (auto simp: between_def printable_def)
  then show ?thesis by (auto simp: quoteAscii_def printable_lowerhex nibble)
qed

lemma printable_hexDigits: "list_all printable (hexDigits n r)"
  by (induction n arbitrary: r) (simp_all add: printable_lowerhex nibble)

lemma printable_escapeRune: "list_all printable (escapeRune r)"
  using printable_hexDigits by (simp add: escapeRune_def)

lemma printable_quoteChars: "list_all printable (quoteChars p s)"
proof (induction p s rule: quoteChars.induct)
  case (2 p c s)
  show ?case
  proof (cases "between 0 0x7F c")
    case True
    with 2 printable_quoteAscii show ?thesis by simp
  next
    case False
    have "list_all printable (take (runeLen (c # s)) (c # s))"
      using runeLen_high [OF False] by (simp add: list_all_iff)
    with 2(2,3) [OF False refl] False printable_escapeRune show ?thesis
      by (auto simp: Let_def printable_lowerhex nibble simp del: runeLen.simps)
  qed
qed simp

lemma is_line_Quote [simp]: "is_line (Quote p s)"
  by (simp add: is_line_def Quote_def printable_quoteChars)

lemma is_line_decimal [simp]: "is_line (decimal n)"
proof (induction n rule: decimal.induct)
  case (1 n)
  have d: "printable (''0123456789'' ! k)" if "k < 10" for k
  proof -
    have "\<forall>k \<in> set [0..<10]. printable (''0123456789'' ! k)" by code_simp
    with that show ?thesis by auto
  qed
  show ?case
    using 1 d by (subst decimal.simps) (simp add: is_line_def)
qed

end
