(* ===== verification/GoHttp.thy ===== *)
theory GoHttp
  imports GoFmt
begin

text \<open>
  What the handlers use of Go's standard library: the query codec of \<open>net/url\<close>, the escaping of
  \<open>html\<close>, forms, cookies and the response writer of \<open>net/http\<close>. A string is its bytes.

  A response is what was written to the \<open>ResponseWriter\<close>: the status, the headers the code sets, the
  cookies and the body. What an error contributes to a body is kept as the error value
  (\<open>rs_detail\<close>); \<open>rs_bytes\<close> gives the bytes of the body.
\<close>

subsection \<open>The query codec\<close>

definition ranges :: "char \<Rightarrow> char \<Rightarrow> char \<Rightarrow> bool" where
  "ranges lo hi c \<longleftrightarrow> lo \<le> c \<and> c \<le> hi"

text \<open>The bytes \<open>QueryEscape\<close> leaves as they are.\<close>

definition unreserved :: "char \<Rightarrow> bool" where
  "unreserved c \<longleftrightarrow>
     ranges (CHR ''0'') (CHR ''9'') c \<or> ranges (CHR ''A'') (CHR ''Z'') c \<or> ranges (CHR ''a'') (CHR ''z'') c
     \<or> c \<in> set ''-_.~''"

definition upperhex :: "nat \<Rightarrow> char" where
  "upperhex n = ''0123456789ABCDEF'' ! n"

definition ishex :: "char \<Rightarrow> bool" where
  "ishex c \<longleftrightarrow> ranges (CHR ''0'') (CHR ''9'') c \<or> ranges (CHR ''a'') (CHR ''f'') c
     \<or> ranges (CHR ''A'') (CHR ''F'') c"

definition unhex :: "char \<Rightarrow> nat" where
  "unhex c =
     (if ranges (CHR ''0'') (CHR ''9'') c then of_char c - of_char CHR ''0''
      else if ranges (CHR ''a'') (CHR ''f'') c then of_char c - of_char CHR ''a'' + 10
      else if ranges (CHR ''A'') (CHR ''F'') c then of_char c - of_char CHR ''A'' + 10
      else 0)"

fun QueryEscape :: "string \<Rightarrow> string" where
  "QueryEscape [] = []"
| "QueryEscape (c # s) =
     (if c = CHR '' '' then CHR ''+'' # QueryEscape s
      else if unreserved c then c # QueryEscape s
      else CHR ''%'' # upperhex (of_char c div 16) # upperhex (of_char c mod 16) # QueryEscape s)"

datatype formError =
    SemicolonSeparator       \<comment> \<open>invalid semicolon separator in query\<close>
  | EscapeError string       \<comment> \<open>invalid URL escape %q\<close>
  | BodyReadError string     \<comment> \<open>reading the body failed\<close>

fun QueryUnescape :: "string \<Rightarrow> formError + string" where
  "QueryUnescape [] = Inr []"
| "QueryUnescape (c # s) =
     (if c = CHR ''%'' then
        (case s of
           a # b # r \<Rightarrow>
             if ishex a \<and> ishex b
             then map_sum id (Cons (char_of (16 * unhex a + unhex b))) (QueryUnescape r)
             else Inl (EscapeError (take 3 (c # s)))
         | _ \<Rightarrow> Inl (EscapeError (take 3 (c # s))))
      else map_sum id (Cons (if c = CHR ''+'' then CHR '' '' else c)) (QueryUnescape s))"

text \<open>\<open>strings.Cut\<close> with a separator of one byte: what is before and after its first occurrence.\<close>

definition Cut :: "char \<Rightarrow> string \<Rightarrow> string \<times> string" where
  "Cut sep s = (takeWhile (\<lambda>c. c \<noteq> sep) s, drop 1 (dropWhile (\<lambda>c. c \<noteq> sep) s))"

lemma length_snd_Cut: "s \<noteq> [] \<Longrightarrow> length (snd (Cut sep s)) < length s"
  using length_dropWhile_le [of "\<lambda>c. c \<noteq> sep" s]
  by (cases s) (auto simp: Cut_def le_imp_less_Suc intro: less_le_trans)

text \<open>
  \<open>url.Values\<close> keeps the values of a key in the order they were added, and only \<open>Get\<close>, the first
  value of a key, is used: an association list in that order. \<open>ParseQuery\<close> skips what it cannot
  parse and reports the first escape error or the last stray semicolon.
\<close>

type_synonym Values = "(string \<times> string) list"

function parseQuery :: "string \<Rightarrow> Values \<Rightarrow> formError option \<Rightarrow> Values \<times> formError option" where
  "parseQuery query m err =
     (if query = [] then (m, err)
      else
        let (key, rest) = Cut (CHR ''&'') query
        in if CHR '';'' \<in> set key then parseQuery rest m (Some SemicolonSeparator)
           else if key = [] then parseQuery rest m err
           else
             let (k, v) = Cut (CHR ''='') key;
                 keep = (\<lambda>e. case err of None \<Rightarrow> Some e | Some e0 \<Rightarrow> Some e0)
             in case QueryUnescape k of
                  Inl e \<Rightarrow> parseQuery rest m (keep e)
                | Inr k' \<Rightarrow>
                    (case QueryUnescape v of
                       Inl e \<Rightarrow> parseQuery rest m (keep e)
                     | Inr v' \<Rightarrow> parseQuery rest (m @ [(k', v')]) err))"
  by pat_completeness auto
termination
  by (relation "measure (\<lambda>(query, m, err). length query)")
    (auto, (metis length_snd_Cut snd_conv)+)

declare parseQuery.simps [simp del]

definition ParseQuery :: "string \<Rightarrow> Values \<times> formError option" where
  "ParseQuery query = parseQuery query [] None"

definition Get :: "Values \<Rightarrow> string \<Rightarrow> string" where
  "Get vs key = (case map_of vs key of None \<Rightarrow> [] | Some v \<Rightarrow> v)"

subsection \<open>Escaping for HTML\<close>

fun EscapeString :: "string \<Rightarrow> string" where
  "EscapeString [] = []"
| "EscapeString (c # s) =
     (if c = CHR ''&'' then ''&amp;'' @ EscapeString s
      else if c = CHR 0x27 then ''&#39;'' @ EscapeString s
      else if c = CHR ''<'' then ''&lt;'' @ EscapeString s
      else if c = CHR ''>'' then ''&gt;'' @ EscapeString s
      else if c = CHR 0x22 then ''&#34;'' @ EscapeString s
      else c # EscapeString s)"

text \<open>
  What a browser makes of an attribute value, for the references \<open>EscapeString\<close> produces. It is only
  used to say where a link of a page leads.
\<close>

function htmlUnescape :: "string \<Rightarrow> string" where
  "htmlUnescape [] = []"
| "htmlUnescape (c # s) =
     (if c = CHR ''&'' \<and> take 4 s = ''amp;'' then CHR ''&'' # htmlUnescape (drop 4 s)
      else if c = CHR ''&'' \<and> take 4 s = ''#39;'' then CHR 0x27 # htmlUnescape (drop 4 s)
      else if c = CHR ''&'' \<and> take 3 s = ''lt;'' then CHR ''<'' # htmlUnescape (drop 3 s)
      else if c = CHR ''&'' \<and> take 3 s = ''gt;'' then CHR ''>'' # htmlUnescape (drop 3 s)
      else if c = CHR ''&'' \<and> take 4 s = ''#34;'' then CHR 0x22 # htmlUnescape (drop 4 s)
      else c # htmlUnescape s)"
  by pat_completeness auto
termination by (relation "measure length") auto

subsection \<open>Requests\<close>

text \<open>
  A request as the handlers see it. \<open>rq_form\<close> is the body of a POST, PUT or PATCH with the form
  content type, if it is one and could be read. \<open>rq_cookies\<close> are the cookies of the request in
  order.
\<close>

datatype formBody = NoForm | FormBody string | BodyError string

record request =
  rq_method :: string
  rq_path :: string
  rq_rawQuery :: string
  rq_form :: formBody
  rq_cookies :: "(string \<times> string) list"

fun parsePostForm :: "formBody \<Rightarrow> Values \<times> formError option" where
  "parsePostForm NoForm = ([], None)"
| "parsePostForm (FormBody b) = ParseQuery b"
| "parsePostForm (BodyError msg) = ([], Some (BodyReadError msg))"

text \<open>\<open>ParseForm\<close>: the values of the body come before those of the URL, the first error counts.\<close>

definition ParseForm :: "request \<Rightarrow> Values \<times> formError option" where
  "ParseForm r =
     (let (post, err) = parsePostForm (rq_form r);
          (query, e) = ParseQuery (rq_rawQuery r)
      in (post @ query, case err of None \<Rightarrow> e | Some e0 \<Rightarrow> Some e0))"

text \<open>\<open>r.URL.Query()\<close> ignores what cannot be parsed.\<close>

definition Query :: "request \<Rightarrow> Values" where
  "Query r = fst (ParseQuery (rq_rawQuery r))"

text \<open>\<open>r.Cookie\<close>: the first cookie of that name; \<open>None\<close> is \<open>http.ErrNoCookie\<close>.\<close>

definition requestCookie :: "request \<Rightarrow> string \<Rightarrow> string option" where
  "requestCookie r name = map_of (rq_cookies r) name"

subsection \<open>Responses\<close>

datatype detail = NoDetail | StorageError error | FormError formError

fun detailText :: "(nat \<Rightarrow> bool) \<Rightarrow> (error \<Rightarrow> string) \<Rightarrow> detail \<Rightarrow> string" where
  "detailText p ext NoDetail = []"
| "detailText p ext (StorageError err) = errorText p ext err"
| "detailText p ext (FormError SemicolonSeparator) = ''invalid semicolon separator in query''"
| "detailText p ext (FormError (EscapeError s)) = ''invalid URL escape '' @ Quote p s"
| "detailText p ext (FormError (BodyReadError msg)) = msg"

datatype SameSite = SameSiteDefaultMode | SameSiteLaxMode | SameSiteStrictMode

record Cookie =
  ck_Name :: string
  ck_Value :: string
  ck_Path :: string
  ck_MaxAge :: int
  ck_HttpOnly :: bool
  ck_SameSite :: SameSite

record response =
  rs_status :: nat
  rs_contentType :: string
  rs_nosniff :: bool
  rs_location :: string
  rs_cookies :: "Cookie list"
  rs_body :: string
  rs_detail :: "detail option"

definition StatusOK :: nat where "StatusOK = 200"
definition StatusFound :: nat where "StatusFound = 302"
definition StatusBadRequest :: nat where "StatusBadRequest = 400"

text \<open>The response before a handler runs, and the writes of the handlers.\<close>

definition new_response :: response where
  "new_response = \<lparr>rs_status = StatusOK, rs_contentType = [], rs_nosniff = False, rs_location = [], rs_cookies = [],
     rs_body = [], rs_detail = None\<rparr>"

definition setContentType :: "string \<Rightarrow> response \<Rightarrow> response" where
  "setContentType ct w = w\<lparr>rs_contentType := ct\<rparr>"

definition emit :: "string \<Rightarrow> response \<Rightarrow> response" where
  "emit s w = w\<lparr>rs_body := rs_body w @ s\<rparr>"

text \<open>\<open>http.Error\<close> ends the body with a newline; nothing is written after it.\<close>

definition httpError :: "string \<Rightarrow> detail \<Rightarrow> nat \<Rightarrow> response \<Rightarrow> response" where
  "httpError msg d code w =
     w\<lparr>rs_contentType := ''text/plain; charset=utf-8'', rs_nosniff := True, rs_status := code,
       rs_body := rs_body w @ msg, rs_detail := Some d\<rparr>"

definition rs_bytes :: "(nat \<Rightarrow> bool) \<Rightarrow> (error \<Rightarrow> string) \<Rightarrow> response \<Rightarrow> string" where
  "rs_bytes p ext w =
     rs_body w @ (case rs_detail w of None \<Rightarrow> [] | Some d \<Rightarrow> detailText p ext d @ [CHR 0x0A])"

text \<open>
  \<open>http.Redirect\<close>, to the path \<open>/\<close> or to an absolute URL, which it does not rewrite but for the bytes
  above ASCII. A GET whose handler set no content type gets a page with the link.
\<close>

fun hexEscapeNonASCII :: "string \<Rightarrow> string" where
  "hexEscapeNonASCII [] = []"
| "hexEscapeNonASCII (c # s) =
     (if between 0x80 0xFF c
      then [CHR ''%'', lowerhex (of_char c div 16), lowerhex (of_char c mod 16)] @ hexEscapeNonASCII s
      else c # hexEscapeNonASCII s)"

lemma ascii_slash [simp]: "\<not> between 0x80 0xFF CHR ''/''"
  by code_simp

definition Redirect :: "request \<Rightarrow> string \<Rightarrow> nat \<Rightarrow> response \<Rightarrow> response" where
  "Redirect r url code w =
     (let hadCT = rs_contentType w \<noteq> [];
          w1 = w\<lparr>rs_location := hexEscapeNonASCII url, rs_status := code,
                 rs_contentType := (if \<not> hadCT \<and> (rq_method r = ''GET'' \<or> rq_method r = ''HEAD'')
                                    then ''text/html; charset=utf-8'' else rs_contentType w)\<rparr>
      in if \<not> hadCT \<and> rq_method r = ''GET''
         then emit (''<a href='' @ [CHR 0x22] @ EscapeString url @ [CHR 0x22] @ ''>Found</a>.''
                      @ [CHR 0x0A, CHR 0x0A]) w1
         else w1)"

definition SetCookie :: "Cookie \<Rightarrow> response \<Rightarrow> response" where
  "SetCookie c w = w\<lparr>rs_cookies := rs_cookies w @ [c]\<rparr>"

text \<open>The em dash of the pages' texts, in UTF-8.\<close>

definition em_dash :: string where
  "em_dash = [CHR 0xE2, CHR 0x80, CHR 0x94]"

subsection \<open>Escaped text cannot leave its place\<close>

definition markup :: "char set" where
  "markup = {CHR ''<'', CHR ''>'', CHR 0x22, CHR 0x27}"

lemma EscapeString_safe: "set (EscapeString s) \<inter> markup = {}"
  by (induction s rule: EscapeString.induct) (auto simp: markup_def)

lemma EscapeString_count [simp]:
  "count_list (EscapeString s) CHR ''<'' = 0" "count_list (EscapeString s) CHR ''>'' = 0"
  "count_list (EscapeString s) CHR 0x22 = 0"
  using EscapeString_safe [of s] by (auto simp: markup_def count_list_0_iff)

lemma htmlUnescape_EscapeString: "htmlUnescape (EscapeString s @ t) = s @ htmlUnescape t"
  by (induction s rule: EscapeString.induct) auto

lemma htmlUnescape_plain: "CHR ''&'' \<notin> set s \<Longrightarrow> htmlUnescape (s @ t) = s @ htmlUnescape t"
  by (induction s) auto

subsection \<open>The query codec is a round trip\<close>

lemma upperhex_props:
  assumes "n < 16"
  shows "ishex (upperhex n)" "unhex (upperhex n) = n" "unreserved (upperhex n)"
proof -
  have "\<forall>n \<in> set [0..<16]. ishex (upperhex n) \<and> unhex (upperhex n) = n \<and> unreserved (upperhex n)"
    by code_simp
  with assms show "ishex (upperhex n)" "unhex (upperhex n) = n" "unreserved (upperhex n)" by auto
qed

lemma byte_digit: "(of_char c div 16 :: nat) < 16" "(of_char c mod 16 :: nat) < 16"
  by (rule less_mult_imp_div_less) simp_all

lemma byte_digits: "char_of (16 * (of_char c div 16) + of_char c mod 16 :: nat) = c"
  by (simp add: mult_div_mod_eq)

lemma QueryUnescape_QueryEscape [simp]: "QueryUnescape (QueryEscape s) = Inr s"
proof (induction s)
  case Nil
  show ?case by simp
next
  case (Cons c s)
  note digit = byte_digit [of c]
  have "\<not> unreserved CHR ''%''" "\<not> unreserved CHR ''+''" by code_simp+
  with Cons show ?case
    by (auto simp: upperhex_props [OF digit(1)] upperhex_props [OF digit(2)] byte_digits)
qed

lemma set_QueryEscape: "c \<in> set (QueryEscape s) \<Longrightarrow> unreserved c \<or> c = CHR ''%'' \<or> c = CHR ''+''"
proof (induction s)
  case Nil
  then show ?case by simp
next
  case (Cons a s)
  note digit = byte_digit [of a]
  from Cons show ?case
    by (auto simp: upperhex_props [OF digit(1)] upperhex_props [OF digit(2)] split: if_splits)
qed

lemma reserved_not_unreserved [simp]:
  "\<not> unreserved CHR ''&''" "\<not> unreserved CHR ''=''" "\<not> unreserved CHR '';''"
  "\<not> unreserved CHR ''<''" "\<not> unreserved CHR ''>''" "\<not> unreserved CHR 0x22" "\<not> unreserved CHR 0x27"
  by code_simp+

lemma QueryEscape_free:
  "CHR ''&'' \<notin> set (QueryEscape s)" "CHR ''='' \<notin> set (QueryEscape s)" "CHR '';'' \<notin> set (QueryEscape s)"
  "CHR ''<'' \<notin> set (QueryEscape s)" "CHR ''>'' \<notin> set (QueryEscape s)" "CHR 0x22 \<notin> set (QueryEscape s)"
  using set_QueryEscape [of _ s] by fastforce+

lemma Cut_at: "sep \<notin> set a \<Longrightarrow> Cut sep (a @ sep # b) = (a, b)"
  by (induction a) (auto simp: Cut_def)

lemma Cut_none: "sep \<notin> set a \<Longrightarrow> Cut sep a = (a, [])"
  by (induction a) (auto simp: Cut_def)

text \<open>One well-formed parameter is added and the rest of the query is parsed.\<close>

lemma parseQuery_param:
  assumes "k \<noteq> []" and "{CHR ''&'', CHR ''='', CHR '';''} \<inter> set k = {}"
    and "{CHR ''&'', CHR '';''} \<inter> set v = {}"
    and "QueryUnescape k = Inr k'" "QueryUnescape v = Inr v'"
  shows "parseQuery (k @ CHR ''='' # v @ CHR ''&'' # rest) m err = parseQuery rest (m @ [(k', v')]) err"
    "parseQuery (k @ CHR ''='' # v) m err = (m @ [(k', v')], err)"
proof -
  have amp: "CHR ''&'' \<notin> set (k @ CHR ''='' # v)" and semi: "CHR '';'' \<notin> set (k @ CHR ''='' # v)"
    using assms(2,3) by auto
  have eq: "Cut (CHR ''='') (k @ CHR ''='' # v) = (k, v)" using assms(2) by (intro Cut_at) auto
  have "Cut (CHR ''&'') (k @ CHR ''='' # v @ CHR ''&'' # rest) = (k @ CHR ''='' # v, rest)"
    using Cut_at [OF amp, of rest] by simp
  then show "parseQuery (k @ CHR ''='' # v @ CHR ''&'' # rest) m err = parseQuery rest (m @ [(k', v')]) err"
    using semi eq assms(1,4,5) by (subst parseQuery.simps) simp
  show "parseQuery (k @ CHR ''='' # v) m err = (m @ [(k', v')], err)"
    using Cut_none [OF amp] semi eq assms(1,4,5)
    by (subst parseQuery.simps) (simp add: parseQuery.simps)
qed

end
