(* ===== verification/Login.thy ===== *)
theory Login
  imports AuthFlow Device GoHttp
begin

text \<open>
  The passwordless login page (\<open>internal/idp/login.go\<close>): completing an auth request or approving a
  device for a chosen built-in identity, and the two pickers that link back to this page.

  \<open>callback\<close> stands for \<open>op.AuthCallbackURL(provider)\<close> at the request's issuer; \<open>now\<close> is the reading
  of the clock a completion makes. \<open>http.Redirect\<close> is given an absolute URL by it.
\<close>

definition queryIdentity :: string where
  "queryIdentity = ''identity''"

definition queryUserCode :: string where
  "queryUserCode = ''user_code''"

definition html_type :: string where
  "html_type = ''text/html; charset=utf-8''"

text \<open>The loop over the built-in identities writes one list item for each.\<close>

definition pickerHref :: "string \<Rightarrow> Identity \<Rightarrow> string" where
  "pickerHref authRequestID i =
     loginPath @ ''?'' @ queryAuthRequestID @ ''='' @ EscapeString authRequestID @ ''&''
       @ queryIdentity @ ''='' @ EscapeString (Subject i)"

definition deviceHref :: "string \<Rightarrow> Identity \<Rightarrow> string" where
  "deviceHref userCode i =
     loginPath @ ''?'' @ queryUserCode @ ''='' @ QueryEscape userCode @ ''&''
       @ queryIdentity @ ''='' @ QueryEscape (Subject i)"

definition identityItem :: "(Identity \<Rightarrow> string) \<Rightarrow> Identity \<Rightarrow> string" where
  "identityItem href i =
     ''<li><a href='' @ [CHR 0x22] @ href i @ [CHR 0x22] @ ''>'' @ EscapeString (Subject i) @ '' ''
       @ em_dash @ '' '' @ EscapeString (Name i) @ ''</a></li>''"

fun writeItems :: "(Identity \<Rightarrow> string) \<Rightarrow> Identity list \<Rightarrow> response \<Rightarrow> response" where
  "writeItems href [] w = w"
| "writeItems href (i # ids) w = writeItems href ids (emit (identityItem href i) w)"

text \<open>\<open>q\<close> abbreviates the double quote, which a HOL string literal cannot hold.\<close>

abbreviation q :: string where
  "q \<equiv> [CHR 0x22]"

definition htmlHead :: string where
  "htmlHead = ''<!doctype html><html><head><meta charset='' @ q @ ''utf-8'' @ q @ ''>''"

definition renderPicker :: "string \<Rightarrow> response \<Rightarrow> response" where
  "renderPicker authRequestID w =
     (let w1 = setContentType html_type w;
          w2 = emit (htmlHead @ ''<title>devedge-idp '' @ em_dash
                 @ '' pick an identity</title></head><body>''
                 @ ''<h1>devedge-idp (development only)</h1>''
                 @ ''<p>Passwordless dev login. Pick who you are '' @ em_dash
                 @ '' no credential is checked.</p><ul>'') w1;
          w3 = writeItems (pickerHref authRequestID) Identities w2
      in emit ''</ul></body></html>'' w3)"

definition renderDevicePicker :: "string \<Rightarrow> response \<Rightarrow> response" where
  "renderDevicePicker userCode w =
     (let w1 = setContentType html_type w;
          w2 = emit (htmlHead @ ''<title>devedge-idp '' @ em_dash
                 @ '' approve device</title></head><body>''
                 @ ''<h1>devedge-idp (development only)</h1>''
                 @ ''<p>Approve the device requesting code <code>'' @ EscapeString userCode
                 @ ''</code>. Pick who you are '' @ em_dash @ '' ''
                 @ ''no credential is checked.</p><ul>'') w1;
          w3 = writeItems (deviceHref userCode) Identities w2
      in emit ''</ul></body></html>'' w3)"

definition serveDeviceApproval ::
    "time \<Rightarrow> Values \<Rightarrow> string \<Rightarrow> response \<Rightarrow> storage \<Rightarrow> response \<times> storage" where
  "serveDeviceApproval now form userCode w s =
     (let identity = Get form queryIdentity
      in if identity = [] then (renderDevicePicker userCode w, s)
         else
           (case CompleteDeviceAuthorization now userCode identity s of
              (Some err, s') \<Rightarrow>
                (httpError ''device approval failed: '' (StorageError err) StatusBadRequest w, s')
            | (None, s') \<Rightarrow>
                (emit (htmlHead @ ''<title>devedge-idp '' @ em_dash
                    @ '' device approved</title></head><body>''
                    @ ''<h1>Device approved</h1>''
                    @ ''<p>Approved as <strong>'' @ EscapeString identity
                    @ ''</strong>. Return to the command line '' @ em_dash @ '' it now ''
                    @ ''has a session.</p></body></html>'')
                  (setContentType html_type w), s')))"

definition serve ::
    "(string \<Rightarrow> string) \<Rightarrow> time \<Rightarrow> request \<Rightarrow> response \<Rightarrow> storage \<Rightarrow> response \<times> storage" where
  "serve callback now r w s =
     (case ParseForm r of
        (form, Some err) \<Rightarrow>
          (httpError ''cannot parse form: '' (FormError err) StatusBadRequest w, s)
      | (form, None) \<Rightarrow>
          let userCode = Get form queryUserCode
          in if userCode \<noteq> [] then serveDeviceApproval now form userCode w s
             else
               let authRequestID = Get form queryAuthRequestID
               in if authRequestID = []
                  then (httpError (''missing '' @ queryAuthRequestID) NoDetail StatusBadRequest w, s)
                  else
                    let identity = Get form queryIdentity
                    in if identity \<noteq> []
                       then
                         (case CompleteAuthRequest now authRequestID identity s of
                            (Some err, s') \<Rightarrow>
                              (httpError ''login failed: '' (StorageError err) StatusBadRequest w, s')
                          | (None, s') \<Rightarrow> (Redirect r (callback authRequestID) StatusFound w, s'))
                       else (renderPicker authRequestID w, s))"

subsection \<open>What the pages hold\<close>

lemma emit_emit [simp]: "emit b (emit a w) = emit (a @ b) w"
  by (simp add: emit_def)

lemma writeItems_eq: "writeItems href ids w = emit (concat (map (identityItem href) ids)) w"
  by (induction ids arbitrary: w) (simp_all add: emit_def)

lemma emit_fields [simp]:
  "rs_status (emit s w) = rs_status w" "rs_location (emit s w) = rs_location w"
  "rs_cookies (emit s w) = rs_cookies w" "rs_contentType (emit s w) = rs_contentType w"
  "rs_body (emit s w) = rs_body w @ s"
  by (simp_all add: emit_def)

lemma setContentType_fields [simp]:
  "rs_status (setContentType ct w) = rs_status w" "rs_location (setContentType ct w) = rs_location w"
  "rs_cookies (setContentType ct w) = rs_cookies w" "rs_contentType (setContentType ct w) = ct"
  "rs_body (setContentType ct w) = rs_body w"
  by (simp_all add: setContentType_def)

lemma page_status [simp]:
  "rs_status (renderPicker rid w) = rs_status w" "rs_status (renderDevicePicker uc w) = rs_status w"
  by (simp_all add: renderPicker_def renderDevicePicker_def writeItems_eq Let_def)

lemma httpError_status [simp]: "rs_status (httpError msg d code w) = code"
  by (simp add: httpError_def)

lemma count_list_concat: "count_list (concat xss) c = sum_list (map (\<lambda>xs. count_list xs c) xss)"
  by (induction xss) simp_all

lemma count_QueryEscape [simp]:
  "count_list (QueryEscape s) CHR ''<'' = 0" "count_list (QueryEscape s) CHR ''>'' = 0"
  "count_list (QueryEscape s) CHR 0x22 = 0"
  using QueryEscape_free [of s] by (simp_all add: count_list_0_iff)

text \<open>An item counts the same whatever the id or code in its link.\<close>

lemma count_identityItem:
  assumes "c \<in> {CHR ''<'', CHR ''>'', CHR 0x22}"
  shows "count_list (identityItem (pickerHref rid) i) c = count_list (identityItem (pickerHref rid') i) c"
    "count_list (identityItem (deviceHref uc) i) c = count_list (identityItem (deviceHref uc') i) c"
  using assms by (auto simp: identityItem_def pickerHref_def deviceHref_def)

subsection \<open>Where the links lead\<close>

definition link_query :: "string \<Rightarrow> string" where
  "link_query href = snd (Cut (CHR ''?'') (htmlUnescape href))"

definition follow :: "string \<Rightarrow> request" where
  "follow href =
     \<lparr>rq_method = ''GET'', rq_path = fst (Cut (CHR ''?'') (htmlUnescape href)), rq_rawQuery = link_query href,
      rq_form = NoForm, rq_cookies = []\<rparr>"

lemma plain_subject:
  assumes "i \<in> set Identities"
  shows "EscapeString (Subject i) = Subject i" "QueryEscape (Subject i) = Subject i"
    "QueryUnescape (Subject i) = Inr (Subject i)" "Subject i \<noteq> []"
    "{CHR ''&'', CHR '';'', CHR ''?'', CHR ''=''} \<inter> set (Subject i) = {}"
proof -
  have "\<forall>i \<in> set Identities. EscapeString (Subject i) = Subject i \<and> QueryEscape (Subject i) = Subject i
      \<and> QueryUnescape (Subject i) = Inr (Subject i) \<and> Subject i \<noteq> []
      \<and> {CHR ''&'', CHR '';'', CHR ''?'', CHR ''=''} \<inter> set (Subject i) = {}"
    unfolding Identities_def by code_simp
  with assms show "EscapeString (Subject i) = Subject i" "QueryEscape (Subject i) = Subject i"
    "QueryUnescape (Subject i) = Inr (Subject i)" "Subject i \<noteq> []"
    "{CHR ''&'', CHR '';'', CHR ''?'', CHR ''=''} \<inter> set (Subject i) = {}" by blast+
qed

lemma unescape_name: "QueryUnescape ''authRequestID'' = Inr ''authRequestID''"
  "QueryUnescape ''identity'' = Inr ''identity''" "QueryUnescape ''user_code'' = Inr ''user_code''"
  by code_simp+

text \<open>A link of the device picker, as the browser sends it.\<close>

lemma device_link_query:
  assumes "i \<in> set Identities"
  shows "link_query (deviceHref uc i) =
      ''user_code'' @ CHR ''='' # QueryEscape uc @ CHR ''&'' # ''identity'' @ CHR ''='' # Subject i"
proof -
  have "htmlUnescape (deviceHref uc i) = ''/login'' @ CHR ''?'' #
      (''user_code'' @ CHR ''='' # QueryEscape uc @ CHR ''&'' # ''identity'' @ CHR ''='' # Subject i)"
    using htmlUnescape_plain [of "QueryEscape uc"] QueryEscape_free(1) [of uc]
      htmlUnescape_plain [of "Subject i" "[]"] plain_subject [OF assms]
    by (simp add: deviceHref_def loginPath_def queryUserCode_def queryIdentity_def)
  then show ?thesis
    using Cut_at [of "CHR ''?''" "''/login''"] by (simp add: link_query_def)
qed

lemma picker_link_query:
  assumes "i \<in> set Identities"
  shows "link_query (pickerHref rid i) =
      ''authRequestID'' @ CHR ''='' # rid @ CHR ''&'' # ''identity'' @ CHR ''='' # Subject i"
proof -
  have "htmlUnescape (pickerHref rid i) = ''/login'' @ CHR ''?'' #
      (''authRequestID'' @ CHR ''='' # rid @ CHR ''&'' # ''identity'' @ CHR ''='' # Subject i)"
    using htmlUnescape_plain [of "Subject i" "[]"] plain_subject [OF assms]
    by (simp add: pickerHref_def loginPath_def queryAuthRequestID_def queryIdentity_def
        htmlUnescape_EscapeString)
  then show ?thesis
    using Cut_at [of "CHR ''?''" "''/login''"] by (simp add: link_query_def)
qed

lemma ParseForm_follow:
  "ParseForm (follow href) = ParseQuery (link_query href)"
  by (simp add: ParseForm_def follow_def split_beta)

lemma device_link_form:
  assumes "i \<in> set Identities"
  shows "ParseForm (follow (deviceHref uc i)) =
      ([(''user_code'', uc), (''identity'', Subject i)], None)"
proof -
  let ?q = "''identity'' @ CHR ''='' # Subject i"
  have "parseQuery (''user_code'' @ CHR ''='' # QueryEscape uc @ CHR ''&'' # ?q) [] None =
      parseQuery ?q ([] @ [(''user_code'', uc)]) None"
    by (rule parseQuery_param(1)) (use QueryEscape_free in \<open>auto simp: unescape_name\<close>)
  moreover have "parseQuery ?q [(''user_code'', uc)] None =
      ([(''user_code'', uc)] @ [(''identity'', Subject i)], None)"
    by (rule parseQuery_param(2)) (use plain_subject [OF assms] in \<open>auto simp: unescape_name\<close>)
  ultimately show ?thesis
    by (simp add: ParseForm_follow device_link_query [OF assms] ParseQuery_def)
qed

text \<open>
  A link of the login picker, for an id that is made of unreserved characters, followed by any
  further query text the id may hold.
\<close>

lemma unreserved_free:
  assumes "list_all unreserved s"
  shows "{CHR ''&'', CHR ''='', CHR '';''} \<inter> set s = {}" "QueryUnescape s = Inr s"
proof -
  show "{CHR ''&'', CHR ''='', CHR '';''} \<inter> set s = {}" using assms by (auto simp: list_all_iff)
  have "\<not> unreserved CHR ''%''" "\<not> unreserved CHR ''+''" by code_simp+
  then show "QueryUnescape s = Inr s" using assms by (induction s) auto
qed

lemma picker_link_form:
  assumes i: "i \<in> set Identities" and rid: "list_all unreserved rid"
  shows "ParseForm (follow (pickerHref rid i)) =
      ([(''authRequestID'', rid), (''identity'', Subject i)], None)"
proof -
  let ?q = "''identity'' @ CHR ''='' # Subject i"
  have "parseQuery (''authRequestID'' @ CHR ''='' # rid @ CHR ''&'' # ?q) [] None =
      parseQuery ?q ([] @ [(''authRequestID'', rid)]) None"
    by (rule parseQuery_param(1)) (use unreserved_free [OF rid] in \<open>auto simp: unescape_name\<close>)
  moreover have "parseQuery ?q [(''authRequestID'', rid)] None =
      ([(''authRequestID'', rid)] @ [(''identity'', Subject i)], None)"
    by (rule parseQuery_param(2)) (use plain_subject [OF i] in \<open>auto simp: unescape_name\<close>)
  ultimately show ?thesis
    by (simp add: ParseForm_follow picker_link_query [OF i] ParseQuery_def)
qed

lemma injected_link_form:
  assumes i: "i \<in> set Identities" and j: "j \<in> set Identities" and rid: "list_all unreserved rid"
  shows "ParseForm (follow (pickerHref (rid @ ''&identity='' @ Subject j) i)) =
      ([(''authRequestID'', rid), (''identity'', Subject j), (''identity'', Subject i)], None)"
proof -
  let ?q = "''identity'' @ CHR ''='' # Subject i"
  let ?r = "''identity'' @ CHR ''='' # Subject j @ CHR ''&'' # ?q"
  have "parseQuery (''authRequestID'' @ CHR ''='' # rid @ CHR ''&'' # ?r) [] None =
      parseQuery ?r ([] @ [(''authRequestID'', rid)]) None"
    by (rule parseQuery_param(1)) (use unreserved_free [OF rid] in \<open>auto simp: unescape_name\<close>)
  moreover have "parseQuery ?r [(''authRequestID'', rid)] None =
      parseQuery ?q ([(''authRequestID'', rid)] @ [(''identity'', Subject j)]) None"
    by (rule parseQuery_param(1)) (use plain_subject [OF j] in \<open>auto simp: unescape_name\<close>)
  moreover have "parseQuery ?q [(''authRequestID'', rid), (''identity'', Subject j)] None =
      ([(''authRequestID'', rid), (''identity'', Subject j)] @ [(''identity'', Subject i)], None)"
    by (rule parseQuery_param(2)) (use plain_subject [OF i] in \<open>auto simp: unescape_name\<close>)
  ultimately show ?thesis
    by (simp add: ParseForm_follow picker_link_query [OF i] ParseQuery_def)
qed

lemma serve_login:
  assumes "ParseForm r = (form, None)" "Get form queryUserCode = []"
    "Get form queryAuthRequestID = rid" "Get form queryIdentity = identity" "rid \<noteq> []" "identity \<noteq> []"
  shows "snd (serve callback now r w s) = snd (CompleteAuthRequest now rid identity s)"
  using assms by (auto simp: serve_def Let_def split: prod.splits option.splits)

subsection \<open>Properties\<close>

text \<open>
  C16. The login page's decision table. A form that does not parse, a missing request id, an unknown
  identity and an unknown id or code are answered with 400 and change nothing; a request without an
  identity shows a picker and changes nothing; with a built-in identity the named device flow or auth
  request is bound to it at that time and marked done, nothing else in the storage changes, and the
  browser is told, or sent to the OP's callback.
\<close>

theorem serve_outcome:
  "let form = fst (ParseForm r); uc = Get form queryUserCode; rid = Get form queryAuthRequestID;
       identity = Get form queryIdentity; resp = fst (serve callback now r new_response s);
       s' = snd (serve callback now r new_response s)
   in if snd (ParseForm r) \<noteq> None then rs_status resp = StatusBadRequest \<and> s' = s
      else if uc \<noteq> [] then
        (if identity = [] then resp = renderDevicePicker uc new_response \<and> s' = s
         else if known identity \<and> flowPending uc s
         then rs_status resp = StatusOK \<and> flowBound uc s' = Some (identity, now)
           \<and> s' = s\<lparr>deviceCodes := fmupd (userCodeIndex uc s)
               (approve now identity (the (fmlookup (deviceCodes s) (userCodeIndex uc s)))) (deviceCodes s)\<rparr>
         else rs_status resp = StatusBadRequest \<and> s' = s)
      else if rid = [] then rs_status resp = StatusBadRequest \<and> s' = s
      else if identity = [] then resp = renderPicker rid new_response \<and> s' = s
      else if known identity \<and> loginPending rid s
      then rs_status resp = StatusFound \<and> rs_location resp = hexEscapeNonASCII (callback rid)
        \<and> loginBound rid s' = Some (identity, now)
        \<and> s' = s\<lparr>authRequests := fmupd rid ((the (fmlookup (authRequests s) rid))
            \<lparr>ar_userID := identity, ar_authTime := now, ar_done := True\<rparr>) (authRequests s)\<rparr>
      else rs_status resp = StatusBadRequest \<and> s' = s"
proof -
  obtain form err where f: "ParseForm r = (form, err)" by (cases "ParseForm r")
  show ?thesis
  proof (cases "Get form queryUserCode = []")
    case True
    with f show ?thesis
      by (cases rule: lreq.complete_outcome [of now "Get form queryAuthRequestID" "Get form queryIdentity" s])
        (auto simp: serve_def Let_def Redirect_def split: option.splits dest: CompleteAuthRequest_done)
  next
    case False
    with f show ?thesis
      by (cases rule: dflow.complete_outcome [of now "Get form queryUserCode" "Get form queryIdentity" s])
        (auto simp: serve_def serveDeviceApproval_def Let_def new_response_def split: option.splits
          dest: CompleteDeviceAuthorization_done)
  qed
qed

text \<open>
  C28. The device picker's links do what they say: following the link shown for an identity, whatever
  bytes the user code holds, approves exactly that user code as exactly that identity.
\<close>

theorem device_link_approves:
  assumes "i \<in> set Identities" "uc \<noteq> []"
  shows "snd (serve callback now (follow (deviceHref uc i)) w s) =
      snd (CompleteDeviceAuthorization now uc (Subject i) s)
    \<and> (flowPending uc s \<longrightarrow>
        flowBound uc (snd (serve callback now (follow (deviceHref uc i)) w s)) = Some (Subject i, now))"
proof -
  have k: "known (Subject i)" using identityBySubject_unique [OF assms(1)] by simp
  have "snd (serve callback now (follow (deviceHref uc i)) w s) =
      snd (CompleteDeviceAuthorization now uc (Subject i) s)"
    using assms(2) plain_subject(4) [OF assms(1)]
    by (simp add: serve_def serveDeviceApproval_def device_link_form [OF assms(1)] Get_def
        queryUserCode_def queryIdentity_def Let_def split: prod.splits option.splits)
  moreover have "flowBound uc (snd (CompleteDeviceAuthorization now uc (Subject i) s)) = Some (Subject i, now)"
    if "flowPending uc s"
    using dflow.complete_bound dflow.complete_ok k that by blast
  ultimately show ?thesis by simp
qed

theorem device_link_approves_witness:
  "snd (serve (\<lambda>_. []) 60 (follow (deviceHref ''A&identity=bob'' (hd Identities))) new_response example_flow) =
     snd (CompleteDeviceAuthorization 60 ''A&identity=bob'' ''alice'' example_flow)"
proof -
  have i: "hd Identities \<in> set Identities" and n: "''A&identity=bob'' \<noteq> ([]::string)"
    by (simp_all add: Identities_def)
  have "Subject (hd Identities) = ''alice''" by (simp add: Identities_def)
  then show ?thesis using device_link_approves [OF i n, of "\<lambda>_. []" 60 new_response example_flow] by simp
qed

text \<open>
  C39. The login picker escapes the request id for HTML but not for the query. For an id of unreserved
  characters, as the OP's ids are, its links do what they say; but the id comes from the query of
  the page, and with one that itself contains an identity parameter every link of the page,
  whichever identity it shows, logs in as the embedded one.
\<close>

theorem login_link_injection:
  assumes i: "i \<in> set Identities" and j: "j \<in> set Identities"
    and rid: "list_all unreserved rid" "rid \<noteq> []"
  shows "snd (serve callback now (follow (pickerHref rid i)) w s) =
        snd (CompleteAuthRequest now rid (Subject i) s)
    \<and> snd (serve callback now (follow (pickerHref (rid @ ''&identity='' @ Subject j) i)) w s) =
        snd (CompleteAuthRequest now rid (Subject j) s)"
  using rid(2) plain_subject(4) [OF i] plain_subject(4) [OF j]
  by (intro conjI serve_login [OF picker_link_form [OF i rid(1)]]
      serve_login [OF injected_link_form [OF i j rid(1)]])
    (simp_all add: Get_def queryUserCode_def queryIdentity_def queryAuthRequestID_def)

theorem login_link_injection_witness:
  "snd (serve (\<lambda>_. []) 60 (follow (pickerHref ''q1&identity=bob'' (Identities ! 0))) new_response
      public_storage) =
    snd (CompleteAuthRequest 60 ''q1'' ''bob'' public_storage)"
proof -
  have i: "Identities ! 0 \<in> set Identities" "Identities ! 1 \<in> set Identities"
    by (simp_all add: Identities_def)
  have rid: "list_all unreserved ''q1''" "''q1'' \<noteq> []" by code_simp+
  have "Subject (Identities ! 1) = ''bob''" by (simp add: Identities_def)
  then show ?thesis
    using login_link_injection [OF i rid, of "\<lambda>_. []" 60 new_response public_storage] by simp
qed

text \<open>
  C31. No input reaches a page as markup: whatever the request id, user code or approved identity,
  the login pages hold the same number of angle brackets and of double quotes, and so does the page
  of a redirect, whatever its target.
\<close>

theorem login_pages_no_injection:
  assumes "c \<in> {CHR ''<'', CHR ''>'', CHR 0x22}"
  shows "count_list (rs_body (renderPicker rid w)) c = count_list (rs_body (renderPicker [] w)) c
    \<and> count_list (rs_body (renderDevicePicker uc w)) c = count_list (rs_body (renderDevicePicker [] w)) c
    \<and> count_list (rs_body (Redirect r url code w)) c = count_list (rs_body (Redirect r [] code w)) c"
proof -
  have "count_list (concat (map (identityItem (pickerHref rid)) Identities)) c =
      count_list (concat (map (identityItem (pickerHref [])) Identities)) c"
    "count_list (concat (map (identityItem (deviceHref uc)) Identities)) c =
      count_list (concat (map (identityItem (deviceHref [])) Identities)) c"
    unfolding count_list_concat map_map
    by (intro arg_cong [where f = sum_list] map_cong refl; simp add: count_identityItem [OF assms])+
  moreover have esc: "count_list (EscapeString s) c = 0" for s using assms by auto
  moreover have "count_list (rs_body (Redirect r url code w)) c = count_list (rs_body (Redirect r [] code w)) c"
    by (simp add: Redirect_def Let_def esc)
  ultimately show ?thesis
    by (simp only: renderPicker_def renderDevicePicker_def writeItems_eq Let_def emit_fields
        setContentType_fields count_list_append)
qed

theorem login_pages_no_injection_witness:
  "count_list (rs_body (renderDevicePicker ''<script>'' new_response)) CHR ''<'' =
     count_list (rs_body (renderDevicePicker [] new_response)) CHR ''<''"
  using login_pages_no_injection [of "CHR ''<''" "[]" new_response "''<script>''"] by blast

lemma is_line_errors:
  "fst (CompleteAuthRequest now rid subject s) = Some err \<Longrightarrow> is_line (errorText p ext err)"
  "fst (CompleteDeviceAuthorization now uc subject s) = Some err \<Longrightarrow> is_line (errorText p ext err)"
  by (auto simp: CompleteAuthRequest_def CompleteDeviceAuthorization_def printable_def
      split: if_splits option.splits)

text \<open>The one error text the page relays from outside is that of a body that could not be read.\<close>

definition error_body :: "detail \<Rightarrow> string \<Rightarrow> bool" where
  "error_body d body \<longleftrightarrow>
     (case d of
        FormError (BodyReadError m) \<Rightarrow> body = ''cannot parse form: '' @ m @ [CHR 0x0A]
      | _ \<Rightarrow> \<exists>line. is_line line \<and> body = line @ [CHR 0x0A])"

lemma error_body_line: "is_line line \<Longrightarrow> \<forall>m. d \<noteq> FormError (BodyReadError m) \<Longrightarrow> error_body d (line @ [CHR 0x0A])"
  by (auto simp: error_body_def split: detail.splits formError.splits)

definition error_page :: "(nat \<Rightarrow> bool) \<Rightarrow> (error \<Rightarrow> string) \<Rightarrow> response \<Rightarrow> bool" where
  "error_page p ext w \<longleftrightarrow>
     (case rs_detail w of
        None \<Rightarrow> rs_status w \<noteq> StatusBadRequest
      | Some d \<Rightarrow> rs_status w = StatusBadRequest \<and> rs_contentType w = ''text/plain; charset=utf-8''
          \<and> rs_nosniff w \<and> error_body d (rs_bytes p ext w))"

lemma error_page_httpError:
  assumes "is_line msg" "is_line (detailText p ext d)" "\<forall>m. d \<noteq> FormError (BodyReadError m)"
  shows "error_page p ext (httpError msg d StatusBadRequest new_response)"
  using error_body_line [of "msg @ detailText p ext d" d] assms
  by (simp add: error_page_def httpError_def rs_bytes_def new_response_def)

lemma error_page_form: "error_page p ext (httpError ''cannot parse form: '' (FormError e) StatusBadRequest new_response)"
proof (cases e)
  case (BodyReadError m)
  then show ?thesis by (simp add: error_page_def httpError_def rs_bytes_def new_response_def error_body_def)
qed (rule error_page_httpError, auto simp: printable_def)+

lemma error_page_other [simp]:
  "error_page p ext (renderPicker rid new_response)"
  "error_page p ext (renderDevicePicker uc new_response)"
  "error_page p ext (Redirect r url StatusFound new_response)"
  "error_page p ext (emit msg (setContentType ct new_response))"
  by (simp_all add: error_page_def renderPicker_def renderDevicePicker_def writeItems_eq Redirect_def
      emit_def setContentType_def new_response_def StatusOK_def StatusBadRequest_def StatusFound_def Let_def)

lemma error_page_serve: "error_page p ext (fst (serve callback now r new_response s))"
proof (cases "ParseForm r")
  case (Pair form err)
  have page: "error_page p ext (httpError msg (StorageError err) StatusBadRequest new_response)"
    if "is_line msg" "CompleteAuthRequest now rid subject s = (Some err, t)
      \<or> CompleteDeviceAuthorization now uc subject s = (Some err, t)" for msg err rid uc subject t
    using that is_line_errors [of now _ subject s err] by (intro error_page_httpError) (auto, (metis fst_conv)+)
  have missing: "error_page p ext (httpError (''missing '' @ queryAuthRequestID) NoDetail StatusBadRequest new_response)"
    by (rule error_page_httpError) (simp_all add: queryAuthRequestID_def printable_def)
  have lines: "is_line ''login failed: ''" "is_line ''device approval failed: ''"
    by (simp_all add: printable_def)
  show ?thesis
    using Pair missing error_page_form
    by (auto intro: page [OF lines(1)] page [OF lines(2)] simp: serve_def serveDeviceApproval_def Let_def split: option.splits prod.splits)
qed

text \<open>
  C32. What the login page says about an error is text. Every response that reports one is a 400 of
  type text/plain that browsers may not sniff, and its body is a message and its newline. Whatever
  bytes the query, the ids and the codes hold, valid UTF-8 or not, the message is one line without
  control characters; only when reading the body fails it ends in the text of that failure, which the
  page relays as it is, and then it is a line exactly if that text is.
\<close>

theorem login_errors_are_lines:
  "let resp = fst (serve callback now r new_response s)
   in case rs_detail resp of
        None \<Rightarrow> rs_status resp \<noteq> StatusBadRequest
      | Some d \<Rightarrow> rs_status resp = StatusBadRequest \<and> rs_contentType resp = ''text/plain; charset=utf-8''
          \<and> rs_nosniff resp
          \<and> (case d of
                FormError (BodyReadError m) \<Rightarrow>
                  rs_bytes p ext resp = ''cannot parse form: '' @ m @ [CHR 0x0A]
                  \<and> (is_line (''cannot parse form: '' @ m) \<longleftrightarrow> is_line m)
              | _ \<Rightarrow> \<exists>line. is_line line \<and> rs_bytes p ext resp = line @ [CHR 0x0A])"
  using error_page_serve [of p ext callback now r s]
  by (auto simp: error_page_def error_body_def Let_def printable_def
      split: option.splits detail.splits formError.splits)

end
