(* ===== verification/Json.thy ===== *)
theory Json
  imports GoHttp
begin

text \<open>
  How \<open>encoding/json\<close> writes a string: quotes, backslashes, control characters and the three HTML
  characters are escaped, bytes that are not UTF-8 become the replacement character, and the two
  Unicode line separators are escaped. Nothing it writes holds an angle bracket or an ampersand.
\<close>

definition htmlSafe :: "char \<Rightarrow> bool" where
  "htmlSafe c \<longleftrightarrow> between 0x20 0x7F c \<and> c \<notin> {CHR 0x22, CHR ''&'', CHR ''<'', CHR ''>'', backslash}"

definition jsonAscii :: "char \<Rightarrow> string" where
  "jsonAscii c =
     (if htmlSafe c then [c]
      else if c = backslash \<or> c = CHR 0x22 then [backslash, c]
      else if c = CHR 0x08 then [backslash, CHR ''b'']
      else if c = CHR 0x0C then [backslash, CHR ''f'']
      else if c = CHR 0x0A then [backslash, CHR ''n'']
      else if c = CHR 0x0D then [backslash, CHR ''r'']
      else if c = CHR 0x09 then [backslash, CHR ''t'']
      else backslash # ''u00'' @ [lowerhex (of_char c div 16), lowerhex (of_char c mod 16)])"

function jsonChars :: "string \<Rightarrow> string" where
  "jsonChars [] = []"
| "jsonChars (c # s) =
     (if between 0 0x7F c then jsonAscii c @ jsonChars s
      else if runeLen (c # s) = 0 then backslash # ''ufffd'' @ jsonChars s
      else if take 3 (c # s) = [CHR 0xE2, CHR 0x80, CHR 0xA8]
        then backslash # ''u2028'' @ jsonChars (drop 2 s)
      else if take 3 (c # s) = [CHR 0xE2, CHR 0x80, CHR 0xA9]
        then backslash # ''u2029'' @ jsonChars (drop 2 s)
      else take (runeLen (c # s)) (c # s) @ jsonChars (drop (runeLen (c # s) - 1) s))"
  by pat_completeness auto
termination by (relation "measure length") auto

definition jsonString :: "string \<Rightarrow> string" where
  "jsonString s = [CHR 0x22] @ jsonChars s @ [CHR 0x22]"

text \<open>Joining with commas.\<close>

fun commaSep :: "string list \<Rightarrow> string" where
  "commaSep [] = []"
| "commaSep [x] = x"
| "commaSep (x # xs) = x @ '','' @ commaSep xs"

definition jsonArray :: "string list \<Rightarrow> string" where
  "jsonArray xs = ''['' @ commaSep xs @ '']''"

text \<open>An object's members in order; an omitted member is absent from the list.\<close>

definition jsonObject :: "(string \<times> string) list \<Rightarrow> string" where
  "jsonObject ms = ''{'' @ commaSep (map (\<lambda>(k, v). jsonString k @ '':'' @ v) ms) @ ''}''"

definition jsonBool :: "bool \<Rightarrow> string" where
  "jsonBool b = (if b then ''true'' else ''false'')"

subsection \<open>No markup in JSON\<close>

definition unsafe :: "char set" where
  "unsafe = {CHR ''<'', CHR ''>'', CHR ''&''}"

definition inert :: "string \<Rightarrow> bool" where
  "inert s \<longleftrightarrow> unsafe \<inter> set s = {}"

lemma inert_append [simp]: "inert (a @ b) \<longleftrightarrow> inert a \<and> inert b"
  by (auto simp: inert_def)

lemma inert_Nil [simp]: "inert []"
  by (simp add: inert_def)

lemma inert_Cons: "inert (c # s) \<longleftrightarrow> c \<notin> unsafe \<and> inert s"
  by (auto simp: inert_def)

lemma lowerhex_inert: "n < 16 \<Longrightarrow> lowerhex n \<notin> unsafe"
proof -
  have "\<forall>n \<in> set [0..<16]. lowerhex n \<notin> unsafe" unfolding unsafe_def by code_simp
  then show "n < 16 \<Longrightarrow> lowerhex n \<notin> unsafe" by auto
qed

lemma unsafe_ascii: "c \<in> unsafe \<Longrightarrow> between 0 0x7F c"
  by (auto simp: unsafe_def between_def)

lemma jsonAscii_inert: "inert (jsonAscii c)"
  using lowerhex_inert [OF byte_digit(1)] lowerhex_inert [OF byte_digit(2)]
  by (auto simp: jsonAscii_def inert_Cons htmlSafe_def unsafe_def backslash_def)

text \<open>The bytes of a decoded rune are not ASCII.\<close>

lemma runeLen_bytes:
  assumes "c \<in> set (take (runeLen s) s)"
  shows "0x80 \<le> (of_char c :: nat)"
proof (cases s rule: runeLen.cases)
  case (1 a b r)
  have "runeLen (a # b # r) \<in> {0, 2, 3, 4}" by (auto split: list.splits)
  with assms 1 show ?thesis
    by (auto simp: between_def continuation_def split: if_splits list.splits)
qed (use assms in auto)

lemma jsonChars_inert: "inert (jsonChars s)"
proof (induction s rule: jsonChars.induct)
  case 1
  show ?case by simp
next
  case (2 c s)
  have rune: "inert (take (runeLen (c # s)) (c # s))"
    using runeLen_bytes [of _ "c # s"] unsafe_ascii by (fastforce simp: inert_def between_def)
  have lit: "inert (backslash # ''ufffd'')" "inert (backslash # ''u2028'')" "inert (backslash # ''u2029'')"
    by (simp_all add: inert_def unsafe_def backslash_def)
  show ?case
    using 2 jsonAscii_inert [of c] rune lit
    by (simp add: inert_Cons del: runeLen.simps take_Suc_Cons)
qed

lemma jsonString_inert [simp]: "inert (jsonString s)"
  using jsonChars_inert [of s] by (simp add: jsonString_def inert_Cons) (simp add: unsafe_def)

lemma commaSep_inert: "list_all inert xs \<Longrightarrow> inert (commaSep xs)"
  by (induction xs rule: commaSep.induct) (simp_all add: inert_Cons unsafe_def)

lemma jsonArray_inert [simp]: "list_all inert xs \<Longrightarrow> inert (jsonArray xs)"
  using commaSep_inert [of xs] by (simp add: jsonArray_def inert_Cons unsafe_def)

lemma jsonObject_inert [simp]:
  assumes "list_all (\<lambda>(k, v). inert v) ms"
  shows "inert (jsonObject ms)"
proof -
  have "list_all inert (map (\<lambda>(k, v). jsonString k @ '':'' @ v) ms)"
    using assms by (induction ms) (auto simp: inert_Cons unsafe_def)
  from commaSep_inert [OF this] show ?thesis by (simp add: jsonObject_def inert_Cons unsafe_def)
qed

lemma jsonBool_inert [simp]: "inert (jsonBool b)"
  by (simp add: jsonBool_def inert_Cons unsafe_def)

lemma inert_count: "inert s \<Longrightarrow> c \<in> unsafe \<Longrightarrow> count_list s c = 0"
  by (auto simp: inert_def count_list_0_iff)

end
