(* ===== verification/Launchpad.thy ===== *)
theory Launchpad
  imports Registry Login Json
begin

text \<open>
  The launchpad (\<open>internal/idp/launchpad.go\<close>): the IdP's own session cookie, the handlers that set
  and clear it, the page model built from the session and the live registry, and the two pages
  rendered from it. The handlers only read the storage.
\<close>

definition sessionCookie :: string where
  "sessionCookie = ''idp_session''"

definition uiScriptPath :: string where
  "uiScriptPath = ''/ui/launchpad.js''"

subsection \<open>The session cookie\<close>

definition setSessionCookie :: "string \<Rightarrow> response \<Rightarrow> response" where
  "setSessionCookie subject w =
     SetCookie \<lparr>ck_Name = sessionCookie, ck_Value = subject, ck_Path = ''/'', ck_MaxAge = 0,
                ck_HttpOnly = True, ck_SameSite = SameSiteLaxMode\<rparr> w"

definition clearSessionCookie :: "response \<Rightarrow> response" where
  "clearSessionCookie w =
     SetCookie \<lparr>ck_Name = sessionCookie, ck_Value = [], ck_Path = ''/'', ck_MaxAge = -1,
                ck_HttpOnly = True, ck_SameSite = SameSiteLaxMode\<rparr> w"

definition sessionIdentity :: "request \<Rightarrow> Identity option" where
  "sessionIdentity r =
     (case requestCookie r sessionCookie of
        None \<Rightarrow> None
      | Some v \<Rightarrow> if v = [] then None else identityBySubject v)"

definition pick :: "request \<Rightarrow> response \<Rightarrow> response" where
  "pick r w =
     (let subject = Get (Query r) queryIdentity
      in if identityBySubject subject = None
         then httpError ''unknown identity'' NoDetail StatusBadRequest w
         else Redirect r ''/'' StatusFound (setSessionCookie subject w))"

definition logout :: "request \<Rightarrow> response \<Rightarrow> response" where
  "logout r w = Redirect r ''/'' StatusFound (clearSessionCookie w)"

definition switchUser :: "request \<Rightarrow> response \<Rightarrow> response" where
  "switchUser r w = Redirect r ''/'' StatusFound (clearSessionCookie w)"

subsection \<open>The page model\<close>

record identityView =
  iv_Subject :: string
  iv_Name :: string
  iv_Email :: string
  iv_Apps :: "string list"

record launchpadData =
  ld_Authenticated :: bool
  ld_Identity :: "identityView option"
  ld_Identities :: "identityView list"
  ld_Tiles :: "ClientTile list"

fun viewsLoop :: "Identity list \<Rightarrow> identityView list \<Rightarrow> identityView list" where
  "viewsLoop [] out = out"
| "viewsLoop (i # ids) out =
     viewsLoop ids (out @ [\<lparr>iv_Subject = Subject i, iv_Name = Name i, iv_Email = [], iv_Apps = []\<rparr>])"

definition identityViews :: "identityView list" where
  "identityViews = viewsLoop Identities []"

definition buildData :: "request \<Rightarrow> storage \<Rightarrow> launchpadData" where
  "buildData r s =
     (let d = \<lparr>ld_Authenticated = False, ld_Identity = None, ld_Identities = identityViews,
               ld_Tiles = ClientTiles s\<rparr>
      in case sessionIdentity r of
           None \<Rightarrow> d
         | Some i \<Rightarrow> d\<lparr>ld_Authenticated := True,
                       ld_Identity := Some \<lparr>iv_Subject = Subject i, iv_Name = Name i,
                                            iv_Email = Email i, iv_Apps = Apps i\<rparr>\<rparr>)"

text \<open>The JSON encodings the struct tags give; \<open>omitempty\<close> drops an empty email or app list.\<close>

definition jsonIdentityView :: "identityView \<Rightarrow> string" where
  "jsonIdentityView v =
     jsonObject
       ([(''subject'', jsonString (iv_Subject v)), (''name'', jsonString (iv_Name v))]
        @ (if iv_Email v = [] then [] else [(''email'', jsonString (iv_Email v))])
        @ (if iv_Apps v = [] then [] else [(''apps'', jsonArray (map jsonString (iv_Apps v)))]))"

definition jsonTile :: "Tile \<Rightarrow> string" where
  "jsonTile t =
     jsonObject [(''name'', jsonString (tile_Name t)), (''description'', jsonString (tile_Description t)),
       (''icon_url'', jsonString (tile_IconURL t)), (''launch_url'', jsonString (tile_LaunchURL t))]"

definition jsonClientTile :: "ClientTile \<Rightarrow> string" where
  "jsonClientTile c =
     jsonObject [(''client_id'', jsonString (ct_ClientID c)), (''tile'', jsonTile (ct_Tile c))]"

definition jsonData :: "launchpadData \<Rightarrow> string" where
  "jsonData d =
     jsonObject
       [(''authenticated'', jsonBool (ld_Authenticated d)),
        (''identity'', case ld_Identity d of None \<Rightarrow> ''null'' | Some v \<Rightarrow> jsonIdentityView v),
        (''identities'', jsonArray (map jsonIdentityView (ld_Identities d))),
        (''tiles'', jsonArray (map jsonClientTile (ld_Tiles d)))]"

definition data :: "request \<Rightarrow> response \<Rightarrow> storage \<Rightarrow> response" where
  "data r w s =
     emit (jsonData (buildData r s) @ [CHR 0x0A])
       (setContentType ''application/json; charset=utf-8'' w)"

subsection \<open>The pages\<close>

definition hydration :: "launchpadData \<Rightarrow> string" where
  "hydration d =
     ''<script id='' @ q @ ''launchpad-data'' @ q @ '' type='' @ q @ ''application/json'' @ q @ ''>''
       @ jsonData d @ ''</script>''"

definition pageHead :: "string \<Rightarrow> string" where
  "pageHead title =
     ''<!doctype html><html lang='' @ q @ ''en'' @ q @ ''><head><meta charset='' @ q @ ''utf-8'' @ q @ ''>''
     @ ''<meta name='' @ q @ ''viewport'' @ q @ '' content='' @ q
     @ ''width=device-width, initial-scale=1'' @ q @ ''>''
     @ ''<title>'' @ EscapeString title @ ''</title>''
     @ ''<style>body{font-family:system-ui,sans-serif;max-width:52rem;margin:2rem auto;padding:0 1rem}''
     @ ''.tiles{display:flex;flex-wrap:wrap;gap:1rem;list-style:none;padding:0}''
     @ ''.tile{display:block;width:12rem;padding:1rem;border:1px solid #ccc;border-radius:.5rem;text-decoration:none;color:inherit;cursor:pointer}''
     @ ''.tile h3{margin:.2rem 0}.muted{color:#666}.bar{display:flex;gap:1rem;align-items:center}</style></head><body>''"

definition pageFoot :: string where
  "pageFoot = ''<script type='' @ q @ ''module'' @ q @ '' src='' @ q @ uiScriptPath @ q
     @ ''></script></body></html>''"

definition cardLink :: "string \<Rightarrow> string \<Rightarrow> string \<Rightarrow> string" where
  "cardLink attrs heading note =
     ''<li><a class='' @ q @ ''tile'' @ q @ attrs @ ''>''
     @ ''<h3>'' @ EscapeString heading @ ''</h3><p class='' @ q @ ''muted'' @ q @ ''>''
     @ EscapeString note @ ''</p></a></li>''"

definition pickCard :: "identityView \<Rightarrow> string" where
  "pickCard v =
     (let href = ''/pick?'' @ queryIdentity @ ''='' @ EscapeString (iv_Subject v)
      in cardLink ('' data-action='' @ q @ ''pick'' @ q @ '' href='' @ q @ href @ q) (iv_Name v) (iv_Subject v))"

definition tileCard :: "ClientTile \<Rightarrow> string" where
  "tileCard ct =
     (let display = (if tile_Name (ct_Tile ct) = [] then ct_ClientID ct else tile_Name (ct_Tile ct));
          launch = tile_LaunchURL (ct_Tile ct);
          href = (if launch = [] then ''#'' else launch)
      in cardLink ('' data-launch='' @ q @ EscapeString launch @ q @ '' href='' @ q @ EscapeString href @ q)
           display (tile_Description (ct_Tile ct)))"

fun writeCards :: "('a \<Rightarrow> string) \<Rightarrow> 'a list \<Rightarrow> response \<Rightarrow> response" where
  "writeCards render [] w = w"
| "writeCards render (x # xs) w = writeCards render xs (emit (render x) w)"

definition renderHomePicker :: "launchpadData \<Rightarrow> response \<Rightarrow> response" where
  "renderHomePicker d w =
     (let w1 = emit (pageHead (''devedge-idp '' @ em_dash @ '' pick an identity'')) w;
          w2 = emit (''<h1>devedge-idp <span class='' @ q @ ''muted'' @ q
                 @ ''>(development only)</span></h1>''
                 @ ''<p>Passwordless dev login. Pick who you are '' @ em_dash
                 @ '' no credential is checked.</p>''
                 @ ''<ul class='' @ q @ ''tiles'' @ q @ ''>'') w1;
          w3 = writeCards pickCard (ld_Identities d) w2
      in emit pageFoot (emit (hydration d) (emit ''</ul>'' w3)))"

definition renderLaunchpad :: "launchpadData \<Rightarrow> response \<Rightarrow> response" where
  "renderLaunchpad d w =
     (let w1 = emit (pageHead (''devedge-idp '' @ em_dash @ '' launchpad'')) w;
          name = (case ld_Identity d of None \<Rightarrow> [] | Some v \<Rightarrow> iv_Name v);
          w2 = emit (''<div class='' @ q @ ''bar'' @ q @ ''><h1>Your apps</h1>''
                 @ ''<span class='' @ q @ ''muted'' @ q @ ''>Signed in as '' @ EscapeString name @ ''</span>''
                 @ ''<a href='' @ q @ ''/logout'' @ q @ '' data-action='' @ q @ ''logout'' @ q @ ''>Log out</a>''
                 @ ''<a href='' @ q @ ''/switch'' @ q @ '' data-action='' @ q @ ''switch'' @ q
                 @ ''>Switch user</a></div>'') w1;
          w3 = emit (''<ul class='' @ q @ ''tiles'' @ q @ ''>'') w2;
          w4 = writeCards tileCard (ld_Tiles d) w3
      in emit pageFoot (emit (hydration d) (emit ''</ul>'' w4)))"

definition home :: "request \<Rightarrow> response \<Rightarrow> storage \<Rightarrow> response" where
  "home r w s =
     (let w1 = setContentType html_type w;
          d = buildData r s
      in if \<not> ld_Authenticated d then renderHomePicker d w1 else renderLaunchpad d w1)"

text \<open>
  \<open>rootWithFallback\<close> takes the exact path \<open>/\<close> away from the OP, which is a handler the library made.
\<close>

definition rootWithFallback ::
    "(request \<Rightarrow> response \<Rightarrow> storage \<Rightarrow> response \<times> storage)
       \<Rightarrow> request \<Rightarrow> response \<Rightarrow> storage \<Rightarrow> response \<times> storage" where
  "rootWithFallback opHandler r w s =
     (if rq_path r = ''/'' then (home r w s, s) else opHandler r w s)"

subsection \<open>The embedded assets\<close>

text \<open>
  \<open>http.StripPrefix\<close>, for a request whose path needs no raw form: the prefix is taken off the path, a
  path without it is not found. \<open>fs.Sub\<close> of the embedded files fails for an invalid directory name
  only, which \<open>assets\<close> is not. \<open>fileServer\<close> is \<open>http.FileServer\<close>.
\<close>

definition StatusNotFound :: nat where "StatusNotFound = 404"

definition StripPrefix ::
    "string \<Rightarrow> (request \<Rightarrow> response \<Rightarrow> response) \<Rightarrow> request \<Rightarrow> response \<Rightarrow> response" where
  "StripPrefix pfx h r w =
     (if pfx = [] then h r w
      else if take (length pfx) (rq_path r) = pfx
      then h (r\<lparr>rq_path := drop (length pfx) (rq_path r)\<rparr>) w
      else httpError ''404 page not found'' NoDetail StatusNotFound w)"

type_synonym files = "string \<Rightarrow> string option"

definition fsSub :: "files \<Rightarrow> string \<Rightarrow> files" where
  "fsSub fsys dir = (\<lambda>name. fsys (dir @ ''/'' @ name))"

definition assetsHandler ::
    "(files \<Rightarrow> request \<Rightarrow> response \<Rightarrow> response) \<Rightarrow> files \<Rightarrow> request \<Rightarrow> response \<Rightarrow> response" where
  "assetsHandler fileServer uiAssets = StripPrefix ''/ui/'' (fileServer (fsSub uiAssets ''assets''))"

text \<open>
  The script both pages load is served from the embedded bundle: the path the pages name asks the
  file server for \<open>launchpad.js\<close> among the files under \<open>assets\<close>.
\<close>

lemma script_served:
  "rq_path r = uiScriptPath \<Longrightarrow>
     assetsHandler fileServer ui r w =
       fileServer (\<lambda>name. ui (''assets/'' @ name)) (r\<lparr>rq_path := ''launchpad.js''\<rparr>) w"
  by (simp add: assetsHandler_def StripPrefix_def uiScriptPath_def fsSub_def)

subsection \<open>The pages hold no markup but their own\<close>

lemma writeCards_eq: "writeCards render xs w = emit (concat (map render xs)) w"
  by (induction xs arbitrary: w) (simp_all add: emit_def)

lemma viewsLoop_eq:
  "viewsLoop ids out =
     out @ map (\<lambda>i. \<lparr>iv_Subject = Subject i, iv_Name = Name i, iv_Email = [], iv_Apps = []\<rparr>) ids"
  by (induction ids arbitrary: out) simp_all

lemma jsonIdentityView_inert [simp]: "inert (jsonIdentityView v)"
  unfolding jsonIdentityView_def by (intro jsonObject_inert) (simp add: list_all_iff)

lemma jsonClientTile_inert [simp]: "inert (jsonClientTile c)"
proof -
  have "inert (jsonTile t)" for t unfolding jsonTile_def by (intro jsonObject_inert) simp
  then show ?thesis unfolding jsonClientTile_def by (intro jsonObject_inert) simp
qed

lemma jsonData_inert: "inert (jsonData d)"
proof -
  have "inert ''null''" by (simp add: inert_def unsafe_def)
  then show ?thesis
    unfolding jsonData_def by (intro jsonObject_inert) (simp add: list_all_iff split: option.splits)
qed

lemma count_jsonData: "c \<in> {CHR ''<'', CHR ''>''} \<Longrightarrow> count_list (jsonData d) c = 0"
  using inert_count [OF jsonData_inert] by (auto simp: unsafe_def)

lemma count_cards:
  assumes "length xs = length ys" "\<And>x y. count_list (render x) c = count_list (render y) c"
  shows "count_list (concat (map render xs)) c = count_list (concat (map render ys)) c"
  using assms(1)
proof (induction xs ys rule: list_induct2)
  case Nil
  show ?case by simp
next
  case (Cons x xs y ys)
  then show ?case using assms(2) [of x y] by simp
qed

lemma count_card:
  assumes "\<And>s. count_list (EscapeString s) c = 0"
  shows "count_list (tileCard x) c = count_list (tileCard y) c"
    "count_list (pickCard v) c = count_list (pickCard v') c"
  unfolding tileCard_def pickCard_def cardLink_def Let_def count_list_append assms
  by (rule refl)+

subsection \<open>The browser\<close>

text \<open>
  What a browser does with the cookies of a response (RFC 6265): a cookie replaces the one of its
  name, a negative max-age removes it. This is only used to state what a session is.
\<close>

definition storeCookie :: "(string \<times> string) list \<Rightarrow> Cookie \<Rightarrow> (string \<times> string) list" where
  "storeCookie jar c =
     (let rest = filter (\<lambda>(n, v). n \<noteq> ck_Name c) jar
      in if ck_MaxAge c < 0 then rest else (ck_Name c, ck_Value c) # rest)"

definition receive :: "response \<Rightarrow> (string \<times> string) list \<Rightarrow> (string \<times> string) list" where
  "receive resp jar = foldl storeCookie jar (rs_cookies resp)"

definition request_with :: "(string \<times> string) list \<Rightarrow> request" where
  "request_with jar = \<lparr>rq_method = ''GET'', rq_path = ''/'', rq_rawQuery = [], rq_form = NoForm, rq_cookies = jar\<rparr>"

subsection \<open>Properties\<close>

text \<open>
  C29. Picking an identity on the home page: an unknown one is refused and no cookie is set; for a
  built-in one the browser is sent home and from then on every page is that identity's, with its
  subject, name, email and apps.
\<close>

theorem pick_opens_session:
  "let subject = Get (Query r) queryIdentity; resp = pick r new_response;
       d = buildData (request_with (receive resp jar)) s
   in case identityBySubject subject of
        None \<Rightarrow> rs_status resp = StatusBadRequest \<and> receive resp jar = jar
      | Some i \<Rightarrow> rs_status resp = StatusFound \<and> rs_location resp = ''/'' \<and> ld_Authenticated d
          \<and> ld_Identity d = Some \<lparr>iv_Subject = subject, iv_Name = Name i, iv_Email = Email i, iv_Apps = Apps i\<rparr>"
proof (cases "identityBySubject (Get (Query r) queryIdentity)")
  case None
  then show ?thesis by (simp add: pick_def receive_def httpError_def new_response_def Let_def)
next
  case (Some i)
  then have "Get (Query r) queryIdentity \<noteq> []" by auto
  with Some show ?thesis
    using identityBySubject_Subject [OF Some]
    by (simp add: pick_def receive_def Redirect_def SetCookie_def setSessionCookie_def new_response_def
        storeCookie_def request_with_def buildData_def sessionIdentity_def requestCookie_def Let_def)
qed

text \<open>
  Logging out and switching user end the session: whatever cookies the browser held, the next
  page is the picker, and the browser's other cookies are kept.
\<close>

theorem logout_ends_session:
  "let jar' = receive (logout r new_response) jar
   in \<not> ld_Authenticated (buildData (request_with jar') s)
     \<and> ld_Identity (buildData (request_with jar') s) = None
     \<and> home (request_with jar') new_response s =
         renderHomePicker (buildData (request_with jar') s) (setContentType html_type new_response)
     \<and> map_of jar' name = (if name = sessionCookie then None else map_of jar name)
     \<and> switchUser r new_response = logout r new_response"
proof -
  have none: "map_of (filter (\<lambda>(n, v). n \<noteq> k) jar) k = None" for k :: string
    by (induction jar) auto
  have other: "map_of (filter (\<lambda>(n, v). n \<noteq> k) jar) name = map_of jar name" if "name \<noteq> k" for k :: string
    using that by (induction jar) auto
  show ?thesis
    by (simp add: logout_def switchUser_def receive_def Redirect_def SetCookie_def clearSessionCookie_def
        new_response_def storeCookie_def request_with_def buildData_def sessionIdentity_def
        requestCookie_def none other home_def Let_def)
qed

text \<open>
  A reload is live on the launchpad: every client a reload installs has its tile on every page
  built afterwards, under its id, and the tiles come sorted by id without duplicates.
\<close>

theorem reload_shows_tiles:
  assumes "declared cs cid = Some c"
  shows "\<lparr>ct_ClientID = cid, ct_Tile = c_tile c\<rparr> \<in> set (ld_Tiles (buildData r (ReplaceFileClients cs s)))
    \<and> sorted_wrt (<) (map ct_ClientID (ld_Tiles (buildData r (ReplaceFileClients cs s))))"
proof -
  have tiles: "ld_Tiles (buildData r t) = ClientTiles t" for t
    by (simp add: buildData_def Let_def split: option.splits)
  have "fmlookup (clients (ReplaceFileClients cs s)) cid = Some c"
    using assms by (simp add: lookup_ReplaceFileClients)
  then show ?thesis
    using reg.ids_strictly_sorted [of "ReplaceFileClients cs s"]
      set_ClientTiles_range [OF enumerates_range_keys]
    by (simp add: tiles ClientTiles_def ClientTiles_range_ids)
qed

theorem reload_shows_tiles_witness:
  "\<lparr>ct_ClientID = ''orders'', ct_Tile = c_tile orders_client\<rparr>
     \<in> set (ld_Tiles (buildData (request_with []) (ReplaceFileClients [orders_client] boot_storage)))"
proof -
  have "declared [orders_client] ''orders'' = Some orders_client"
    by (simp add: declared_def orders_client_def)
  from reload_shows_tiles [OF this] show ?thesis by blast
qed

text \<open>
  C30. Nothing a clients file says can inject markup: two page models with equally many tiles and
  identities render to pages with the same number of angle brackets, the inlined JSON included,
  which holds none; so no tile name, description or link and no client id closes the script element
  or opens another.
\<close>

theorem launchpad_no_injection:
  assumes "c \<in> {CHR ''<'', CHR ''>''}"
    and "length (ld_Tiles d) = length (ld_Tiles d')" "length (ld_Identities d) = length (ld_Identities d')"
  shows "count_list (rs_body (renderLaunchpad d w)) c = count_list (rs_body (renderLaunchpad d' w)) c
    \<and> count_list (rs_body (renderHomePicker d w)) c = count_list (rs_body (renderHomePicker d' w)) c
    \<and> count_list (jsonData d) c = 0"
proof -
  have esc: "count_list (EscapeString s) c = 0" for s using assms(1) by auto
  have cards: "count_list (concat (map tileCard (ld_Tiles d))) c = count_list (concat (map tileCard (ld_Tiles d'))) c"
    "count_list (concat (map pickCard (ld_Identities d))) c = count_list (concat (map pickCard (ld_Identities d'))) c"
    using count_cards [OF assms(2) count_card(1) [OF esc]] count_cards [OF assms(3) count_card(2) [OF esc]] by auto
  have json: "count_list (jsonData d) c = 0" for d by (rule count_jsonData [OF assms(1)])
  show ?thesis
    by (simp only: renderLaunchpad_def renderHomePicker_def writeCards_eq hydration_def Let_def
        emit_fields count_list_append esc cards json)
qed

theorem launchpad_no_injection_witness:
  "count_list (rs_body (renderLaunchpad (buildData (request_with []) boot_storage
       \<lparr>ld_Tiles := [\<lparr>ct_ClientID = ''</script>'', ct_Tile = no_tile\<rparr>]\<rparr>) new_response)) CHR ''<'' =
   count_list (rs_body (renderLaunchpad (buildData (request_with []) boot_storage
       \<lparr>ld_Tiles := [\<lparr>ct_ClientID = ''x'', ct_Tile = no_tile\<rparr>]\<rparr>) new_response)) CHR ''<''"
  by (rule launchpad_no_injection [THEN conjunct1]) simp_all

end
