(* ===== verification/Wiring.thy ===== *)
theory Wiring
  imports Guarantees Launchpad ClientsFile "HOL-Library.Sublist"
begin

text \<open>
  The wiring (\<open>internal/idp/idp.go\<close>, \<open>cmd/idp/main.go\<close>, \<open>cmd/devauthz/main.go\<close>): the OP's
  configuration, the table of handlers, and the two programs up to the point where they serve.

  What the OpenID library and the SDK do is a parameter: a \<open>provider\<close> is the handler the library
  made and the callback URL it computes; \<open>newStatic\<close> and \<open>newDynamic\<close> are its two constructors.
\<close>

type_synonym httpHandler = "time \<Rightarrow> request \<Rightarrow> response \<Rightarrow> storage \<Rightarrow> response \<times> storage"

record provider =
  pv_handler :: httpHandler
  pv_callback :: "request \<Rightarrow> string \<Rightarrow> string"

text \<open>The library's user-code format and the loggers are only named and passed on.\<close>

datatype UserCodeConfig = UserCodeBase20

datatype logger = DefaultLogger | StderrLogger | WithGroup logger string

record opConfig =
  oc_CryptoKey :: string
  oc_CodeMethodS256 :: bool
  oc_AuthMethodPost :: bool
  oc_GrantTypeRefreshToken :: bool
  oc_SupportedUILocales :: "string list"
  oc_DeviceLifetime :: duration
  oc_DevicePollInterval :: duration
  oc_DeviceUserFormPath :: string
  oc_DeviceUserCode :: UserCodeConfig

datatype opOption = WithAllowInsecure | WithLogger logger

record Config =
  cfg_Issuer :: string
  cfg_RedirectURIs :: "string list"
  cfg_Logger :: "logger option"

type_synonym newOP = "string \<Rightarrow> opConfig \<Rightarrow> opOption list \<Rightarrow> string + provider"

text \<open>\<open>sha256\<close> is \<open>sha256.Sum256\<close>.\<close>

definition newProvider ::
    "(string \<Rightarrow> string) \<Rightarrow> newOP \<Rightarrow> newOP \<Rightarrow> string \<Rightarrow> logger \<Rightarrow> provider result" where
  "newProvider sha256 newStatic newDynamic issuer logger =
     (let config = \<lparr>oc_CryptoKey = sha256 ''devedge-idp-dev-key'', oc_CodeMethodS256 = True,
                    oc_AuthMethodPost = True, oc_GrantTypeRefreshToken = True,
                    oc_SupportedUILocales = [''en''], oc_DeviceLifetime = 5 * Minute,
                    oc_DevicePollInterval = 5 * Second, oc_DeviceUserFormPath = loginPath,
                    oc_DeviceUserCode = UserCodeBase20\<rparr>;
          opts = [WithAllowInsecure, WithLogger (WithGroup logger ''op'')];
          made = (if issuer \<noteq> [] then newStatic issuer config opts else newDynamic [] config opts)
      in case made of Inl err \<Rightarrow> Inl (ProviderError err) | Inr p \<Rightarrow> Inr p)"

definition newLoginHandler :: "provider \<Rightarrow> httpHandler" where
  "newLoginHandler p = (\<lambda>now r w s. serve (pv_callback p r) now r w s)"

definition handlers :: "(request \<Rightarrow> response \<Rightarrow> response) \<Rightarrow> provider \<Rightarrow> (string \<times> httpHandler) list" where
  "handlers assets p =
     [(loginPath, newLoginHandler p),
      (''/launchpad.json'', \<lambda>now r w s. (data r w s, s)),
      (''/pick'', \<lambda>now r w s. (pick r w, s)),
      (''/logout'', \<lambda>now r w s. (logout r w, s)),
      (''/switch'', \<lambda>now r w s. (switchUser r w, s)),
      (''/ui/'', \<lambda>now r w s. (assets r w, s)),
      (''/'', \<lambda>now r w s. rootWithFallback (pv_handler p now) r w s)]"

definition New ::
    "(string \<Rightarrow> string) \<Rightarrow> newOP \<Rightarrow> newOP \<Rightarrow> (files \<Rightarrow> request \<Rightarrow> response \<Rightarrow> response) \<Rightarrow> files
       \<Rightarrow> string + rsaPrivateKey \<Rightarrow> string \<Rightarrow> Config
       \<Rightarrow> ((string \<times> httpHandler) list \<times> storage) result" where
  "New sha256 newStatic newDynamic fileServer uiAssets key kid cfg =
     (let logger = (case cfg_Logger cfg of None \<Rightarrow> DefaultLogger | Some l \<Rightarrow> l)
      in bind_result (NewStorage key kid (seedClients (cfg_RedirectURIs cfg)))
           (\<lambda>storage. bind_result (newProvider sha256 newStatic newDynamic (cfg_Issuer cfg) logger)
             (\<lambda>p. Inr (handlers (assetsHandler fileServer uiAssets) p, storage))))"

subsection \<open>The programs\<close>

definition env :: "(string \<Rightarrow> string) \<Rightarrow> string \<Rightarrow> string \<Rightarrow> string" where
  "env getenv key def = (let v = getenv key in if v \<noteq> [] then v else def)"

text \<open>A flag given on the command line wins over its default.\<close>

definition flagValue :: "(string \<Rightarrow> string option) \<Rightarrow> string \<Rightarrow> string \<Rightarrow> string" where
  "flagValue cli name def = (case cli name of None \<Rightarrow> def | Some v \<Rightarrow> v)"

text \<open>How a program ends its start-up: exit status 1 with the message it logged, or serving.\<close>

datatype 'a outcome = Exit1 string | Serving 'a

text \<open>What the programs log on their way to serving, with the attributes of the line.\<close>

datatype logLine =
    WatchingFile string nat      \<comment> \<open>watching ... for hot-reload, with the number of tiles or grants\<close>
  | NoFile string                \<comment> \<open>no ... file found\<close>
  | NonProduction
  | Starting "(string \<times> string) list"

record running =
  run_grpcAddr :: string
  run_httpAddr :: string
  run_log :: "logLine list"
  run_handlers :: "(string \<times> httpHandler) list"
  run_storage :: storage
  run_watching :: bool

text \<open>
  \<open>main\<close> of the IdP. \<open>new\<close> is \<open>idp.New\<close> with the library's parameters; \<open>fs0\<close>, \<open>fs1\<close>, \<open>fs2\<close> are
  the file systems the three system calls of the start-up meet; \<open>newServer\<close> is \<open>server.New\<close>.
\<close>

definition idp_main ::
    "(Config \<Rightarrow> ((string \<times> httpHandler) list \<times> storage) result) \<Rightarrow> unmarshal
       \<Rightarrow> (string \<Rightarrow> string \<Rightarrow> string option) \<Rightarrow> (string \<Rightarrow> string) \<Rightarrow> (string \<Rightarrow> string option)
       \<Rightarrow> fs \<Rightarrow> fs \<Rightarrow> fs \<Rightarrow> running outcome" where
  "idp_main new unmarshal newServer getenv cli fs0 fs1 fs2 =
     (let grpcAddr = flagValue cli ''grpc-addr'' (env getenv ''IDP_GRPC_ADDR'' '':9090'');
          httpAddr = flagValue cli ''http-addr'' (env getenv ''IDP_HTTP_ADDR'' '':8080'');
          issuer = flagValue cli ''issuer'' (env getenv ''IDP_ISSUER'' []);
          clientsPath = flagValue cli ''clients'' (env getenv ''IDP_CLIENTS'' []);
          exampleRedirect = flagValue cli ''example-redirect-uri'' (env getenv ''IDP_EXAMPLE_REDIRECT_URI'' []);
          cfg = \<lparr>cfg_Issuer = issuer,
                 cfg_RedirectURIs = (if exampleRedirect \<noteq> [] then [exampleRedirect] else []),
                 cfg_Logger = Some StderrLogger\<rparr>
      in case new cfg of
           Inl err \<Rightarrow> Exit1 ''build idp''
         | Inr (hs, storage) \<Rightarrow>
             (case (if clientsPath = [] then Some (storage, False, [])
                    else if fs0 clientsPath \<noteq> None
                    then (case WatchClientsFile unmarshal clientsPath fs1 fs2 storage of
                            Inl err \<Rightarrow> None
                          | Inr w \<Rightarrow> Some (w_storage w, True,
                              [WatchingFile clientsPath (length (ClientTiles (w_storage w)))]))
                    else Some (storage, False, [NoFile clientsPath])) of
                None \<Rightarrow> Exit1 ''load clients file''
              | Some (s, watching, log) \<Rightarrow>
                  (case newServer grpcAddr httpAddr of
                     Some err \<Rightarrow> Exit1 ''build server''
                   | None \<Rightarrow> Serving \<lparr>run_grpcAddr = grpcAddr, run_httpAddr = httpAddr,
                                    run_log = log @ [NonProduction, Starting
                                      [(''grpc_addr'', grpcAddr), (''http_addr'', httpAddr), (''issuer'', issuer),
                                       (''discovery'', ''/.well-known/openid-configuration''), (''jwks'', ''/keys''),
                                       (''login'', ''/login''), (''launchpad'', ''/'')]],
                                    run_handlers = hs, run_storage = s, run_watching = watching\<rparr>)))"

text \<open>
  The end of \<open>main\<close>: \<open>serve\<close> is what \<open>srv.Serve\<close> returns when the context ends. The result is the exit
  status and the message of the error it logs.
\<close>

definition exitStatus :: "('a \<Rightarrow> string option) \<Rightarrow> 'a outcome \<Rightarrow> nat \<times> string" where
  "exitStatus serveResult m =
     (case m of
        Exit1 msg \<Rightarrow> (1, msg)
      | Serving x \<Rightarrow> (case serveResult x of Some err \<Rightarrow> (1, ''serve'') | None \<Rightarrow> (0, [])))"

text \<open>
  \<open>main\<close> of the decision service: its store, the watcher and the handler are the SDK's. \<open>watch\<close> is
  \<open>devsvc.WatchGrantsFile\<close> on a fresh store, \<open>grants\<close> the number of grants of a
  store, \<open>authorizePath\<close> its constant \<open>DefaultAuthorizePath\<close>.
\<close>

record 'g devauthz =
  da_grpcAddr :: string
  da_httpAddr :: string
  da_store :: 'g
  da_pattern :: string
  da_enableAdmin :: bool
  da_log :: "logLine list"

definition devauthz_env :: "(string \<Rightarrow> string) \<Rightarrow> string \<Rightarrow> string \<Rightarrow> string" where
  "devauthz_env getenv key def = (let v = getenv key in if v \<noteq> [] then v else def)"

definition devauthz_main ::
    "'g \<Rightarrow> ('g \<Rightarrow> nat) \<Rightarrow> string \<Rightarrow> (string \<Rightarrow> 'g \<Rightarrow> duration \<Rightarrow> string + 'g) \<Rightarrow> (string \<Rightarrow> string \<Rightarrow> string option)
       \<Rightarrow> (string \<Rightarrow> string) \<Rightarrow> (string \<Rightarrow> string option) \<Rightarrow> fs \<Rightarrow> 'g devauthz outcome" where
  "devauthz_main newStore grants authorizePath watch newServer getenv cli fs0 =
     (let grpcAddr = flagValue cli ''grpc-addr'' (devauthz_env getenv ''DEVAUTHZ_GRPC_ADDR'' '':9091'');
          httpAddr = flagValue cli ''http-addr'' (devauthz_env getenv ''DEVAUTHZ_HTTP_ADDR'' '':8090'');
          grantsPath = flagValue cli ''grants'' (devauthz_env getenv ''DEVAUTHZ_GRANTS'' ''./grants.yaml'')
      in case (if grantsPath = [] then Some (newStore, [])
               else if fs0 grantsPath \<noteq> None
               then (case watch grantsPath newStore Second of
                       Inl err \<Rightarrow> None
                     | Inr g \<Rightarrow> Some (g, [WatchingFile grantsPath (grants g)]))
               else Some (newStore, [NoFile grantsPath])) of
           None \<Rightarrow> Exit1 ''load grants file''
         | Some (g, log) \<Rightarrow>
             (case newServer grpcAddr httpAddr of
                Some err \<Rightarrow> Exit1 ''build server''
              | None \<Rightarrow> Serving \<lparr>da_grpcAddr = grpcAddr, da_httpAddr = httpAddr, da_store = g,
                               da_pattern = ''/v1/'', da_enableAdmin = True,
                               da_log = log @ [NonProduction, Starting
                                 [(''grpc_addr'', grpcAddr), (''http_addr'', httpAddr),
                                  (''authorize'', authorizePath), (''admin_grants'', ''/v1/grants'')]]\<rparr>))"

subsection \<open>The handlers stay inside the storage machine\<close>

text \<open>The methods of \<open>op.Storage\<close> and of the login page.\<close>

fun op_event :: "event \<Rightarrow> bool" where
  "op_event (ERegisterClient c) = False"
| "op_event (EReplaceFileClients cs) = False"
| "op_event e = True"

text \<open>The login page makes at most one event.\<close>

lemma serve_event:
  "snd (serve callback now r w s) = s
   \<or> (\<exists>e. drawn e = [] \<and> pointers_ok e s \<and> snd (serve callback now r w s) = exec e s \<and> op_event e)"
proof -
  have "snd (serve callback now r w s) = s
      \<or> (\<exists>uc i. snd (serve callback now r w s) = snd (CompleteDeviceAuthorization now uc i s))
      \<or> (\<exists>rid i. snd (serve callback now r w s) = snd (CompleteAuthRequest now rid i s))"
  proof (cases "ParseForm r")
    case (Pair form err)
    then show ?thesis
      by (auto simp: serve_def serveDeviceApproval_def Let_def split: option.splits prod.splits)
        (metis snd_conv)+
  qed
  then show ?thesis
  proof (elim disjE exE)
    fix uc i
    assume "snd (serve callback now r w s) = snd (CompleteDeviceAuthorization now uc i s)"
    then show ?thesis by (intro disjI2 exI [of _ "ECompleteDeviceAuthorization now uc i"]) simp
  next
    fix rid i
    assume "snd (serve callback now r w s) = snd (CompleteAuthRequest now rid i s)"
    then show ?thesis by (intro disjI2 exI [of _ "ECompleteAuthRequest now rid i"]) simp
  qed simp
qed

subsection \<open>Routing\<close>

text \<open>
  The mux is the SDK's, a function of the table it is given, and it also serves \<open>probes\<close> of its own:
  \<open>/healthz\<close> and \<open>/readyz\<close> (\<open>README.md\<close>). What the comments of \<open>New\<close> and of the other program's \<open>main\<close>
  rely on is that a pattern is an exact path, or a prefix when it ends in a slash, and that the most
  specific pattern wins, the probes' included.
\<close>

type_synonym mux = "(string \<times> httpHandler) list \<Rightarrow> string \<Rightarrow> httpHandler option"

definition probePaths :: "string list" where
  "probePaths = [''/healthz'', ''/readyz'']"

definition matches :: "string \<Rightarrow> string \<Rightarrow> bool" where
  "matches pat path \<longleftrightarrow> pat = path \<or> (pat \<noteq> [] \<and> last pat = CHR ''/'' \<and> prefix pat path)"

definition best :: "(string \<times> httpHandler) list \<Rightarrow> string \<Rightarrow> string \<times> httpHandler \<Rightarrow> bool" where
  "best table path e \<longleftrightarrow> matches (fst e) path
     \<and> list_all (\<lambda>e'. matches (fst e') path \<longrightarrow> length (fst e') \<le> length (fst e)) table"

definition most_specific :: "(string \<times> httpHandler) list \<Rightarrow> mux \<Rightarrow> bool" where
  "most_specific probes mux \<longleftrightarrow>
     (\<forall>table path.
        (mux table path = None \<longrightarrow> (\<forall>e \<in> set (probes @ table). \<not> matches (fst e) path))
        \<and> (\<forall>h. mux table path = Some h \<longrightarrow>
             (\<exists>e \<in> set (probes @ table). best (probes @ table) path e \<and> h = snd e)))"

lemma best_iff:
  "best table path e \<longleftrightarrow> matches (fst e) path
     \<and> (\<forall>e' \<in> set table. matches (fst e') path \<longrightarrow> length (fst e') \<le> length (fst e))"
  unfolding best_def list_all_iff ..

text \<open>Where every longest match has the same handler, that handler is chosen.\<close>

lemma most_specificD:
  assumes "most_specific probes mux" "e \<in> set (probes @ table)" "matches (fst e) path"
    and only: "\<And>e'. e' \<in> set (probes @ table) \<Longrightarrow> matches (fst e') path \<Longrightarrow> length (fst e) \<le> length (fst e') \<Longrightarrow>
          snd e' = snd e"
  shows "mux table path = Some (snd e)"
proof (cases "mux table path")
  case None
  with assms(1-3) show ?thesis unfolding most_specific_def by blast
next
  case (Some h)
  with assms(1) obtain e' where e': "e' \<in> set (probes @ table)" "best (probes @ table) path e'" "h = snd e'"
    unfolding most_specific_def by blast
  then have "matches (fst e') path" "length (fst e) \<le> length (fst e')"
    using assms(2,3) unfolding best_iff by blast+
  with only e' Some show ?thesis by simp
qed

text \<open>A mux that behaves so: the first of the longest matches.\<close>

definition refMux :: "(string \<times> httpHandler) list \<Rightarrow> mux" where
  "refMux probes table path = map_option snd (find (best (probes @ table) path) (probes @ table))"

lemma matches_length: "matches pat path \<Longrightarrow> length pat < length path + 1"
  by (auto simp: matches_def dest: prefix_length_le)

lemma refMux_most_specific: "most_specific probes (refMux probes)"
  unfolding most_specific_def
proof (intro allI conjI impI ballI notI)
  fix table path e
  let ?t = "probes @ table"
  assume none: "refMux probes table path = None" and e: "e \<in> set ?t" "matches (fst e) path"
  let ?P = "\<lambda>e. e \<in> set ?t \<and> matches (fst e) path"
  have "\<forall>y. ?P y \<longrightarrow> length (fst y) < length path + 1" using matches_length by blast
  then obtain x where "?P x" "\<forall>y. ?P y \<longrightarrow> length (fst y) \<le> length (fst x)"
    using ex_has_greatest_nat [of ?P e "\<lambda>e. length (fst e)"] e by blast
  then have "x \<in> set ?t \<and> best ?t path x" unfolding best_iff by blast
  with none show False unfolding refMux_def find_None_iff option.map_disc_iff by blast
next
  fix table path h
  assume "refMux probes table path = Some h"
  then show "\<exists>e \<in> set (probes @ table). best (probes @ table) path e \<and> h = snd e"
    by (auto simp: refMux_def simp del: set_append dest: find_Some_iff_set)
qed

lemma matches_exact [simp]:
  "matches ''/login'' path \<longleftrightarrow> path = ''/login''"
  "matches ''/launchpad.json'' path \<longleftrightarrow> path = ''/launchpad.json''"
  "matches ''/pick'' path \<longleftrightarrow> path = ''/pick''" "matches ''/logout'' path \<longleftrightarrow> path = ''/logout''"
  "matches ''/switch'' path \<longleftrightarrow> path = ''/switch''"
  by (auto simp: matches_def)

lemma matches_probe [simp]:
  "matches ''/healthz'' path \<longleftrightarrow> path = ''/healthz''" "matches ''/readyz'' path \<longleftrightarrow> path = ''/readyz''"
  by (auto simp: matches_def)

lemma matches_under [simp]:
  "matches ''/ui/'' path \<longleftrightarrow> prefix ''/ui/'' path" "matches ''/'' path \<longleftrightarrow> prefix ''/'' path"
  by (auto simp: matches_def)

subsection \<open>Properties\<close>

text \<open>
  C33. Every path goes to the handler the table means: on a mux where the most specific pattern wins
  and which has the two probes of its own, each probe answers its path, each exact path of the table
  has its handler, paths under \<open>/ui/\<close> the assets, \<open>/\<close> the home page, and every other path the OP; so
  the launchpad hides no OIDC endpoint.
\<close>

theorem requests_are_routed:
  assumes "most_specific probes mux" "map fst probes = probePaths"
    and "path = rq_path r" "prefix ''/'' path"
  shows "if path \<in> set probePaths
    then mux (handlers assets p) path = map_of probes path
    else \<exists>h. mux (handlers assets p) path = Some h
      \<and> h now r w s =
        (if path = ''/login'' then serve (pv_callback p r) now r w s
         else if path = ''/launchpad.json'' then (data r w s, s)
         else if path = ''/pick'' then (pick r w, s)
         else if path = ''/logout'' then (logout r w, s)
         else if path = ''/switch'' then (switchUser r w, s)
         else if prefix ''/ui/'' path then (assets r w, s)
         else if path = ''/'' then (home r w s, s)
         else pv_handler p now r w s)"
proof -
  obtain hz rz where probes: "probes = [(''/healthz'', hz), (''/readyz'', rz)]"
    using assms(2) by (auto simp: probePaths_def map_eq_Cons_conv)
  let ?t = "probes @ handlers assets p"
  have len: "length ?t = 9" by (simp add: handlers_def probes)
  have names: "fst (?t ! 0) = ''/healthz''" "fst (?t ! 1) = ''/readyz''" "fst (?t ! 2) = ''/login''"
    "fst (?t ! 3) = ''/launchpad.json''" "fst (?t ! 4) = ''/pick''" "fst (?t ! 5) = ''/logout''"
    "fst (?t ! 6) = ''/switch''" "fst (?t ! 7) = ''/ui/''" "fst (?t ! 8) = ''/''"
    by (simp_all add: handlers_def probes loginPath_def)
  have route: "mux (handlers assets p) path = Some (snd (?t ! i))"
    if "i < 9" "matches (fst (?t ! i)) path"
      "\<forall>j \<in> {0, 1, 2, 3, 4, 5, 6, 7, 8}. j \<noteq> i \<longrightarrow> matches (fst (?t ! j)) path \<longrightarrow>
         length (fst (?t ! j)) < length (fst (?t ! i))" for i
  proof (rule most_specificD [OF assms(1)])
    show "?t ! i \<in> set ?t" using that(1) len by (metis nth_mem)
    show "matches (fst (?t ! i)) path" by (rule that(2))
    fix e'
    assume e': "e' \<in> set ?t" "matches (fst e') path" "length (fst (?t ! i)) \<le> length (fst e')"
    then obtain j where "j < 9" "e' = ?t ! j" using len by (metis in_set_conv_nth)
    moreover then have "j \<in> {0, 1, 2, 3, 4, 5, 6, 7, 8}" by auto
    ultimately show "snd e' = snd (?t ! i)" using that(3) e' by (metis not_le)
  qed
  consider (exact) i where "i \<in> {0, 1, 2, 3, 4, 5, 6}" "path = fst (?t ! i)"
    | (ui) "prefix ''/ui/'' path" "\<forall>i \<in> {0, 1, 2, 3, 4, 5, 6}. path \<noteq> fst (?t ! i)"
    | (rest) "\<not> prefix ''/ui/'' path" "\<forall>i \<in> {0, 1, 2, 3, 4, 5, 6}. path \<noteq> fst (?t ! i)" by blast
  then show ?thesis
  proof cases
    case exact
    then have "mux (handlers assets p) path = Some (snd (?t ! i))"
      using names assms(4) by (intro route) auto
    with exact show ?thesis
      by (auto simp: handlers_def probes probePaths_def newLoginHandler_def loginPath_def)
  next
    case ui
    then have "mux (handlers assets p) path = Some (snd (?t ! 7))"
      using names assms(4) by (intro route) auto
    with ui names show ?thesis by (auto simp: handlers_def probes probePaths_def)
  next
    case rest
    then have "mux (handlers assets p) path = Some (snd (?t ! 8))"
      using names assms(4) by (intro route) auto
    with rest names show ?thesis
      by (auto simp: handlers_def probes probePaths_def rootWithFallback_def assms(3))
  qed
qed

definition ok_probes :: "(string \<times> httpHandler) list" where
  "ok_probes = [(''/healthz'', \<lambda>now r w s. (w, s)), (''/readyz'', \<lambda>now r w s. (w, s))]"

definition quiet_provider :: provider where
  "quiet_provider = \<lparr>pv_handler = \<lambda>now r w s. (w, snd (RevokeToken ''r1'' exampleClientID s)),
     pv_callback = \<lambda>r rid. ''http://idp.dev.test/authorize/callback?id='' @ rid\<rparr>"

definition quiet_op :: newOP where
  "quiet_op issuer config opts = Inr quiet_provider"

theorem requests_are_routed_witness:
  "\<exists>h. refMux ok_probes (handlers (\<lambda>r w. w) quiet_provider) ''/keys'' = Some h
     \<and> h 0 (request_with []\<lparr>rq_path := ''/keys''\<rparr>) new_response held =
         (new_response, snd (RevokeToken ''r1'' exampleClientID held))"
proof -
  let ?r = "request_with []\<lparr>rq_path := ''/keys''\<rparr>"
  have path: "''/keys'' = rq_path ?r" "prefix ''/'' ''/keys''" by simp_all
  have probes: "map fst ok_probes = probePaths" by (simp add: ok_probes_def probePaths_def)
  from requests_are_routed [OF refMux_most_specific probes path, of "\<lambda>r w. w" quiet_provider 0 new_response held]
  show ?thesis by (simp add: quiet_provider_def probePaths_def)
qed

text \<open>The clients file the program is given: the flag, or else the environment variable.\<close>

definition clientsFlag :: "(string \<Rightarrow> string) \<Rightarrow> (string \<Rightarrow> string option) \<Rightarrow> string" where
  "clientsFlag getenv cli = flagValue cli ''clients'' (env getenv ''IDP_CLIENTS'' [])"

lemma New_Inr:
  assumes "New sha ns nd fileServer ui (Inr k) kid cfg = Inr (hs, s)"
  shows "sys_init ({[], kid}, s)" "clients s = seedClients (cfg_RedirectURIs cfg)"
    "\<exists>p. hs = handlers (assetsHandler fileServer ui) p"
proof -
  have s: "NewStorage (Inr k) kid (seedClients (cfg_RedirectURIs cfg)) = Inr s" and "\<exists>p. hs = handlers (assetsHandler fileServer ui) p"
    using assms by (auto simp: New_def bind_result_Inr Let_def)
  then show "\<exists>p. hs = handlers (assetsHandler fileServer ui) p" by simp
  show "sys_init ({[], kid}, s)" using s by (rule sys_init.boot)
  show "clients s = seedClients (cfg_RedirectURIs cfg)" using s by (auto simp: NewStorage_def)
qed

lemma idp_main_cases:
  assumes "idp_main new unmarshal newServer getenv cli fs0 fs1 fs2 = Serving x"
  obtains cfg hs s where "new cfg = Inr (hs, s)" "run_handlers x = hs"
    "if clientsFlag getenv cli = [] \<or> fs0 (clientsFlag getenv cli) = None
     then run_storage x = s \<and> \<not> run_watching x
     else \<exists>cs. LoadClientsFile unmarshal (clientsFlag getenv cli) fs1 = Inr cs
       \<and> run_storage x = ReplaceFileClients cs s \<and> run_watching x"
  using assms unfolding idp_main_def Let_def clientsFlag_def [symmetric]
  by (force simp: WatchClientsFile_def split: sum.splits option.splits if_splits prod.splits)

text \<open>
  C34. Start-up: when the program serves, its storage is one the machine can reach from the fresh
  storage, so it has the seeded client; without a clients file, or with a path where none is found,
  the registry is just the seed and nothing is watched; otherwise the file was read and installed.
\<close>

theorem idp_start_up:
  assumes "idp_main (New sha ns nd fileServer ui (Inr k) kid) unmarshal newServer getenv cli fs0 fs1 fs2 = Serving x"
  shows "reachable ({[], kid}, run_storage x)
    \<and> exampleClientID \<in> fmdom' (clients (run_storage x))
    \<and> (if clientsFlag getenv cli = [] \<or> fs0 (clientsFlag getenv cli) = None
       then \<not> run_watching x \<and> fmdom' (clients (run_storage x)) = {exampleClientID}
       else run_watching x \<and> (\<exists>cs. LoadClientsFile unmarshal (clientsFlag getenv cli) fs1 = Inr cs
         \<and> fmdom' (clients (run_storage x)) = insert exampleClientID (c_id ` set cs)))"
proof (rule idp_main_cases [OF assms])
  fix cfg hs s
  assume new: "New sha ns nd fileServer ui (Inr k) kid cfg = Inr (hs, s)"
    and st: "if clientsFlag getenv cli = [] \<or> fs0 (clientsFlag getenv cli) = None
      then run_storage x = s \<and> \<not> run_watching x
      else \<exists>cs. LoadClientsFile unmarshal (clientsFlag getenv cli) fs1 = Inr cs
        \<and> run_storage x = ReplaceFileClients cs s \<and> run_watching x"
  note boot = reachable.start [OF New_Inr(1) [OF new]]
  have dom: "fmdom' (clients s) = {exampleClientID}" using New_Inr(2) [OF new] by simp
  have "reachable ({[], kid} \<union> set (drawn (EReplaceFileClients cs)), exec (EReplaceFileClients cs) s)" for cs
    by (rule reachable_event [OF boot]) simp_all
  then have loaded: "reachable ({[], kid}, ReplaceFileClients cs s)" for cs by simp
  have ids: "set (allClientIDs t) = fmdom' (clients t)" for t by (simp add: allClientIDs_eq)
  have "fmdom' (clients (ReplaceFileClients cs s)) = insert exampleClientID (c_id ` set cs)" for cs
    using reg.set_ids_replace [of cs s] reachable_fixed [OF boot] by (auto simp: ids dom)
  with st boot loaded dom show ?thesis by (auto split: if_splits)
qed

theorem idp_start_up_witness:
  "\<exists>x. idp_main (New (\<lambda>m. m) quiet_op quiet_op (\<lambda>fsys r w. w) (\<lambda>name. None) (Inr boot_key) ''kid'') (\<lambda>b. Inl b) (\<lambda>g h. None)
        (\<lambda>k. []) (\<lambda>f. Some ''clients.yaml'') (\<lambda>path. None) (\<lambda>path. None) (\<lambda>path. None) = Serving x
     \<and> fmdom' (clients (run_storage x)) = {exampleClientID}"
proof -
  obtain x where x: "idp_main (New (\<lambda>m. m) quiet_op quiet_op (\<lambda>fsys r w. w) (\<lambda>name. None) (Inr boot_key) ''kid'') (\<lambda>b. Inl b)
      (\<lambda>g h. None) (\<lambda>k. []) (\<lambda>f. Some ''clients.yaml'') (\<lambda>path. None) (\<lambda>path. None) (\<lambda>path. None) = Serving x"
    by (simp add: idp_main_def New_def NewStorage_def newProvider_def quiet_op_def flagValue_def Let_def)
  from idp_start_up [OF x] x show ?thesis by auto
qed

text \<open>
  A broken clients file stops the program at start-up and only then: with a path that is found,
  the program exits when the file cannot be loaded, before it serves anything; with no path, or none
  found, it serves whenever the OP and the server can be built.
\<close>

theorem broken_file_stops_start_up:
  assumes "\<And>c. new c = Inr (hs, s)" "\<And>g h. newServer g h = None"
  shows "let path = clientsFlag getenv cli;
      found = (path \<noteq> [] \<and> fs0 path \<noteq> None);
      res = idp_main new unmarshal newServer getenv cli fs0 fs1 fs2
    in if found \<and> (\<exists>err. LoadClientsFile unmarshal path fs1 = Inl err)
       then res = Exit1 ''load clients file''
       else \<exists>x. res = Serving x \<and> run_handlers x = hs \<and> run_watching x = found
         \<and> (\<not> found \<longrightarrow> run_storage x = s)"
  using assms(1) assms(2)
  by (auto simp: idp_main_def WatchClientsFile_def clientsFlag_def Let_def split: sum.splits)

theorem broken_file_stops_start_up_witness:
  "idp_main (\<lambda>c. Inr ([], boot_storage)) (\<lambda>b. Inl ''yaml: bad'') (\<lambda>g h. None) (\<lambda>k. [])
      (\<lambda>f. Some ''clients.yaml'') (\<lambda>path. Some \<lparr>content = ''}'', modTime = 1\<rparr>)
      (\<lambda>path. Some \<lparr>content = ''}'', modTime = 1\<rparr>) (\<lambda>path. None) = Exit1 ''load clients file''"
  using broken_file_stops_start_up [of "\<lambda>c. Inr ([], boot_storage)" "[]" boot_storage "\<lambda>g h. None"
      "\<lambda>k. []" "\<lambda>f. Some ''clients.yaml''" "\<lambda>path. Some \<lparr>content = ''}'', modTime = 1\<rparr>"
      "\<lambda>b. Inl ''yaml: bad''" "\<lambda>path. Some \<lparr>content = ''}'', modTime = 1\<rparr>" "\<lambda>path. None"]
  by (simp add: LoadClientsFile_def clientsFlag_def flagValue_def Let_def)

end
