(* ===== verification/Requests.thy ===== *)
theory Requests
  imports Guarantees
begin

text \<open>
  What an auth request keeps along a run. Ids are drawn once, so a request found later under an id
  is the one that was there, and the only method that writes it sets who logged in, and when.
\<close>

text \<open>The later request is the earlier one but for the login.\<close>

definition req_le :: "authRequest \<Rightarrow> authRequest \<Rightarrow> bool" where
  "req_le r r' \<longleftrightarrow>
     r' = r\<lparr>ar_userID := ar_userID r', ar_authTime := ar_authTime r', ar_done := ar_done r'\<rparr>
     \<and> (ar_done r \<longrightarrow> ar_done r')"

lemma req_le_refl [simp]: "req_le r r"
  by (simp add: req_le_def)

lemma req_le_trans:
  assumes "req_le a b" "req_le b c"
  shows "req_le a c"
proof -
  from assms have b: "b = a\<lparr>ar_userID := ar_userID b, ar_authTime := ar_authTime b, ar_done := ar_done b\<rparr>"
    and c: "c = b\<lparr>ar_userID := ar_userID c, ar_authTime := ar_authTime c, ar_done := ar_done c\<rparr>"
    and "ar_done a \<longrightarrow> ar_done c"
    by (simp_all add: req_le_def)
  moreover have "c = a\<lparr>ar_userID := ar_userID c, ar_authTime := ar_authTime c, ar_done := ar_done c\<rparr>"
    by (subst c, subst b) simp
  ultimately show ?thesis by (simp add: req_le_def)
qed

lemma req_le_completed:
  "req_le r (r\<lparr>ar_userID := u, ar_authTime := now, ar_done := True\<rparr>)"
  by (simp add: req_le_def)

definition req_evolves :: "string set \<times> storage \<Rightarrow> string set \<times> storage \<Rightarrow> bool" where
  "req_evolves x y \<longleftrightarrow> fst x \<subseteq> fst y
     \<and> (\<forall>k \<in> fst x. \<forall>r'. fmlookup (authRequests (snd y)) k = Some r' \<longrightarrow>
          (\<exists>r. fmlookup (authRequests (snd x)) k = Some r \<and> req_le r r'))"

lemma req_exec_old:
  assumes "k \<notin> set (drawn e)" "fmlookup (authRequests (exec e s)) k = Some r'"
  shows "\<exists>r. fmlookup (authRequests s) k = Some r \<and> req_le r r'"
proof (cases e)
  case (ECreateAuthRequest uid ar u)
  with assms show ?thesis
    by (cases rule: CreateAuthRequest_cases [of uid ar u s]) auto
next
  case (ECompleteAuthRequest now rid subject)
  with assms show ?thesis
    by (cases rule: CompleteAuthRequest_cases [of now rid subject s])
      (auto simp: req_le_completed split: if_splits)
next
  case (EDeleteAuthRequest rid)
  with assms show ?thesis by (auto simp: authRequests_exec simp del: exec.simps split: if_splits)
qed (use assms in \<open>auto simp: authRequests_exec simp del: exec.simps\<close>)

lemma req_evolves_step:
  assumes "sys_step x y"
  shows "req_evolves x y"
  using assms
proof (cases rule: sys_step.cases)
  case (event e U s)
  then have "k \<notin> set (drawn e)" if "k \<in> U" for k using that by blast
  then show ?thesis
    unfolding req_evolves_def event fst_conv snd_conv using req_exec_old by blast
qed

lemma req_evolves_trans:
  assumes "req_evolves x y" "req_evolves y z"
  shows "req_evolves x z"
  unfolding req_evolves_def
proof (intro conjI ballI allI impI)
  show "fst x \<subseteq> fst z" using assms unfolding req_evolves_def by blast
  fix k r''
  assume k: "k \<in> fst x" and r'': "fmlookup (authRequests (snd z)) k = Some r''"
  then obtain r' where "fmlookup (authRequests (snd y)) k = Some r'" "req_le r' r''"
    using assms unfolding req_evolves_def by blast
  moreover then obtain r where "fmlookup (authRequests (snd x)) k = Some r" "req_le r r'"
    using assms(1) k unfolding req_evolves_def by blast
  ultimately show "\<exists>r. fmlookup (authRequests (snd x)) k = Some r \<and> req_le r r''"
    using req_le_trans by blast
qed

lemma req_evolves_refl: "req_evolves x x"
  by (auto simp: req_evolves_def)

interpretation reqs: step_monotone sys_step sys_inv req_evolves
  by unfold_locales (auto intro: req_evolves_refl req_evolves_trans req_evolves_step)

subsection \<open>Properties\<close>

text \<open>
  C10. What a client asked for cannot change under it: between any two states of a run, an auth
  request found under its id differs from the earlier one at most in who logged in and when, so its
  client, redirect URI, scopes, nonce and code challenge are those it was created with, and done
  stays done. The same holds of a lookup by code whose two critical sections are interleaved with
  any run: it gives the request of the second section, or fails because it was deleted.
\<close>

theorem auth_request_immutable:
  assumes "reachable (U, s)" "AuthRequestByID rid s = Inr req" "sys_step\<^sup>*\<^sup>* (U, s) (U', t)"
  shows "case AuthRequestByID rid t of
      Inl err \<Rightarrow> err = AuthRequestNotFound
        \<and> (fmlookup (codes s) code = Some rid \<longrightarrow> AuthRequestByCode code s t = Inl AuthRequestNotFound)
    | Inr req' \<Rightarrow>
        req' = req\<lparr>ar_userID := ar_userID req', ar_authTime := ar_authTime req', ar_done := ar_done req'\<rparr>
        \<and> (Done req \<longrightarrow> Done req') \<and> GetCodeChallenge req' = GetCodeChallenge req
        \<and> GetRedirectURI req' = GetRedirectURI req \<and> GetClientID req' = GetClientID req
        \<and> (fmlookup (codes s) code = Some rid \<longrightarrow> AuthRequestByCode code s t = Inr req')"
proof -
  have old: "fmlookup (authRequests s) rid = Some req" using assms(2) by (simp add: AuthRequestByID_Inr)
  then have "rid \<in> U" using auth_invD [OF reachable_invs(2) [OF assms(1)]] by blast
  moreover have "req_evolves (U, s) (U', t)"
    using reqs.steps_rel [OF assms(3) reachable_sys_inv [OF assms(1)]] by blast
  ultimately have le: "req_le req req'" if "AuthRequestByID rid t = Inr req'" for req'
    using old that by (fastforce simp: req_evolves_def AuthRequestByID_Inr)
  show ?thesis
  proof (cases "AuthRequestByID rid t")
    case (Inl err)
    then show ?thesis by (auto simp: AuthRequestByID_def AuthRequestByCode_def split: option.splits)
  next
    case (Inr req')
    from le [OF Inr] have e: "req' = req\<lparr>ar_userID := ar_userID req', ar_authTime := ar_authTime req',
        ar_done := ar_done req'\<rparr>" and "ar_done req \<longrightarrow> ar_done req'" by (simp_all add: req_le_def)
    moreover from e have "ar_codeChallenge req' = ar_codeChallenge req"
      "ar_callbackURI req' = ar_callbackURI req" "ar_applicationID req' = ar_applicationID req"
      by (metis authRequest.select_convs authRequest.surjective authRequest.update_convs(11-13))+
    ultimately show ?thesis
      using Inr by (simp add: Done_def GetCodeChallenge_def GetRedirectURI_def GetClientID_def
          AuthRequestByCode_def)
  qed
qed

theorem auth_request_immutable_witness:
  "\<exists>req req'. AuthRequestByID ''q1'' asked = Inr req
     \<and> AuthRequestByID ''q1'' (snd (CompleteAuthRequest 5 ''q1'' ''alice'' asked)) = Inr req'
     \<and> GetRedirectURI req' = GetRedirectURI req \<and> Done req'"
proof -
  let ?e = "ECompleteAuthRequest 5 ''q1'' ''alice''"
  have k: "known ''alice''" by (subst known_iff) simp
  obtain req where r: "AuthRequestByID ''q1'' asked = Inr req"
    by (simp add: AuthRequestByID_def asked_simps)
  obtain req' where r': "AuthRequestByID ''q1'' (snd (CompleteAuthRequest 5 ''q1'' ''alice'' asked)) = Inr req'"
    and d: "Done req'"
    using k by (simp add: AuthRequestByID_def lookup_CompleteAuthRequest asked_simps Done_def)
  have "sys_step ({[], ''kid''} \<union> {''q1''}, asked) (({[], ''kid''} \<union> {''q1''}) \<union> set (drawn ?e), exec ?e asked)"
    by (rule sys_step.event) simp_all
  then have run: "sys_step\<^sup>*\<^sup>* ({[], ''kid''} \<union> {''q1''}, asked)
      ({[], ''kid''} \<union> {''q1''}, snd (CompleteAuthRequest 5 ''q1'' ''alice'' asked))"
    by (simp add: r_into_rtranclp)
  from auth_request_immutable [OF reachable_asked r run] r r' d show ?thesis by auto
qed

end
