(* ===== verification/TokenSpec.thy ===== *)
theory TokenSpec
  imports Lifecycle
begin

text \<open>
  What the token store promises, without pointers: access tokens and refresh grants as plain values
  in two maps. The code shares one mutable object between the map of refresh tokens and the requests
  the OP holds; this theory shows that, in every state the program can be in, the store behaves as
  if there were no sharing, except that narrowing the scopes of a request writes its live grant.
\<close>

subsection \<open>The abstract store\<close>

record access =
  a_client :: string
  a_subject :: string
  a_grant :: string
  a_audience :: "string list"
  a_expires :: time
  a_scopes :: "string list"

record grant =
  g_client :: string
  g_subject :: string
  g_login :: "time \<times> string list"
  g_audience :: "string list"
  g_expires :: time
  g_scopes :: "string list"
  g_access :: string

record tokenSpec =
  ts_access :: "(string, access) fmap"
  ts_grants :: "(string, grant) fmap"

text \<open>Who a token is asked for: what the methods of a token request return.\<close>

record holder =
  h_client :: string
  h_subject :: string
  h_login :: "time \<times> string list"
  h_audience :: "string list"
  h_scopes :: "string list"

definition spec_access :: "holder \<Rightarrow> string \<Rightarrow> time \<Rightarrow> access" where
  "spec_access h r now =
     \<lparr>a_client = h_client h, a_subject = h_subject h, a_grant = r, a_audience = h_audience h,
      a_expires = now + 15 * Minute, a_scopes = h_scopes h\<rparr>"

definition spec_login :: "holder \<Rightarrow> string \<Rightarrow> time \<Rightarrow> tokenSpec \<Rightarrow> tokenSpec" where
  "spec_login h tid now \<sigma> = \<sigma>\<lparr>ts_access := fmupd tid (spec_access h [] now) (ts_access \<sigma>)\<rparr>"

definition spec_issue ::
    "holder \<Rightarrow> string \<Rightarrow> string \<Rightarrow> time \<Rightarrow> time \<Rightarrow> tokenSpec \<Rightarrow> (string \<times> string \<times> time) result \<times> tokenSpec" where
  "spec_issue h r tid now1 now2 \<sigma> =
     (Inr (tid, r, now1 + 15 * Minute),
      \<sigma>\<lparr>ts_access := fmupd tid (spec_access h r now1) (ts_access \<sigma>),
        ts_grants := fmupd r \<lparr>g_client = h_client h, g_subject = h_subject h, g_login = h_login h,
                       g_audience = h_audience h, g_expires = now2 + 24 * Hour,
                       g_scopes = h_scopes h, g_access = tid\<rparr> (ts_grants \<sigma>)\<rparr>)"

text \<open>
  Rotation moves the grant to a new id. On an error the new access token stays, as in the code.
\<close>

definition spec_rotate ::
    "holder \<Rightarrow> string \<Rightarrow> string \<Rightarrow> time \<Rightarrow> time \<Rightarrow> time \<Rightarrow> string \<Rightarrow> tokenSpec
       \<Rightarrow> (string \<times> string \<times> time) result \<times> tokenSpec" where
  "spec_rotate h r tid now1 now2 now3 cur \<sigma> =
     (let as = fmupd tid (spec_access h r now1) (ts_access \<sigma>)
      in case fmlookup (ts_grants \<sigma>) cur of
           None \<Rightarrow> (Inl InvalidRefreshToken, \<sigma>\<lparr>ts_access := as\<rparr>)
         | Some g \<Rightarrow>
             let as' = fmdrop (g_access g) as; gs' = fmdrop cur (ts_grants \<sigma>)
             in if g_expires g < now2
                then (Inl ExpiredRefreshToken, \<sigma>\<lparr>ts_access := as', ts_grants := gs'\<rparr>)
                else (Inr (tid, r, now1 + 15 * Minute),
                      \<sigma>\<lparr>ts_access := as',
                        ts_grants := fmupd r (g\<lparr>g_expires := now3 + 24 * Hour, g_access := tid\<rparr>) gs'\<rparr>))"

definition spec_tokens ::
    "holder \<Rightarrow> string \<Rightarrow> string \<Rightarrow> time \<Rightarrow> time \<Rightarrow> time \<Rightarrow> string \<Rightarrow> tokenSpec
       \<Rightarrow> (string \<times> string \<times> time) result \<times> tokenSpec" where
  "spec_tokens h r tid now1 now2 now3 cur \<sigma> =
     (if cur = [] then spec_issue h r tid now1 now2 \<sigma> else spec_rotate h r tid now1 now2 now3 cur \<sigma>)"

definition spec_revoke :: "string \<Rightarrow> string \<Rightarrow> tokenSpec \<Rightarrow> error option \<times> tokenSpec" where
  "spec_revoke tok client \<sigma> =
     (case (fmlookup (ts_access \<sigma>) tok, fmlookup (ts_grants \<sigma>) tok) of
        (Some a, _) \<Rightarrow>
          if a_client a = client then (None, \<sigma>\<lparr>ts_access := fmdrop tok (ts_access \<sigma>)\<rparr>)
          else (Some NotIssuedForClient, \<sigma>)
      | (None, Some g) \<Rightarrow>
          if g_client g = client
          then (None, \<sigma>\<lparr>ts_access := fmdrop (g_access g) (ts_access \<sigma>), ts_grants := fmdrop tok (ts_grants \<sigma>)\<rparr>)
          else (Some NotIssuedForClient, \<sigma>)
      | (None, None) \<Rightarrow> (None, \<sigma>))"

definition spec_terminate :: "string \<Rightarrow> string \<Rightarrow> tokenSpec \<Rightarrow> tokenSpec" where
  "spec_terminate user client \<sigma> =
     \<sigma>\<lparr>ts_access := fmfilter (\<lambda>k. case fmlookup (ts_access \<sigma>) k of
           Some a \<Rightarrow> \<not> (a_client a = client \<and> a_subject a = user) | None \<Rightarrow> True) (ts_access \<sigma>),
       ts_grants := fmfilter (\<lambda>r. \<not> list_ex (\<lambda>k. case fmlookup (ts_access \<sigma>) k of
           Some a \<Rightarrow> a_client a = client \<and> a_subject a = user \<and> a_grant a = r | None \<Rightarrow> False)
           (range_keys (ts_access \<sigma>))) (ts_grants \<sigma>)\<rparr>"

definition spec_narrow :: "string \<Rightarrow> string list \<Rightarrow> tokenSpec \<Rightarrow> tokenSpec" where
  "spec_narrow r scopes \<sigma> =
     (case fmlookup (ts_grants \<sigma>) r of
        None \<Rightarrow> \<sigma>
      | Some g \<Rightarrow> \<sigma>\<lparr>ts_grants := fmupd r (g\<lparr>g_scopes := scopes\<rparr>) (ts_grants \<sigma>)\<rparr>)"

subsection \<open>The abstraction\<close>

definition abs_token :: "token \<Rightarrow> access" where
  "abs_token t =
     \<lparr>a_client = tk_applicationID t, a_subject = tk_subject t, a_grant = tk_refreshID t,
      a_audience = tk_audience t, a_expires = tk_expiration t, a_scopes = tk_scopes t\<rparr>"

definition abs_refresh :: "refreshToken \<Rightarrow> grant" where
  "abs_refresh rt =
     \<lparr>g_client = rt_applicationID rt, g_subject = rt_userID rt, g_login = (rt_authTime rt, rt_amr rt),
      g_audience = rt_audience rt, g_expires = rt_expiration rt, g_scopes = rt_scopes rt,
      g_access = rt_accessTokenID rt\<rparr>"

definition abs_store :: "storage \<Rightarrow> tokenSpec" where
  "abs_store s =
     \<lparr>ts_access = fmmap abs_token (tokens s),
      ts_grants = fmmap (\<lambda>p. abs_refresh (deref s p)) (refreshers s)\<rparr>"

definition abs_holder :: "storage \<Rightarrow> tokenRequest \<Rightarrow> holder" where
  "abs_holder s req =
     \<lparr>h_client = fst (infoFromRequest s req), h_subject = reqGetSubject s req,
      h_login = snd (infoFromRequest s req), h_audience = reqGetAudience s req,
      h_scopes = reqGetScopes s req\<rparr>"

text \<open>\<open>CreateAccessToken\<close> knows the client of an auth request only.\<close>

definition login_holder :: "storage \<Rightarrow> tokenRequest \<Rightarrow> holder" where
  "login_holder s req =
     (abs_holder s req)\<lparr>h_client := (case req of AuthReq a \<Rightarrow> ar_applicationID a | _ \<Rightarrow> [])\<rparr>"

lemma abs_store_sel [simp]:
  "fmlookup (ts_access (abs_store s)) k = map_option abs_token (fmlookup (tokens s) k)"
  "fmlookup (ts_grants (abs_store s)) r = map_option (\<lambda>p. abs_refresh (deref s p)) (fmlookup (refreshers s) r)"
  by (simp_all add: abs_store_def)

text \<open>Two abstract stores are equal when every lookup in them is.\<close>

lemma tokenSpec_eqI:
  fixes \<sigma> \<tau> :: tokenSpec
  assumes "\<And>k. fmlookup (ts_access \<sigma>) k = fmlookup (ts_access \<tau>) k"
    and "\<And>r. fmlookup (ts_grants \<sigma>) r = fmlookup (ts_grants \<tau>) r"
  shows "\<sigma> = \<tau>"
  by (rule tokenSpec.equality) (use assms in \<open>auto intro: fmap_ext\<close>)

lemma abs_issuedToken [simp]: "abs_token (issuedToken rid tid now req s) = spec_access (abs_holder s req) rid now"
  by (simp add: abs_token_def issuedToken_def spec_access_def abs_holder_def)

lemma abs_fields [simp]:
  "a_client (abs_token t) = tk_applicationID t" "a_subject (abs_token t) = tk_subject t"
  "a_grant (abs_token t) = tk_refreshID t" "g_client (abs_refresh rt) = rt_applicationID rt"
  "g_access (abs_refresh rt) = rt_accessTokenID rt" "g_expires (abs_refresh rt) = rt_expiration rt"
  by (simp_all add: abs_token_def abs_refresh_def)

subsection \<open>Each operation refines its abstract one\<close>

text \<open>Issuing and filing touch no object that is filed already.\<close>

lemma old_object:
  "token_inv U s \<Longrightarrow> fmlookup (refreshers s) k = Some p \<Longrightarrow> p \<noteq> rtNext s"
  using token_inv_refresh(6) by blast

lemma refine_login:
  "abs_store (snd (CreateAccessToken tid now req s)) =
     spec_login (login_holder s req) tid now (abs_store s)"
proof (rule tokenSpec_eqI)
  show "fmlookup (ts_access (abs_store (snd (CreateAccessToken tid now req s)))) k =
      fmlookup (ts_access (spec_login (login_holder s req) tid now (abs_store s))) k" for k
    by (simp add: CreateAccessToken_def accessToken_def spec_login_def Let_def abs_token_def
        spec_access_def login_holder_def abs_holder_def)
  show "fmlookup (ts_grants (abs_store (snd (CreateAccessToken tid now req s)))) r =
      fmlookup (ts_grants (spec_login (login_holder s req) tid now (abs_store s))) r" for r
    by (simp add: CreateAccessToken_def spec_login_def Let_def split_beta)
qed

lemma refine_issue:
  assumes inv: "token_inv U s"
  shows "abs_store (snd (issueTokens rid tid now1 now2 req s)) =
      snd (spec_issue (abs_holder s req) rid tid now1 now2 (abs_store s))"
proof (rule tokenSpec_eqI)
  let ?s = "snd (issueTokens rid tid now1 now2 req s)"
  show "fmlookup (ts_access (abs_store ?s)) k =
      fmlookup (ts_access (snd (spec_issue (abs_holder s req) rid tid now1 now2 (abs_store s)))) k" for k
    by (simp add: issueTokens_state spec_issue_def)
  show "fmlookup (ts_grants (abs_store ?s)) r =
      fmlookup (ts_grants (snd (spec_issue (abs_holder s req) rid tid now1 now2 (abs_store s)))) r" for r
    using old_object [OF inv, of r]
    by (cases "fmlookup (refreshers s) r")
      (auto simp: issueTokens_state spec_issue_def abs_refresh_def issuedRefresh_def abs_holder_def)
qed

lemma refine_rotate:
  assumes inv: "token_inv U s" and fresh: "rid \<notin> U"
  shows "fst (rotateTokens rid tid now1 now2 now3 req cur s) =
      fst (spec_rotate (abs_holder s req) rid tid now1 now2 now3 cur (abs_store s))"
    and "abs_store (snd (rotateTokens rid tid now1 now2 now3 req cur s)) =
      snd (spec_rotate (abs_holder s req) rid tid now1 now2 now3 cur (abs_store s))"
proof -
  let ?c = "rotateTokens rid tid now1 now2 now3 req cur s"
  let ?a = "spec_rotate (abs_holder s req) rid tid now1 now2 now3 cur (abs_store s)"
  show "fst ?c = fst ?a"
    by (simp add: rotateTokens_eq spec_rotate_def Let_def split: option.splits)
  show "abs_store (snd ?c) = snd ?a"
  proof (rule tokenSpec_eqI)
    show "fmlookup (ts_access (abs_store (snd ?c))) k = fmlookup (ts_access (snd ?a)) k" for k
      by (simp add: rotateTokens_eq spec_rotate_def Let_def split: option.splits)
    show "fmlookup (ts_grants (abs_store (snd ?c))) r = fmlookup (ts_grants (snd ?a)) r" for r
    proof (cases "fmlookup (refreshers s) cur")
      case None
      then show ?thesis by (simp add: rotateTokens_eq spec_rotate_def Let_def)
    next
      case (Some p)
      have "q \<noteq> p" if "fmlookup (refreshers s) r = Some q" "r \<noteq> cur" for q
        using token_inv_inj [OF inv Some, of r] that by blast
      with Some show ?thesis
        by (cases "fmlookup (refreshers s) r")
          (auto simp: rotateTokens_eq spec_rotate_def Let_def abs_refresh_def rotatedRefresh_def)
    qed
  qed
qed

lemma refine_revoke:
  assumes inv: "token_inv U s"
  shows "fst (RevokeToken tok c s) = fst (spec_revoke tok c (abs_store s))"
    and "abs_store (snd (RevokeToken tok c s)) = snd (spec_revoke tok c (abs_store s))"
proof -
  show "fst (RevokeToken tok c s) = fst (spec_revoke tok c (abs_store s))"
    by (simp add: RevokeToken_def spec_revoke_def Let_def split: option.splits)
  show "abs_store (snd (RevokeToken tok c s)) = snd (spec_revoke tok c (abs_store s))"
  proof (rule tokenSpec_eqI)
    show "fmlookup (ts_access (abs_store (snd (RevokeToken tok c s)))) k =
        fmlookup (ts_access (snd (spec_revoke tok c (abs_store s)))) k" for k
      using token_inv_token [OF inv, of tok]
      by (auto simp: RevokeToken_def spec_revoke_def Let_def split: option.splits)
    have "deref (s\<lparr>refreshers := rs, tokens := ts\<rparr>) = deref s" "deref (s\<lparr>tokens := ts\<rparr>) = deref s" for rs ts
      by (simp_all add: deref_def fun_eq_iff)
    then show "fmlookup (ts_grants (abs_store (snd (RevokeToken tok c s)))) r =
        fmlookup (ts_grants (snd (spec_revoke tok c (abs_store s)))) r" for r
      using token_inv_refresh(4) [OF inv, of tok]
      by (auto simp: RevokeToken_def spec_revoke_def Let_def split: option.splits)
  qed
qed

lemma refine_terminate: "abs_store (TerminateSession u c s) = spec_terminate u c (abs_store s)"
proof (rule tokenSpec_eqI)
  show "fmlookup (ts_access (abs_store (TerminateSession u c s))) k =
      fmlookup (ts_access (spec_terminate u c (abs_store s))) k" for k
    by (simp add: lookup_TerminateSession spec_terminate_def split: option.splits)
  have dom: "range_keys (fmmap abs_token (tokens s)) = range_keys (tokens s)"
    by (simp add: range_keys_def fmdom'_alt_def)
  have "(case fmlookup (ts_access (abs_store s)) k of
        Some a \<Rightarrow> a_client a = c \<and> a_subject a = u \<and> a_grant a = r | None \<Rightarrow> False)
      = session_refresh (tokens s) u c r k" for k r
    by (auto simp: session_refresh_def split: option.splits)
  then have "list_ex (\<lambda>k. case fmlookup (ts_access (abs_store s)) k of
        Some a \<Rightarrow> a_client a = c \<and> a_subject a = u \<and> a_grant a = r | None \<Rightarrow> False)
        (range_keys (ts_access (abs_store s))) = ends_refresh (tokens s) u c r" for r
    unfolding ends_refresh_def by (simp only:) (simp add: abs_store_def dom)
  moreover have "deref (TerminateSession u c s) = deref s" by (simp add: deref_def fun_eq_iff)
  ultimately show "fmlookup (ts_grants (abs_store (TerminateSession u c s))) r =
      fmlookup (ts_grants (spec_terminate u c (abs_store s))) r" for r
    by (simp add: lookup_TerminateSession spec_terminate_def)
qed

text \<open>
  Narrowing writes the live grant of the request's object; the object of a token that was rotated
  away or revoked is not filed, and then nothing changes.
\<close>

lemma refine_narrow:
  assumes inv: "token_inv U s"
  shows "abs_store (SetCurrentScopes p scopes s) =
      (if fmlookup (refreshers s) (rt_id (deref s p)) = Some p
       then spec_narrow (rt_id (deref s p)) scopes (abs_store s) else abs_store s)"
proof (rule tokenSpec_eqI)
  let ?\<sigma> = "if fmlookup (refreshers s) (rt_id (deref s p)) = Some p
      then spec_narrow (rt_id (deref s p)) scopes (abs_store s) else abs_store s"
  show "fmlookup (ts_access (abs_store (SetCurrentScopes p scopes s))) k = fmlookup (ts_access ?\<sigma>) k" for k
    by (simp add: spec_narrow_def split: option.splits)
  show "fmlookup (ts_grants (abs_store (SetCurrentScopes p scopes s))) r = fmlookup (ts_grants ?\<sigma>) r" for r
  proof (cases "fmlookup (refreshers s) r = Some p")
    case True
    then have "rt_id (deref s p) = r" by (rule token_inv_refresh(4) [OF inv])
    with True show ?thesis by (simp add: spec_narrow_def deref_SetCurrentScopes abs_refresh_def)
  next
    case False
    then show ?thesis
      by (cases "fmlookup (refreshers s) r")
        (auto simp: spec_narrow_def deref_SetCurrentScopes split: option.splits)
  qed
qed

subsection \<open>Properties\<close>

text \<open>The abstract call an event of the machine stands for, in the state it happens in.\<close>

fun spec_exec :: "event \<Rightarrow> storage \<Rightarrow> tokenSpec \<Rightarrow> tokenSpec" where
  "spec_exec (ECreateAccessToken tid now req) s \<sigma> = spec_login (login_holder s req) tid now \<sigma>"
| "spec_exec (ECreateAccessAndRefreshTokens r tid now1 now2 now3 req cur) s \<sigma> =
     snd (spec_tokens (abs_holder s req) r tid now1 now2 now3 cur \<sigma>)"
| "spec_exec (ESetCurrentScopes p scopes) s \<sigma> =
     (if fmlookup (refreshers s) (rt_id (deref s p)) = Some p
      then spec_narrow (rt_id (deref s p)) scopes \<sigma> else \<sigma>)"
| "spec_exec (ETerminateSession user client) s \<sigma> = spec_terminate user client \<sigma>"
| "spec_exec (ERevokeToken tok client) s \<sigma> = snd (spec_revoke tok client \<sigma>)"
| "spec_exec e s \<sigma> = \<sigma>"

lemma token_store_refines:
  assumes "reachable (U, s)" "set (drawn e) \<inter> U = {}"
  shows "abs_store (exec e s) = spec_exec e s (abs_store s)"
proof (cases "token_event e")
  case True
  note inv = reachable_token_inv [OF assms(1)]
  have "abs_store (snd (CreateAccessAndRefreshTokens rid tid now1 now2 now3 req cur s)) =
      snd (spec_tokens (abs_holder s req) rid tid now1 now2 now3 cur (abs_store s))"
    if "rid \<notin> U" for rid tid now1 now2 now3 req cur
    using refine_issue [OF inv] refine_rotate(2) [OF inv that]
    by (auto simp: spec_tokens_def CreateAccessAndRefreshTokens_issue CreateAccessAndRefreshTokens_rotate)
  with True assms(2) show ?thesis
    by (cases e) (simp_all add: refine_login refine_narrow [OF inv] refine_terminate refine_revoke(2) [OF inv])
next
  case False
  then have "deref (exec e s) = deref s" by (simp add: deref_def fun_eq_iff tokens_exec)
  with False have "abs_store (exec e s) = abs_store s" by (simp add: abs_store_def tokens_exec)
  with False show ?thesis by (cases e) simp_all
qed

text \<open>
  C7. The token store refines a store without pointers. In a state the program can be in, every
  event changes the abstraction of the storage exactly as its abstract call does, events that are
  no token operation not at all, and the issuing and revoking calls return what the abstract ones
  return, errors included.
\<close>

theorem token_store_refines_spec:
  assumes "reachable (U, s)" "set (drawn e) \<inter> U = {}"
  shows "abs_store (exec e s) = spec_exec e s (abs_store s)
    \<and> (rid \<notin> U \<longrightarrow> fst (CreateAccessAndRefreshTokens rid tid now1 now2 now3 req cur s) =
          fst (spec_tokens (abs_holder s req) rid tid now1 now2 now3 cur (abs_store s)))
    \<and> fst (RevokeToken tok c s) = fst (spec_revoke tok c (abs_store s))"
proof (intro conjI impI)
  note inv = reachable_token_inv [OF assms(1)]
  show "abs_store (exec e s) = spec_exec e s (abs_store s)"
    by (rule token_store_refines [OF assms])
  show "fst (RevokeToken tok c s) = fst (spec_revoke tok c (abs_store s))"
    by (rule refine_revoke(1) [OF inv])
  show "fst (CreateAccessAndRefreshTokens rid tid now1 now2 now3 req cur s) =
      fst (spec_tokens (abs_holder s req) rid tid now1 now2 now3 cur (abs_store s))" if "rid \<notin> U"
    using refine_rotate(1) [OF inv that]
    by (simp add: spec_tokens_def spec_issue_def CreateAccessAndRefreshTokens_issue
        CreateAccessAndRefreshTokens_rotate)
qed

theorem token_store_refines_spec_witness:
  "abs_store (snd (RevokeToken ''r1'' exampleClientID held)) =
     snd (spec_revoke ''r1'' exampleClientID (abs_store held))"
proof -
  let ?e = "ERevokeToken ''r1'' exampleClientID"
  have "set (drawn ?e) \<inter> held_ids = {}" by simp
  from token_store_refines_spec [OF reachable_held this] show ?thesis by simp
qed

end
