(* ===== verification/Lifetimes.thy ===== *)
theory Lifetimes
  imports TokenSpec
begin

text \<open>
  How long tokens live. Runs with a clock: every event reads the clock between the time of the state
  it happens in and that of the state it leads to. The bounds are shown on the abstract store and
  carried over by the refinement.
\<close>

fun clock :: "event \<Rightarrow> time list" where
  "clock (ECompleteAuthRequest now rid subject) = [now]"
| "clock (ECreateAccessToken uid now req) = [now]"
| "clock (ECreateAccessAndRefreshTokens rid tid now1 now2 now3 req cur) = [now1, now2, now3]"
| "clock (ECompleteDeviceAuthorization now uc subject) = [now]"
| "clock e = []"

inductive timed :: "time \<Rightarrow> string set \<times> storage \<Rightarrow> bool" where
  start: "sys_init x \<Longrightarrow> timed T x"
| event: "timed T (U, s) \<Longrightarrow> distinct (drawn e) \<Longrightarrow> set (drawn e) \<inter> U = {} \<Longrightarrow> pointers_ok e s \<Longrightarrow>
     T \<le> T' \<Longrightarrow> (\<And>t. t \<in> set (clock e) \<Longrightarrow> T \<le> t \<and> t \<le> T') \<Longrightarrow>
     timed T' (U \<union> set (drawn e), exec e s)"

lemma timed_reachable: "timed T x \<Longrightarrow> reachable x"
proof (induction rule: timed.induct)
  case (start x T)
  then show ?case by (rule reachable.start)
next
  case (event T U s e T')
  then show ?case by (intro reachable_event)
qed

text \<open>Every stored token expires within its lifetime of the clock.\<close>

definition in_time :: "time \<Rightarrow> tokenSpec \<Rightarrow> bool" where
  "in_time T \<sigma> \<longleftrightarrow>
     (\<forall>k a. fmlookup (ts_access \<sigma>) k = Some a \<longrightarrow> a_expires a \<le> T + 15 * Minute)
     \<and> (\<forall>r g. fmlookup (ts_grants \<sigma>) r = Some g \<longrightarrow> g_expires g \<le> T + 24 * Hour)"

lemma in_time_access: "in_time T \<sigma> \<Longrightarrow> fmlookup (ts_access \<sigma>) k = Some a \<Longrightarrow> a_expires a \<le> T + 15 * Minute"
  by (simp add: in_time_def)

lemma in_time_grant: "in_time T \<sigma> \<Longrightarrow> fmlookup (ts_grants \<sigma>) r = Some g \<Longrightarrow> g_expires g \<le> T + 24 * Hour"
  by (simp add: in_time_def)

lemma in_timeI:
  assumes "\<And>k a. fmlookup (ts_access \<sigma>) k = Some a \<Longrightarrow> a_expires a \<le> T + 15 * Minute"
    and "\<And>r g. fmlookup (ts_grants \<sigma>) r = Some g \<Longrightarrow> g_expires g \<le> T + 24 * Hour"
  shows "in_time T \<sigma>"
  using assms by (simp add: in_time_def)

lemma in_time_later: "in_time T \<sigma> \<Longrightarrow> T \<le> T' \<Longrightarrow> in_time T' \<sigma>"
  by (rule in_timeI) (fastforce dest: in_time_access in_time_grant)+

lemma spec_access_expires [simp]: "a_expires (spec_access h r now) = now + 15 * Minute"
  by (simp add: spec_access_def)

lemma in_time_spec_tokens:
  assumes "in_time T \<sigma>" "now1 \<le> T" "now2 \<le> T" "now3 \<le> T"
  shows "in_time T (snd (spec_tokens h r tid now1 now2 now3 cur \<sigma>))"
proof (rule in_timeI)
  let ?\<tau> = "snd (spec_tokens h r tid now1 now2 now3 cur \<sigma>)"
  show "a_expires a \<le> T + 15 * Minute" if "fmlookup (ts_access ?\<tau>) k = Some a" for k a
    using that in_time_access [OF assms(1), of k a] assms(2)
    by (auto simp: spec_tokens_def spec_issue_def spec_rotate_def Let_def split: if_splits option.splits)
  show "g_expires g \<le> T + 24 * Hour" if "fmlookup (ts_grants ?\<tau>) k = Some g" for k g
    using that in_time_grant [OF assms(1), of k g] assms(3,4)
    by (auto simp: spec_tokens_def spec_issue_def spec_rotate_def Let_def split: if_splits option.splits)
qed

lemma in_time_narrow:
  assumes "in_time T \<sigma>"
  shows "in_time T (spec_narrow r scopes \<sigma>)"
proof (rule in_timeI)
  show "a_expires a \<le> T + 15 * Minute" if "fmlookup (ts_access (spec_narrow r scopes \<sigma>)) k = Some a" for k a
    using that in_time_access [OF assms, of k a] by (simp add: spec_narrow_def split: option.splits)
  show "g_expires g \<le> T + 24 * Hour" if "fmlookup (ts_grants (spec_narrow r scopes \<sigma>)) k = Some g" for k g
    using that in_time_grant [OF assms, of k] 
    by (auto simp: spec_narrow_def split: option.splits if_splits)
qed

lemma in_time_spec_exec:
  assumes "in_time T \<sigma>" "\<And>t. t \<in> set (clock e) \<Longrightarrow> t \<le> T"
  shows "in_time T (spec_exec e s \<sigma>)"
proof -
  note old = in_time_access [OF assms(1)] in_time_grant [OF assms(1)]
  show ?thesis
  proof (cases e)
    case (ECreateAccessToken tid now req)
    with assms show ?thesis
      by (auto simp: spec_login_def intro!: in_timeI intro: old split: if_splits)
  next
    case (ECreateAccessAndRefreshTokens r tid now1 now2 now3 req cur)
    with assms show ?thesis by (simp add: in_time_spec_tokens)
  next
    case (ESetCurrentScopes p scopes)
    with assms show ?thesis
      by (simp add: in_time_narrow)
  next
    case (ETerminateSession u c)
    with assms show ?thesis
      by (auto simp: spec_terminate_def intro!: in_timeI intro: old split: if_splits)
  next
    case (ERevokeToken tok c)
    with assms show ?thesis
      by (auto simp: spec_revoke_def intro!: in_timeI intro: old
          split: if_splits option.splits)
  qed (use assms in simp_all)
qed

lemma timed_in_time: "timed T x \<Longrightarrow> in_time T (abs_store (snd x))"
proof (induction rule: timed.induct)
  case (start x T)
  have "ts_access (abs_store (snd x)) = fmempty \<and> ts_grants (abs_store (snd x)) = fmempty"
    using start by (cases rule: sys_init.cases) (auto simp: NewStorage_def abs_store_def split: sum.splits)
  then show ?case by (simp add: in_time_def)
next
  case (event T U s e T')
  have "in_time T' (spec_exec e s (abs_store s))"
    using event by (intro in_time_spec_exec in_time_later [OF event.IH [simplified]]) auto
  then show ?case
    using token_store_refines [OF timed_reachable [OF event(1)] event(3)] by simp
qed

subsection \<open>Properties\<close>

text \<open>
  C13. Tokens die on time: in a run whose clock has reached \<open>T\<close>, no stored access token works later
  than 15 minutes after \<open>T\<close> and no stored refresh token later than 24 hours after, however often they
  were rotated; so after a quiet day nothing issued before works.
\<close>

theorem token_lifetimes_bounded:
  assumes "timed T (U, s)"
  shows "(T + 15 * Minute < now \<longrightarrow> \<not> access_works now k s)
    \<and> (T + 24 * Hour < now \<longrightarrow> \<not> refresh_works now r s)"
proof -
  have it: "in_time T (abs_store s)" using timed_in_time [OF assms] by simp
  have "tk_expiration t \<le> T + 15 * Minute" if "fmlookup (tokens s) k = Some t" for t
    using in_time_access [OF it, of k "abs_token t"] that by (simp add: abs_token_def)
  moreover have "rt_expiration (deref s p) \<le> T + 24 * Hour" if "fmlookup (refreshers s) r = Some p" for p
    using in_time_grant [OF it, of r "abs_refresh (deref s p)"] that by simp
  ultimately show ?thesis by (fastforce simp: access_works_iff refresh_works_iff)
qed

lemma timed_held: "timed 0 (held_ids, held)"
  using timed.event [OF timed.start [OF sys_init.boot [OF NewStorage_boot], of 0],
      of "ECreateAccessAndRefreshTokens ''r1'' ''a1'' 0 0 0 (AuthReq alice_request) []" 0]
  by (simp add: held_def held_ids_def)

theorem token_lifetimes_bounded_witness:
  "\<not> refresh_works (25 * Hour) ''r1'' held \<and> \<not> access_works Hour ''a1'' held"
  using token_lifetimes_bounded [OF timed_held, of "25 * Hour" "''a1''" "''r1''"]
    token_lifetimes_bounded [OF timed_held, of Hour "''a1''" "''r1''"]
  by (simp add: Hour_def Minute_def Second_def)

end
