(* ===== verification/Program.thy ===== *)
theory Program
  imports Wiring Requests Lifetimes
begin

text \<open>
  The running program: the handlers serving requests and the goroutine that watches the clients file,
  interleaved on one storage, until the signal that cancels the context of both. A request is served
  by any handler of the table. What the handlers of this repository do is what their definitions say;
  only where the table hands the request to the OP the effect is the library's. The OP's handler for
  one request is \<open>oph\<close>, with whatever randomness it draws for it: it works on the storage through the
  methods of \<open>op.Storage\<close>, which register no client. A tick of the watcher meets whatever file systems
  it meets.
\<close>

inductive op_step :: "string set \<times> storage \<Rightarrow> string set \<times> storage \<Rightarrow> bool" where
  event: "op_event e \<Longrightarrow> distinct (drawn e) \<Longrightarrow> set (drawn e) \<inter> U = {} \<Longrightarrow> pointers_ok e s \<Longrightarrow>
     op_step (U, s) (U \<union> set (drawn e), exec e s)"

text \<open>Only the catch-all hands requests to the OP, all but those for the path \<open>/\<close> itself.\<close>

definition to_op :: "string \<Rightarrow> request \<Rightarrow> bool" where
  "to_op pat r \<longleftrightarrow> pat = ''/'' \<and> rq_path r \<noteq> ''/''"

inductive program_step ::
    "unmarshal \<Rightarrow> string \<Rightarrow> (request \<Rightarrow> response \<Rightarrow> response) \<Rightarrow> provider
       \<Rightarrow> string set \<times> watcher \<Rightarrow> string set \<times> watcher \<Rightarrow> bool"
  for unmarshal path assets p where
  request: "(pat, h) \<in> set (handlers assets (p\<lparr>pv_handler := oph\<rparr>)) \<Longrightarrow>
     if to_op pat r then op_step\<^sup>*\<^sup>* (U, w_storage w) (U', snd (oph now r wr (w_storage w))) else U' = U \<Longrightarrow>
     program_step unmarshal path assets p (U, w) (U', w\<lparr>w_storage := snd (h now r wr (w_storage w))\<rparr>)"
| watch: "watch_step unmarshal path True w w' \<Longrightarrow> program_step unmarshal path assets p (U, w) (U, w')"
| signal: "program_step unmarshal path assets p (U, w) (U, w\<lparr>w_cancelled := True\<rparr>)"

inductive_cases program_stepE: "program_step unmarshal path assets p (U, w) (U', w')"

text \<open>The program starts where \<open>main\<close> starts serving.\<close>

inductive program_init ::
    "unmarshal \<Rightarrow> string \<Rightarrow> (string \<times> httpHandler) list \<Rightarrow> string set \<times> watcher \<Rightarrow> bool"
  for unmarshal path table where
  main: "idp_main (New sha ns nd fileServer ui (Inr k) kid) unmarshal newServer getenv cli fs0 fs1 fs2 = Serving x \<Longrightarrow>
     path = clientsFlag getenv cli \<Longrightarrow> table = run_handlers x \<Longrightarrow>
     w_storage w = run_storage x \<Longrightarrow> w_running w = run_watching x \<Longrightarrow>
     program_init unmarshal path table ({[], kid}, w)"

inductive program_reach ::
    "unmarshal \<Rightarrow> string \<Rightarrow> (request \<Rightarrow> response \<Rightarrow> response) \<Rightarrow> provider
       \<Rightarrow> string set \<times> watcher \<Rightarrow> bool"
  for unmarshal path assets p where
  start: "program_init unmarshal path (handlers assets p) x \<Longrightarrow> program_reach unmarshal path assets p x"
| step: "program_reach unmarshal path assets p x \<Longrightarrow> program_step unmarshal path assets p x y \<Longrightarrow>
     program_reach unmarshal path assets p y"

subsection \<open>The program's steps are runs of the storage machine\<close>

lemma op_step_sys: "op_step x y \<Longrightarrow> sys_step x y"
  by (auto elim!: op_step.cases intro: sys_step.event)

lemma op_steps_sys: "op_step\<^sup>*\<^sup>* x y \<Longrightarrow> sys_step\<^sup>*\<^sup>* x y"
  by (induction rule: rtranclp_induct) (auto intro: rtranclp.rtrancl_into_rtrancl op_step_sys)

lemma op_step_clients: "op_step x y \<Longrightarrow> clients (snd y) = clients (snd x)"
proof (erule op_step.cases)
  fix e U s
  assume "x = (U, s)" "y = (U \<union> set (drawn e), exec e s)" "op_event e"
  then show ?thesis by (cases e) (simp_all add: clients_exec del: exec.simps)
qed

lemma op_steps_clients: "op_step\<^sup>*\<^sup>* x y \<Longrightarrow> clients (snd y) = clients (snd x)"
  by (induction rule: rtranclp_induct) (auto dest: op_step_clients)

text \<open>
  What a handler of the table does to the storage is a run of such steps: nothing for the launchpad's,
  at most one completion for the login page, and the OP's own run for the catch-all.
\<close>

lemma serve_ops: "op_step\<^sup>*\<^sup>* (U, s) (U, snd (serve callback now r w s))"
  using serve_event [of callback now r w s]
proof (elim disjE exE conjE)
  fix e
  assume e: "drawn e = []" "pointers_ok e s" "snd (serve callback now r w s) = exec e s" "op_event e"
  have "op_step (U, s) (U \<union> set (drawn e), exec e s)"
    using e by (intro op_step.event) simp_all
  with e show ?thesis by (simp add: r_into_rtranclp)
qed simp

lemma handler_ops:
  assumes "(pat, h) \<in> set (handlers assets p)"
    and "if to_op pat r then op_step\<^sup>*\<^sup>* (U, s) (U', snd (pv_handler p now r w s)) else U' = U"
  shows "op_step\<^sup>*\<^sup>* (U, s) (U', snd (h now r w s))"
  using assms serve_ops [of U s "pv_callback p r" now r w]
  by (auto simp: handlers_def to_op_def rootWithFallback_def newLoginHandler_def loginPath_def split: if_splits)

lemma reload_runs: "sys_step\<^sup>*\<^sup>* (U, s) (U, ReplaceFileClients cs s)"
proof -
  have "sys_step (U, s) (U \<union> set (drawn (EReplaceFileClients cs)), exec (EReplaceFileClients cs) s)"
    by (rule sys_step.event) simp_all
  then show ?thesis by (simp add: r_into_rtranclp)
qed

text \<open>A step of the watcher installs the clients of a loaded file, or leaves the storage alone.\<close>

lemma watch_step_storage:
  assumes "watch_step unmarshal path onErr w w'"
  shows "w_storage w' = w_storage w
    \<or> (\<exists>fs cs. LoadClientsFile unmarshal path fs = Inr cs \<and> w_storage w' = ReplaceFileClients cs (w_storage w))"
  using assms
proof (cases rule: watch_step.cases)
  case (tick fs1 fs2)
  then show ?thesis by (auto simp: watch_tick_def Let_def split: sum.splits)
qed simp

lemma program_request_ops:
  assumes "(pat, h) \<in> set (handlers assets (p\<lparr>pv_handler := oph\<rparr>))"
    and "if to_op pat r then op_step\<^sup>*\<^sup>* (U, s) (U', snd (oph now r wr s)) else U' = U"
  shows "op_step\<^sup>*\<^sup>* (U, s) (U', snd (h now r wr s))"
  using handler_ops [OF assms(1)] assms(2) by simp

lemma program_step_runs:
  assumes "program_step unmarshal path assets p (U, w) (U', w')"
  shows "sys_step\<^sup>*\<^sup>* (U, w_storage w) (U', w_storage w')"
  using assms
proof (cases rule: program_step.cases)
  case (request pat h oph r now wr)
  from op_steps_sys [OF program_request_ops [OF request(2,3)]] request(1) show ?thesis by simp
next
  case watch
  then show ?thesis using watch_step_storage [of unmarshal path True w w'] reload_runs by fastforce
qed simp

subsection \<open>The registry of the running program is well formed\<close>

definition wf_registry :: "storage \<Rightarrow> bool" where
  "wf_registry s \<longleftrightarrow> (\<forall>cid c. fmlookup (clients s) cid = Some c \<longrightarrow> c_id c = cid \<and> wf_client c)"

lemma wf_registry_load:
  assumes "wf_registry s" "LoadClientsFile unmarshal path fs = Inr cs"
  shows "wf_registry (ReplaceFileClients cs s)"
proof -
  have "\<forall>c \<in> set cs. wf_client c"
    using assms(2) wf_entry_client by (auto simp: LoadClientsFile_Inr list_all_iff)
  then show ?thesis
    using assms(1) declared_id [of cs]
    by (auto simp: wf_registry_def lookup_ReplaceFileClients split: option.splits if_splits)
qed

definition program_inv :: "string set \<times> watcher \<Rightarrow> bool" where
  "program_inv x \<longleftrightarrow> reachable (fst x, w_storage (snd x)) \<and> wf_registry (w_storage (snd x))"

lemma program_inv_step:
  assumes "program_inv (U, w)" "program_step unmarshal path assets p (U, w) (U', w')"
  shows "program_inv (U', w')"
proof -
  have "wf_registry (w_storage w')"
    using assms(2)
  proof (cases rule: program_step.cases)
    case (request pat h oph r now wr)
    have "clients (w_storage w') = clients (w_storage w)"
      using op_steps_clients [OF program_request_ops [OF request(2,3)]] request(1) by simp
    with assms(1) show ?thesis by (simp add: program_inv_def wf_registry_def)
  next
    case watch
    from watch_step_storage [OF watch(2)] show ?thesis
    proof (elim disjE exE conjE)
      assume "w_storage w' = w_storage w"
      with assms(1) show ?thesis by (simp add: program_inv_def)
    next
      fix fs cs
      assume "LoadClientsFile unmarshal path fs = Inr cs" "w_storage w' = ReplaceFileClients cs (w_storage w)"
      with assms(1) show ?thesis by (simp add: program_inv_def wf_registry_load)
    qed
  next
    case signal
    with assms(1) show ?thesis by (simp add: program_inv_def)
  qed
  then show ?thesis
    using assms(1) reachable_steps [OF program_step_runs [OF assms(2)]] by (simp add: program_inv_def)
qed

interpretation prog: step_invariant "program_step unmarshal path assets p" program_inv
  by unfold_locales (metis program_inv_step surj_pair)

lemma program_inv_init:
  assumes "program_init unmarshal path table x"
  shows "program_inv x"
  using assms
proof (cases rule: program_init.cases)
  case (main sha ns nd fileServer ui k kid newServer getenv cli fs0 fs1 fs2 y w)
  show ?thesis
  proof (rule idp_main_cases [OF main(2)])
    fix cfg hs s
    assume new: "New sha ns nd fileServer ui (Inr k) kid cfg = Inr (hs, s)"
      and st: "if clientsFlag getenv cli = [] \<or> fs0 (clientsFlag getenv cli) = None
        then run_storage y = s \<and> \<not> run_watching y
        else \<exists>cs. LoadClientsFile unmarshal (clientsFlag getenv cli) fs1 = Inr cs
          \<and> run_storage y = ReplaceFileClients cs s \<and> run_watching y"
    note boot = reachable.start [OF New_Inr(1) [OF new]]
    have wf: "wf_registry s"
      using New_Inr(2) [OF new] wf_seedClients by (auto simp: wf_registry_def)
    have "reachable ({[], kid}, ReplaceFileClients cs s)" for cs
      using reachable_steps [OF reload_runs boot] .
    with st boot wf wf_registry_load main show ?thesis
      by (auto simp: program_inv_def split: if_splits)
  qed
qed

lemma program_reach_inv: "program_reach unmarshal path assets p x \<Longrightarrow> program_inv x"
  by (induction rule: program_reach.induct) (auto intro: program_inv_init prog.step_inv)

subsection \<open>What moves the registry\<close>

text \<open>Reloading looks at the registry and the seed only.\<close>

definition same_registry :: "storage \<Rightarrow> storage \<Rightarrow> bool" where
  "same_registry s s' \<longleftrightarrow> clients s' = clients s \<and> seedIDs s' = seedIDs s"

lemma same_registry_reload:
  "same_registry s s' \<Longrightarrow> same_registry (ReplaceFileClients cs s) (ReplaceFileClients cs s')"
  by (auto simp: same_registry_def lookup_ReplaceFileClients intro!: fmap_ext split: option.splits)

lemma same_registry_ops:
  assumes "op_step\<^sup>*\<^sup>* (U, s) (U', s')"
  shows "same_registry s s'"
proof -
  have "same_registry (snd x) (snd y)" if "op_step\<^sup>*\<^sup>* x y" for x y
    using that
  proof (induction rule: rtranclp_induct)
    case (step y z)
    have "seedIDs (snd z) = seedIDs (snd y)" using step(2) by (auto elim!: op_step.cases)
    with step op_step_clients [OF step(2)] show ?case by (simp add: same_registry_def)
  qed (simp add: same_registry_def)
  from this [OF assms] show ?thesis by simp
qed

text \<open>What callers see of the registry.\<close>

lemma same_registry_views:
  assumes "same_registry s s'"
  shows "GetClientByClientID cid s' = GetClientByClientID cid s"
    "AuthorizeClientIDSecret cid secret s' = AuthorizeClientIDSecret cid secret s"
    "ClientTiles s' = ClientTiles s" "allClientIDs s' = allClientIDs s"
  using assms
  by (simp_all add: same_registry_def GetClientByClientID_def AuthorizeClientIDSecret_def
      ClientTiles_def ClientTiles_range_def allClientIDs_eq)

text \<open>The loaded files of a run, in order.\<close>

definition reloaded ::
    "unmarshal \<Rightarrow> string \<Rightarrow> watcher \<Rightarrow> watcher \<Rightarrow> Client list list \<Rightarrow> bool" where
  "reloaded unmarshal path w w' css \<longleftrightarrow>
     same_registry (fold ReplaceFileClients css (w_storage w)) (w_storage w')
     \<and> set css \<subseteq> {cs. \<exists>fs. LoadClientsFile unmarshal path fs = Inr cs}
     \<and> (css = [] \<or> w_running w) \<and> (w_running w' \<longrightarrow> w_running w)
     \<and> (w_running w \<longrightarrow> w_running w' \<or> w_cancelled w')
     \<and> (w_cancelled w \<longrightarrow> w_cancelled w')"

lemma reloaded_refl: "reloaded unmarshal path w w []"
  by (simp add: reloaded_def same_registry_def)

lemma reloaded_same:
  assumes "reloaded unmarshal path w w1 css" "same_registry (w_storage w1) (w_storage w2)"
    and "w_running w2 \<Longrightarrow> w_running w1" "w_running w1 \<Longrightarrow> w_running w2 \<or> w_cancelled w2"
    and "w_cancelled w1 \<Longrightarrow> w_cancelled w2"
  shows "reloaded unmarshal path w w2 css"
  using assms by (auto simp: reloaded_def same_registry_def)

lemma watch_tick_flags [simp]:
  "w_running (watch_tick unmarshal path h fs1 fs2 w) = w_running w"
  "w_cancelled (watch_tick unmarshal path h fs1 fs2 w) = w_cancelled w"
  by (auto simp: watch_tick_def Let_def split: sum.splits)

lemma reloaded_step:
  assumes old: "reloaded unmarshal path w w1 css" and step: "program_step unmarshal path assets p (U, w1) (U', w2)"
  shows "\<exists>css'. reloaded unmarshal path w w2 css'"
  using step
proof (cases rule: program_step.cases)
  case (request pat h oph r now wr)
  have "same_registry (w_storage w1) (w_storage w2)"
    using same_registry_ops [OF program_request_ops [OF request(2,3)]] request(1) by simp
  then have "reloaded unmarshal path w w2 css"
    by (rule reloaded_same [OF old]) (simp_all add: request(1))
  then show ?thesis by blast
next
  case watch
  from watch(2) show ?thesis
  proof (cases rule: watch_step.cases)
    case (tick fs1 fs2)
    from watch_step_storage [OF watch(2)] show ?thesis
    proof (elim disjE exE conjE)
      assume "w_storage w2 = w_storage w1"
      then have "reloaded unmarshal path w w2 css"
        by (intro reloaded_same [OF old]) (simp_all add: same_registry_def tick)
      then show ?thesis by blast
    next
      fix fs cs
      assume cs: "LoadClientsFile unmarshal path fs = Inr cs"
        "w_storage w2 = ReplaceFileClients cs (w_storage w1)"
      have "same_registry (fold ReplaceFileClients (css @ [cs]) (w_storage w)) (w_storage w2)"
        using old cs(2) same_registry_reload by (simp add: reloaded_def)
      then have "reloaded unmarshal path w w2 (css @ [cs])"
        using old cs(1) tick by (auto simp: reloaded_def)
      then show ?thesis by blast
    qed
  next
    case stop
    then have "reloaded unmarshal path w w2 css"
      by (intro reloaded_same [OF old]) (simp_all add: same_registry_def)
    then show ?thesis by blast
  qed
next
  case signal
  then have "reloaded unmarshal path w w2 css"
    by (intro reloaded_same [OF old]) (simp_all add: same_registry_def)
  then show ?thesis by blast
qed

lemma reloaded_steps:
  assumes "(program_step unmarshal path assets p)\<^sup>*\<^sup>* (U, w) (U', w')"
  shows "\<exists>css. reloaded unmarshal path w w' css"
proof -
  have "\<exists>css. reloaded unmarshal path w (snd y) css" if "(program_step unmarshal path assets p)\<^sup>*\<^sup>* (U, w) y" for y
    using that
  proof (induction rule: rtranclp_induct)
    case base
    then show ?case using reloaded_refl by auto
  next
    case (step y z)
    then show ?case
      using reloaded_step [of unmarshal path w "snd y" _ assets p "fst y" "fst z" "snd z"] by auto
  qed
  from this [OF assms] show ?thesis by simp
qed

subsection \<open>An example program\<close>

text \<open>It is started with a clients file that declares the example orders client.\<close>

definition booted :: watcher where
  "booted = \<lparr>w_storage = ReplaceFileClients [entry_client orders_entry] boot_storage, w_last = 1,
     w_errors = [], w_running = True, w_cancelled = False\<rparr>"

abbreviation quiet_assets :: "request \<Rightarrow> response \<Rightarrow> response" where
  "quiet_assets \<equiv> assetsHandler (\<lambda>fsys r w. w) (\<lambda>name. None)"

lemma program_booted:
  "program_reach toy_yaml ''f'' quiet_assets quiet_provider ({[], ''kid''}, booted)"
proof (rule program_reach.start)
  have d: "disk ''one'' 1 ''f'' \<noteq> None" by (simp add: disk_def)
  have w: "WatchClientsFile toy_yaml ''f'' (disk ''one'' 1) (disk ''one'' 1) boot_storage = Inr booted"
    by (simp add: WatchClientsFile_def example_loads booted_def)
  obtain x where x: "idp_main (New (\<lambda>m. m) quiet_op quiet_op (\<lambda>fsys r w. w) (\<lambda>name. None) (Inr boot_key) ''kid'')
      toy_yaml (\<lambda>g h. None) (\<lambda>k. []) (\<lambda>f. if f = ''clients'' then Some ''f'' else None)
      (disk ''one'' 1) (disk ''one'' 1) (disk ''one'' 1) = Serving x"
    "run_handlers x = handlers quiet_assets quiet_provider" "run_storage x = w_storage booted" "run_watching x"
    using d w by (simp add: idp_main_def New_def NewStorage_boot newProvider_def quiet_op_def
        flagValue_def env_def booted_def Let_def)
  show "program_init toy_yaml ''f'' (handlers quiet_assets quiet_provider) ({[], ''kid''}, booted)"
    by (rule program_init.main [OF x(1)]) (simp_all add: x clientsFlag_def flagValue_def booted_def)
qed

subsection \<open>Properties\<close>

text \<open>
  C3. The running program refines the storage machine: in every state it can be in the storage is one
  the machine can reach, and whatever requests, reloads and signals happen next, in any interleaving,
  the storage changes by a run of the machine. For the login page, the launchpad and the watcher this
  follows from what they do; of the OP's library it uses that it calls the methods of \<open>op.Storage\<close>. So
  every guarantee about runs holds of the program.
\<close>

theorem program_refines_machine:
  assumes "program_reach unmarshal path assets p (U, w)"
    and "(program_step unmarshal path assets p)\<^sup>*\<^sup>* (U, w) (U', w')"
  shows "reachable (U, w_storage w) \<and> sys_step\<^sup>*\<^sup>* (U, w_storage w) (U', w_storage w')
    \<and> reachable (U', w_storage w')"
proof -
  have r: "reachable (U, w_storage w)"
    using program_reach_inv [OF assms(1)] by (simp add: program_inv_def)
  have "sys_step\<^sup>*\<^sup>* (U, w_storage w) (fst y, w_storage (snd y))"
    if "(program_step unmarshal path assets p)\<^sup>*\<^sup>* (U, w) y" for y
    using that
  proof (induction rule: rtranclp_induct)
    case (step y z)
    then show ?case
      using program_step_runs [of unmarshal path assets p "fst y" "snd y" "fst z" "snd z"] by simp
  qed simp
  from this [OF assms(2)] have run: "sys_step\<^sup>*\<^sup>* (U, w_storage w) (U', w_storage w')" by simp
  with r reachable_steps [OF run] show ?thesis by blast
qed

text \<open>A request to the login page, a request to the OP, the signal, and the watcher ends.\<close>

definition approved :: watcher where
  "approved = booted\<lparr>w_storage := snd (newLoginHandler quiet_provider 60
     (follow (deviceHref ''BCDF-GHJK'' (Identities ! 0))) new_response (w_storage booted))\<rparr>"

definition revoking :: request where
  "revoking = (request_with [])\<lparr>rq_path := ''/revoke''\<rparr>"

definition served :: watcher where
  "served = approved\<lparr>w_storage := snd (RevokeToken ''r1'' exampleClientID (w_storage approved))\<rparr>"

definition shut_down :: watcher where
  "shut_down = served\<lparr>w_cancelled := True, w_running := False\<rparr>"

lemma example_steps:
  "(program_step toy_yaml ''f'' quiet_assets quiet_provider)\<^sup>*\<^sup>* ({[], ''kid''}, booted) ({[], ''kid''}, shut_down)"
proof -
  let ?step = "program_step toy_yaml ''f'' quiet_assets quiet_provider" and ?U = "{[], ''kid''}"
  have quiet: "quiet_provider\<lparr>pv_handler := pv_handler quiet_provider\<rparr> = quiet_provider" by simp
  have "(loginPath, newLoginHandler quiet_provider) \<in> set (handlers quiet_assets quiet_provider)"
    by (simp add: handlers_def)
  then have s1: "?step (?U, booted) (?U, approved)"
    unfolding approved_def
    by (intro program_step.request [where pat = loginPath and oph = "pv_handler quiet_provider"])
      (simp_all add: quiet to_op_def loginPath_def)
  have "op_step (?U, w_storage approved) (?U \<union> set (drawn (ERevokeToken ''r1'' exampleClientID)),
      exec (ERevokeToken ''r1'' exampleClientID) (w_storage approved))"
    by (rule op_step.event) simp_all
  then have op: "op_step\<^sup>*\<^sup>* (?U, w_storage approved)
      (?U, snd (pv_handler quiet_provider 61 revoking new_response (w_storage approved)))"
    by (simp add: quiet_provider_def r_into_rtranclp)
  have h: "(''/'', \<lambda>now r w s. rootWithFallback (pv_handler quiet_provider now) r w s)
      \<in> set (handlers quiet_assets (quiet_provider\<lparr>pv_handler := pv_handler quiet_provider\<rparr>))"
    unfolding quiet by (simp add: handlers_def)
  have path: "rq_path revoking \<noteq> ''/''" by (simp add: revoking_def)
  have "snd (rootWithFallback (pv_handler quiet_provider 61) revoking new_response (w_storage approved)) =
      snd (RevokeToken ''r1'' exampleClientID (w_storage approved))"
    using path by (simp add: rootWithFallback_def quiet_provider_def)
  with program_step.request [OF h, where r = revoking and U = ?U and U' = ?U and w = approved and now = 61
      and wr = new_response and unmarshal = toy_yaml and path = "''f''"] op
  have s2: "?step (?U, approved) (?U, served)" by (simp add: served_def to_op_def path)
  have s3: "?step (?U, served) (?U, served\<lparr>w_cancelled := True\<rparr>)" by (rule program_step.signal)
  have s4: "?step (?U, served\<lparr>w_cancelled := True\<rparr>) (?U, shut_down)"
  proof (rule program_step.watch)
    have "watch_step toy_yaml ''f'' True (served\<lparr>w_cancelled := True\<rparr>)
        ((served\<lparr>w_cancelled := True\<rparr>)\<lparr>w_running := False\<rparr>)"
      by (rule watch_step.stop) (simp_all add: served_def approved_def booted_def)
    then show "watch_step toy_yaml ''f'' True (served\<lparr>w_cancelled := True\<rparr>) shut_down"
      by (simp add: shut_down_def)
  qed
  from s1 s2 s3 s4 show ?thesis by (meson converse_rtranclp_into_rtranclp rtranclp.rtrancl_refl)
qed

theorem program_refines_machine_witness: "reachable ({[], ''kid''}, w_storage shut_down)"
  using program_refines_machine [OF program_booted example_steps] by blast

text \<open>
  C14. The registry is well typed in every state the program can be in: every client is filed under
  its own non-empty id, authenticates by a secret or not at all, and holds a secret exactly when it
  is confidential; the seeded client is registered; and tiles and entitlements list exactly the
  registered ids.
\<close>

theorem program_registry_wf:
  assumes "program_reach unmarshal path assets p (U, w)"
  shows "(case GetClientByClientID cid (w_storage w) of
        Inl err \<Rightarrow> err = ClientNotFound cid \<and> cid \<noteq> exampleClientID \<and> cid \<notin> set (allClientIDs (w_storage w))
      | Inr c \<Rightarrow> GetID c = cid \<and> cid \<noteq> [] \<and> clientAuthMethod c \<in> {AuthMethodBasic, AuthMethodNone}
          \<and> (IsPublic c \<longleftrightarrow> c_secret c = []) \<and> cid \<in> set (allClientIDs (w_storage w)))
    \<and> map ct_ClientID (ClientTiles (w_storage w)) = allClientIDs (w_storage w)"
proof -
  have r: "reachable (U, w_storage w)" and wf: "wf_registry (w_storage w)"
    using program_reach_inv [OF assms] by (simp_all add: program_inv_def)
  have "exampleClientID \<in> fmdom' (clients (w_storage w))"
    using reachable_invs(1) [OF r] reachable_fixed [OF r] by (auto simp: client_inv_def)
  with wf show ?thesis
    by (auto simp: GetClientByClientID_def wf_registry_def wf_client_def GetID_def clientAuthMethod_def
        allClientIDs_eq fmlookup_dom'_iff ClientTiles_def ClientTiles_range_ids split: option.splits)
qed

theorem program_registry_wf_witness:
  "map ct_ClientID (ClientTiles (w_storage booted)) = allClientIDs (w_storage booted)"
  using program_registry_wf [OF program_booted] by blast

text \<open>
  C15. No client gets in without a secret: in every state the program can be in, the empty secret
  authenticates no client, and no secret authenticates a public one.
\<close>

theorem empty_secret_never_authenticates:
  assumes "program_reach unmarshal path assets p (U, w)"
    and "secret = [] \<or> (\<exists>c. GetClientByClientID cid (w_storage w) = Inr c \<and> IsPublic c)"
  shows "AuthorizeClientIDSecret cid secret (w_storage w) \<noteq> None"
proof
  have wf: "wf_registry (w_storage w)"
    using program_reach_inv [OF assms(1)] by (simp add: program_inv_def)
  assume "AuthorizeClientIDSecret cid secret (w_storage w) = None"
  then obtain c where "fmlookup (clients (w_storage w)) cid = Some c" "\<not> IsPublic c" "c_secret c = secret"
    by (auto simp: AuthorizeClientIDSecret_def ConstantTimeCompare_1 split: option.splits if_splits)
  with wf assms(2) show False by (auto simp: wf_registry_def wf_client_def GetClientByClientID_def)
qed

theorem empty_secret_never_authenticates_witness:
  "AuthorizeClientIDSecret ''orders'' [] (w_storage booted) \<noteq> None"
  using empty_secret_never_authenticates [OF program_booted, of "[]" "''orders''"] by simp

text \<open>
  C24. An edit reaches the launchpad: whenever the watcher runs and the file has another time than it
  saw last, older or newer, the tick that reads that time and then finds valid contents is a step of
  the program, remembers that time, and registers exactly the file's clients and the seed; after it
  every page shows a tile for every client the file declares and every identity is entitled to it.
\<close>

theorem edit_reaches_launchpad:
  assumes "program_reach unmarshal path assets p (U, w)" "w_running w"
    and "clientsModTime path fs1 \<noteq> w_last w" "LoadClientsFile unmarshal path fs2 = Inr cs"
    and "declared cs cid = Some c" "identityBySubject subject = Some i"
    and w': "w' = watch_tick unmarshal path True fs1 fs2 w"
  shows "program_step unmarshal path assets p (U, w) (U, w')
    \<and> w_last w' = clientsModTime path fs1 \<and> w_errors w' = w_errors w
    \<and> set (allClientIDs (w_storage w')) = c_id ` set cs \<union> fset (seedIDs (w_storage w))
    \<and> \<lparr>ct_ClientID = cid, ct_Tile = c_tile c\<rparr> \<in> set (ld_Tiles (buildData r (w_storage w')))
    \<and> (\<exists>apps. fmlookup (ui_Claims (snd (setCoarseUserinfo info subject scopes (w_storage w')))) appsClaim =
         Some apps \<and> cid \<in> set apps)"
proof -
  have new: "w' = w\<lparr>w_last := clientsModTime path fs1, w_storage := ReplaceFileClients cs (w_storage w)\<rparr>"
    unfolding w' by (rule watch_tick_reload [OF assms(3,4)])
  have "program_step unmarshal path assets p (U, w) (U, w')"
    unfolding w' using assms(2) by (intro program_step.watch watch_step.tick)
  moreover have r: "reachable (U, w_storage w)"
    using program_reach_inv [OF assms(1)] by (simp add: program_inv_def)
  have "fset (seedIDs (w_storage w)) \<subseteq> fmdom' (clients (w_storage w))"
    using reachable_invs(1) [OF r] by (simp add: client_inv_def)
  then have "set (allClientIDs (w_storage w')) = c_id ` set cs \<union> fset (seedIDs (w_storage w))"
    using reg.set_ids_replace [of cs "w_storage w"] by (auto simp: new allClientIDs_eq)
  moreover have tile: "fmlookup (clients (w_storage w')) cid = Some c"
    using assms(5) by (simp add: new lookup_ReplaceFileClients)
  then have "\<lparr>ct_ClientID = cid, ct_Tile = c_tile c\<rparr> \<in> set (ClientTiles (w_storage w'))"
    using set_ClientTiles by blast
  then have "\<lparr>ct_ClientID = cid, ct_Tile = c_tile c\<rparr> \<in> set (ld_Tiles (buildData r (w_storage w')))"
    by (simp add: buildData_def Let_def split: option.splits)
  moreover have "cid \<in> set (allClientIDs (w_storage w'))"
    using tile by (auto simp: allClientIDs_eq intro: fmdom'I)
  then have "\<exists>apps. fmlookup (ui_Claims (snd (setCoarseUserinfo info subject scopes (w_storage w')))) appsClaim =
      Some apps \<and> cid \<in> set apps"
    using assms(6) by (simp add: setCoarseUserinfo_known AppendClaims_def)
  ultimately show ?thesis by (simp add: new)
qed

theorem edit_reaches_launchpad_witness:
  "\<lparr>ct_ClientID = ''cli'', ct_Tile = c_tile (entry_client cli_entry)\<rparr> \<in> set (ld_Tiles (buildData (request_with [])
     (w_storage (watch_tick toy_yaml ''f'' True (disk ''one'' 0) (disk ''two'' 0) booted))))"
proof -
  have run: "w_running booted" and new: "clientsModTime ''f'' (disk ''one'' 0) \<noteq> w_last booted"
    by (simp_all add: booted_def)
  have d: "declared [entry_client orders_entry, entry_client cli_entry] ''cli'' = Some (entry_client cli_entry)"
    by (simp add: declared_def entry_client_def fileClientToClient_def cli_entry_def)
  obtain i where i: "identityBySubject ''bob'' = Some i" using known_iff [of "''bob''"] by auto
  from edit_reaches_launchpad [OF program_booted run new example_loads(2) d i refl] show ?thesis by blast
qed

text \<open>
  C35. Only reloads move the registry: over any run of the program, whatever requests the login page,
  the launchpad and the OP serve, every client lookup, client authentication, tile and id is what
  installing some loaded clients files, one after another, makes of the registry at the start. When
  the watcher did not run then there are none, so the registry is frozen; the watcher ends only after
  the signal, and never starts again.
\<close>

theorem registry_only_reloaded:
  assumes "(program_step unmarshal path assets p)\<^sup>*\<^sup>* (U, w) (U', w')"
  shows "\<exists>css. set css \<subseteq> {cs. \<exists>fs. LoadClientsFile unmarshal path fs = Inr cs}
    \<and> (let s = fold ReplaceFileClients css (w_storage w) in
         (\<forall>cid. GetClientByClientID cid (w_storage w') = GetClientByClientID cid s)
         \<and> (\<forall>cid secret. AuthorizeClientIDSecret cid secret (w_storage w') = AuthorizeClientIDSecret cid secret s)
         \<and> ClientTiles (w_storage w') = ClientTiles s \<and> allClientIDs (w_storage w') = allClientIDs s)
    \<and> (if w_running w then w_running w' \<or> w_cancelled w' else css = [] \<and> \<not> w_running w')"
proof -
  obtain css where css: "reloaded unmarshal path w w' css" using reloaded_steps [OF assms] by blast
  then have "same_registry (fold ReplaceFileClients css (w_storage w)) (w_storage w')" by (simp add: reloaded_def)
  note views = same_registry_views [OF this]
  from css show ?thesis
    by (intro exI [of _ css]) (auto simp: reloaded_def views Let_def)
qed

theorem registry_only_reloaded_witness:
  "\<exists>css. set css \<subseteq> {cs. \<exists>fs. LoadClientsFile toy_yaml ''f'' fs = Inr cs}
     \<and> ClientTiles (w_storage shut_down) = ClientTiles (fold ReplaceFileClients css (w_storage booted))"
  using registry_only_reloaded [OF example_steps] unfolding Let_def by blast

end
