(* ===== verification/Provenance.thy ===== *)
theory Provenance
  imports Requests
begin

text \<open>
  Where tokens come from. The storage issues whatever the OP asks for, so that a token stands for a
  login depends on what the OP may ask: it issues for what the storage has shown it. This theory runs
  the storage machine under that rule and keeps the history of the run, newest first: what was done,
  and what the OP was shown.
\<close>

subsection \<open>What the OP is shown, and what it may do\<close>

datatype seen =
    Did event
  | Looked string authRequest          \<comment> \<open>\<open>AuthRequestByID\<close>\<close>
  | Coded string                       \<comment> \<open>the first critical section of \<open>AuthRequestByCode\<close>\<close>
  | Exchanged authRequest              \<comment> \<open>its second one\<close>
  | Refreshed addr "string list"       \<comment> \<open>\<open>TokenRequestByRefreshToken\<close>, and the scopes of the token\<close>
  | Polled DeviceAuthorizationState    \<comment> \<open>\<open>GetDeviceAuthorizatonState\<close>\<close>

type_synonym history = "seen list"

text \<open>
  The requests the OP may issue tokens for: an auth request it got for a code, or one it looked up
  and found done; a refresh token it was given; and, for a device, a flow it polled and found done,
  whose client is in the audience.
\<close>

fun may_issue :: "history \<Rightarrow> tokenRequest \<Rightarrow> bool" where
  "may_issue tr (AuthReq a) \<longleftrightarrow> Exchanged a \<in> set tr \<or> (\<exists>rid. Looked rid a \<in> set tr) \<and> Done a"
| "may_issue tr (RefreshReq p) \<longleftrightarrow> (\<exists>sc. Refreshed p sc \<in> set tr)"
| "may_issue tr (OtherReq r) \<longleftrightarrow>
     (\<exists>st. Polled st \<in> set tr \<and> ds_Done st \<and> otr_Subject r = ds_Subject st
        \<and> otr_Scopes r = ds_Scopes st \<and> ds_ClientID st \<in> set (otr_Audience r))"

text \<open>
  It saves a code only for a request it found done, and narrows a refresh token only to scopes it saw
  the token have. What other callers do is not restricted.
\<close>

fun op_may :: "history \<Rightarrow> event \<Rightarrow> bool" where
  "op_may tr (ESaveAuthCode rid code) \<longleftrightarrow> (\<exists>a. Looked rid a \<in> set tr \<and> Done a)"
| "op_may tr (ECreateAccessToken uid now req) \<longleftrightarrow> may_issue tr req"
| "op_may tr (ECreateAccessAndRefreshTokens rid tid now1 now2 now3 req cur) \<longleftrightarrow> may_issue tr req"
| "op_may tr (ESetCurrentScopes p scopes) \<longleftrightarrow> (\<exists>sc. Refreshed p sc \<in> set tr \<and> set scopes \<subseteq> set sc)"
| "op_may tr e \<longleftrightarrow> True"

text \<open>What the storage shows in a state, after a history. Looking changes nothing.\<close>

inductive shown :: "history \<Rightarrow> storage \<Rightarrow> seen \<Rightarrow> bool" where
  look: "AuthRequestByID rid s = Inr a \<Longrightarrow> shown tr s (Looked rid a)"
| code: "fmlookup (codes s) c = Some rid \<Longrightarrow> shown tr s (Coded rid)"
| exchange: "Coded rid \<in> set tr \<Longrightarrow> AuthRequestByID rid s = Inr a \<Longrightarrow> shown tr s (Exchanged a)"
| refresh: "TokenRequestByRefreshToken r s = Inr (RefreshReq p) \<Longrightarrow>
     shown tr s (Refreshed p (reqGetScopes s (RefreshReq p)))"
| poll: "GetDeviceAuthorizatonState None cid dc s = Inr st \<Longrightarrow> shown tr s (Polled st)"

inductive op_run :: "history \<Rightarrow> string set \<times> storage \<Rightarrow> bool" where
  start: "sys_init x \<Longrightarrow> op_run [] x"
| see: "op_run tr (U, s) \<Longrightarrow> shown tr s x \<Longrightarrow> op_run (x # tr) (U, s)"
| act: "op_run tr (U, s) \<Longrightarrow> distinct (drawn e) \<Longrightarrow> set (drawn e) \<inter> U = {} \<Longrightarrow> pointers_ok e s \<Longrightarrow>
     op_may tr e \<Longrightarrow> op_run (Did e # tr) (U \<union> set (drawn e), exec e s)"

lemma op_run_reachable: "op_run tr x \<Longrightarrow> reachable x"
  by (induction rule: op_run.induct) (auto intro: reachable.start reachable.step sys_step.event)

subsection \<open>A login in the history\<close>

text \<open>
  The subject granted the client these scopes: the client opened an auth request, or a device flow,
  for at least those scopes, and that very request, or that user code, was completed as the subject,
  who is a built-in identity.
\<close>

definition granted :: "history \<Rightarrow> string \<Rightarrow> string \<Rightarrow> string set \<Rightarrow> bool" where
  "granted tr client subject scopes \<longleftrightarrow> known subject
     \<and> ((\<exists>rid ar u now. Did (ECreateAuthRequest rid ar u) \<in> set tr \<and> o_ClientID ar = client
           \<and> scopes \<subseteq> set (o_Scopes ar) \<and> Did (ECompleteAuthRequest now rid subject) \<in> set tr)
        \<or> (\<exists>dc uc expires sc now. Did (EStoreDeviceAuthorization client dc uc expires sc) \<in> set tr
           \<and> scopes \<subseteq> set sc \<and> Did (ECompleteDeviceAuthorization now uc subject) \<in> set tr))"

lemma granted_mono:
  "granted tr c u G \<Longrightarrow> set tr \<subseteq> set tr' \<Longrightarrow> G' \<subseteq> G \<Longrightarrow> granted tr' c u G'"
  unfolding granted_def by (elim conjE disjE exE; blast)

subsection \<open>Requests and codes\<close>

definition req_from :: "history \<Rightarrow> string \<Rightarrow> authRequest \<Rightarrow> bool" where
  "req_from tr rid a \<longleftrightarrow>
     (\<exists>ar u. Did (ECreateAuthRequest rid ar u) \<in> set tr \<and> ar_applicationID a = o_ClientID ar
        \<and> ar_scopes a = o_Scopes ar)
     \<and> (ar_done a \<longrightarrow>
          known (ar_userID a) \<and> (\<exists>now. Did (ECompleteAuthRequest now rid (ar_userID a)) \<in> set tr))"

lemma req_from_Cons: "req_from tr rid a \<Longrightarrow> req_from (x # tr) rid a"
  unfolding req_from_def by auto

lemma req_from_granted:
  "req_from tr rid a \<Longrightarrow> ar_done a \<Longrightarrow> granted tr (ar_applicationID a) (ar_userID a) (set (ar_scopes a))"
  unfolding req_from_def granted_def by fastforce

text \<open>A code leads to a done request, also after the request was deleted and its id is spent.\<close>

definition code_ok :: "string set \<Rightarrow> storage \<Rightarrow> string \<Rightarrow> bool" where
  "code_ok U s rid \<longleftrightarrow> rid \<in> U \<and> pred_option ar_done (fmlookup (authRequests s) rid)"

lemma code_ok_exec:
  assumes "code_ok U s rid" "set (drawn e) \<inter> U = {}"
  shows "code_ok (U \<union> set (drawn e)) (exec e s) rid"
proof -
  have "ar_done a" if "fmlookup (authRequests (exec e s)) rid = Some a" for a
  proof -
    have "rid \<notin> set (drawn e)" using assms by (auto simp: code_ok_def)
    from req_exec_old [OF this that] obtain r where "fmlookup (authRequests s) rid = Some r" "req_le r a"
      by blast
    with assms(1) show ?thesis by (simp add: code_ok_def req_le_def)
  qed
  with assms(1) show ?thesis by (simp add: code_ok_def pred_option_def)
qed

definition requests_from :: "history \<Rightarrow> string set \<times> storage \<Rightarrow> bool" where
  "requests_from tr x \<longleftrightarrow>
     (\<forall>rid a. fmlookup (authRequests (snd x)) rid = Some a \<longrightarrow> req_from tr rid a)
     \<and> (\<forall>rid a. Looked rid a \<in> set tr \<longrightarrow>
          req_from tr rid a \<and> (ar_done a \<longrightarrow> code_ok (fst x) (snd x) rid))
     \<and> (\<forall>c rid. fmlookup (codes (snd x)) c = Some rid \<longrightarrow> code_ok (fst x) (snd x) rid)
     \<and> (\<forall>rid. Coded rid \<in> set tr \<longrightarrow> code_ok (fst x) (snd x) rid)
     \<and> (\<forall>a. Exchanged a \<in> set tr \<longrightarrow> ar_done a \<and> (\<exists>rid. req_from tr rid a))"

lemma req_from_exec:
  assumes "\<And>a. fmlookup (authRequests s) rid = Some a \<Longrightarrow> req_from tr rid a"
    and "fmlookup (authRequests (exec e s)) rid = Some a"
  shows "req_from (Did e # tr) rid a"
proof (cases e)
  case (ECreateAuthRequest uid ar u)
  then show ?thesis
    using assms
    by (cases rule: CreateAuthRequest_cases [of uid ar u s])
      (fastforce simp: req_from_def split: if_splits)+
next
  case (ECompleteAuthRequest now rid' subject)
  then show ?thesis
    using assms
    by (cases rule: CompleteAuthRequest_cases [of now rid' subject s])
      (fastforce simp: req_from_def split: if_splits)+
next
  case (EDeleteAuthRequest rid')
  with assms show ?thesis
    by (fastforce simp: authRequests_exec simp del: exec.simps split: if_splits intro: req_from_Cons)
qed (use assms in \<open>auto simp: authRequests_exec simp del: exec.simps intro: req_from_Cons\<close>)

lemma codes_exec:
  assumes "fmlookup (codes (exec e s)) c = Some rid"
  shows "fmlookup (codes s) c = Some rid \<or> e = ESaveAuthCode rid c"
  using assms
  by (cases e) (auto simp: exec_defs Let_def split_beta split: option.splits if_splits)

text \<open>One more entry of the history, and what the state became with it.\<close>

fun seen_ok :: "history \<Rightarrow> string set \<Rightarrow> storage \<Rightarrow> seen \<Rightarrow> bool" where
  "seen_ok tr U s (Looked rid a) \<longleftrightarrow> req_from tr rid a \<and> (ar_done a \<longrightarrow> code_ok U s rid)"
| "seen_ok tr U s (Coded rid) \<longleftrightarrow> code_ok U s rid"
| "seen_ok tr U s (Exchanged a) \<longleftrightarrow> ar_done a \<and> (\<exists>rid. req_from tr rid a)"
| "seen_ok tr U s x \<longleftrightarrow> True"

lemma requests_from_step:
  assumes inv: "requests_from tr (U, s)"
    and keep: "\<And>rid. code_ok U s rid \<Longrightarrow> code_ok U' s' rid"
    and reqs: "\<And>rid a. fmlookup (authRequests s') rid = Some a \<Longrightarrow> req_from (x # tr) rid a"
    and cods: "\<And>c rid. fmlookup (codes s') c = Some rid \<Longrightarrow> code_ok U' s' rid"
    and new: "seen_ok tr U' s' x"
  shows "requests_from (x # tr) (U', s')"
proof -
  have old: "seen_ok tr U s y" if "y \<in> set tr" for y
    using inv that by (cases y) (simp_all add: requests_from_def)
  have "seen_ok (x # tr) U' s' y" if "y \<in> set (x # tr)" for y
  proof -
    have "seen_ok tr U s y \<Longrightarrow> seen_ok tr U' s' y" by (cases y) (simp_all add: keep)
    with that new old have "seen_ok tr U' s' y" by auto
    then show ?thesis by (cases y) (auto intro: req_from_Cons)
  qed
  from this [of "Looked _ _"] this [of "Coded _"] this [of "Exchanged _"] reqs cods
  show ?thesis unfolding requests_from_def by simp
qed

lemma requests_from_act:
  assumes inv: "requests_from tr (U, s)" and fresh: "set (drawn e) \<inter> U = {}" and may: "op_may tr e"
  shows "requests_from (Did e # tr) (U \<union> set (drawn e), exec e s)"
proof (rule requests_from_step [OF inv])
  note old = inv [unfolded requests_from_def fst_conv snd_conv]
  show keep: "code_ok (U \<union> set (drawn e)) (exec e s) rid" if "code_ok U s rid" for rid
    by (rule code_ok_exec [OF that fresh])
  show "req_from (Did e # tr) rid a" if "fmlookup (authRequests (exec e s)) rid = Some a" for rid a
    by (rule req_from_exec [OF _ that]) (use old in blast)
  show "code_ok (U \<union> set (drawn e)) (exec e s) rid" if "fmlookup (codes (exec e s)) c = Some rid" for c rid
  proof (rule keep)
    from codes_exec [OF that] show "code_ok U s rid"
      using old may by (auto simp: Done_def)
  qed
qed simp

text \<open>Looking does not change the state.\<close>

lemma requests_from_see:
  assumes inv: "requests_from tr (U, s)" and new: "seen_ok tr U s x"
  shows "requests_from (x # tr) (U, s)"
proof (rule requests_from_step [OF inv _ _ _ new])
  show "req_from (x # tr) rid a" if "fmlookup (authRequests s) rid = Some a" for rid a
    using inv that by (auto simp: requests_from_def intro: req_from_Cons)
qed (use inv in \<open>auto simp: requests_from_def\<close>)

subsection \<open>Device flows\<close>

definition flow_from :: "history \<Rightarrow> deviceEntry \<Rightarrow> bool" where
  "flow_from tr e \<longleftrightarrow>
     (\<exists>dc expires. Did (EStoreDeviceAuthorization (ds_ClientID (de_state e)) dc (de_userCode e) expires
          (ds_Scopes (de_state e))) \<in> set tr)
     \<and> (ds_Done (de_state e) \<longrightarrow> known (ds_Subject (de_state e))
          \<and> (\<exists>now. Did (ECompleteDeviceAuthorization now (de_userCode e) (ds_Subject (de_state e))) \<in> set tr))"

lemma flow_from_Cons: "flow_from tr e \<Longrightarrow> flow_from (x # tr) e"
  unfolding flow_from_def by auto

lemma flow_from_granted:
  "flow_from tr e \<Longrightarrow> ds_Done (de_state e) \<Longrightarrow>
     granted tr (ds_ClientID (de_state e)) (ds_Subject (de_state e)) (set (ds_Scopes (de_state e)))"
  unfolding flow_from_def granted_def by blast

definition flows_from :: "history \<Rightarrow> storage \<Rightarrow> bool" where
  "flows_from tr s \<longleftrightarrow>
     (\<forall>dc e. fmlookup (deviceCodes s) dc = Some e \<longrightarrow> flow_from tr e)
     \<and> (\<forall>st. Polled st \<in> set tr \<longrightarrow> (\<exists>e. de_state e = st \<and> flow_from tr e))"

lemma flow_from_exec:
  assumes old: "\<And>dc e. fmlookup (deviceCodes s) dc = Some e \<Longrightarrow> flow_from tr e"
    and inv: "device_inv U s" and en: "fmlookup (deviceCodes (exec e s)) dc = Some en"
  shows "flow_from (Did e # tr) en"
proof (cases "device_event e")
  case False
  with old en show ?thesis by (auto simp: device_exec intro: flow_from_Cons)
next
  case True
  then show ?thesis
  proof (cases e)
    case (EStoreDeviceAuthorization cid dc' uc expires scopes)
    then show ?thesis
      using old en
      by (cases rule: StoreDeviceAuthorization_cases [of cid dc' uc expires scopes s])
        (fastforce simp: flow_from_def split: if_splits)+
  next
    case (ECompleteDeviceAuthorization now uc subject)
    show ?thesis
    proof (cases rule: CompleteDeviceAuthorization_cases [of now uc subject s])
      case unchanged
      with ECompleteDeviceAuthorization old en show ?thesis
        by (auto intro: flow_from_Cons)
    next
      case (completed e0)
      have "de_userCode e0 = uc"
        using completed(2) device_inv_index [OF inv, of uc e0] device_inv_user [OF inv] by force
      with ECompleteDeviceAuthorization completed old en show ?thesis
        by (fastforce simp: flow_from_def approve_def split: if_splits)
    qed
  next
    case (EDenyDeviceAuthorization uc)
    then show ?thesis
      using old en
      by (cases rule: DenyDeviceAuthorization_cases [of uc s])
        (fastforce simp: flow_from_def split: if_splits)+
  qed simp_all
qed

lemma flows_from_step:
  assumes inv: "flows_from tr s"
    and codes: "\<And>dc e. fmlookup (deviceCodes s') dc = Some e \<Longrightarrow> flow_from (x # tr) e"
    and new: "\<And>st. x = Polled st \<Longrightarrow> \<exists>dc e. de_state e = st \<and> fmlookup (deviceCodes s') dc = Some e"
  shows "flows_from (x # tr) s'"
proof -
  have "\<exists>e. de_state e = st \<and> flow_from (x # tr) e" if "Polled st \<in> set (x # tr)" for st
  proof (cases "x = Polled st")
    case True
    from new [OF True] codes show ?thesis by blast
  next
    case False
    with that inv obtain e where "de_state e = st" "flow_from tr e" by (auto simp: flows_from_def)
    then show ?thesis using flow_from_Cons by blast
  qed
  with codes show ?thesis by (simp add: flows_from_def)
qed

lemma flows_from_see:
  assumes "flows_from tr s"
    and "\<And>st. x = Polled st \<Longrightarrow> \<exists>dc e. de_state e = st \<and> fmlookup (deviceCodes s) dc = Some e"
  shows "flows_from (x # tr) s"
proof (rule flows_from_step [OF assms(1) _ assms(2)])
  show "flow_from (x # tr) e" if "fmlookup (deviceCodes s) dc = Some e" for dc e
    using assms(1) that by (auto simp: flows_from_def intro: flow_from_Cons)
qed

subsection \<open>Tokens\<close>

text \<open>A login of the user at a client of the audience stands behind the scopes.\<close>

definition backed :: "history \<Rightarrow> string \<Rightarrow> string \<Rightarrow> string list \<Rightarrow> string set \<Rightarrow> bool" where
  "backed tr app user aud scopes \<longleftrightarrow>
     (\<exists>client. granted tr client user scopes \<and> client \<in> set aud \<and> (app = client \<or> app = []))"

lemma backed_mono:
  "backed tr app user aud G \<Longrightarrow> set tr \<subseteq> set tr' \<Longrightarrow> G' \<subseteq> G \<Longrightarrow> backed tr' app user aud G'"
  unfolding backed_def using granted_mono by blast

lemma backed_Cons: "backed tr app user aud G \<Longrightarrow> backed (x # tr) app user aud G"
  by (erule backed_mono) auto

definition token_from :: "history \<Rightarrow> token \<Rightarrow> bool" where
  "token_from tr t \<longleftrightarrow>
     backed tr (tk_applicationID t) (tk_subject t) (tk_audience t) (set (tk_scopes t))"

text \<open>For a refresh token, also the scopes it was seen with are within the login's.\<close>

definition object_from :: "history \<Rightarrow> refreshToken \<Rightarrow> addr \<Rightarrow> bool" where
  "object_from tr rt p \<longleftrightarrow>
     (\<exists>G. backed tr (rt_applicationID rt) (rt_userID rt) (rt_audience rt) G \<and> set (rt_scopes rt) \<subseteq> G
        \<and> (\<forall>sc. Refreshed p sc \<in> set tr \<longrightarrow> set sc \<subseteq> G))"

lemma object_from_backed:
  "object_from tr rt p \<Longrightarrow>
     backed tr (rt_applicationID rt) (rt_userID rt) (rt_audience rt) (set (rt_scopes rt))"
  unfolding object_from_def using backed_mono by blast

lemma object_from_Cons:
  assumes "object_from tr rt p" "\<And>sc. x = Refreshed p sc \<Longrightarrow> set sc \<subseteq> set (rt_scopes rt)"
  shows "object_from (x # tr) rt p"
proof -
  obtain G where G: "backed tr (rt_applicationID rt) (rt_userID rt) (rt_audience rt) G"
    "set (rt_scopes rt) \<subseteq> G" "\<forall>sc. Refreshed p sc \<in> set tr \<longrightarrow> set sc \<subseteq> G"
    using assms(1) by (auto simp: object_from_def)
  have "set sc \<subseteq> G" if "Refreshed p sc \<in> set (x # tr)" for sc
    using that G(2,3) assms(2) by (metis set_ConsD subset_trans)
  with G(2) backed_Cons [OF G(1)] show ?thesis unfolding object_from_def by blast
qed

definition tokens_from :: "history \<Rightarrow> storage \<Rightarrow> bool" where
  "tokens_from tr s \<longleftrightarrow>
     (\<forall>k t. fmlookup (tokens s) k = Some t \<longrightarrow> token_from tr t)
     \<and> (\<forall>p < rtNext s. object_from tr (deref s p) p)
     \<and> (\<forall>p sc. Refreshed p sc \<in> set tr \<longrightarrow> p < rtNext s)"

lemma may_issue_backed:
  assumes "may_issue tr req" "requests_from tr x" "flows_from tr s" "tokens_from tr s"
  shows "backed tr (fst (infoFromRequest s req)) (reqGetSubject s req) (reqGetAudience s req)
     (set (reqGetScopes s req))"
proof (cases req)
  case (AuthReq a)
  then have "\<exists>rid. req_from tr rid a \<and> ar_done a"
    using assms(1,2) by (fastforce simp: requests_from_def Done_def)
  then obtain rid where "req_from tr rid a" "ar_done a" by blast
  from req_from_granted [OF this] AuthReq show ?thesis by (auto simp: backed_def GetAudience_def)
next
  case (RefreshReq p)
  with assms(1,4) have "object_from tr (deref s p) p" by (auto simp: tokens_from_def)
  from object_from_backed [OF this] RefreshReq show ?thesis by simp
next
  case (OtherReq r)
  then obtain st e where st: "ds_Done st" "otr_Subject r = ds_Subject st" "otr_Scopes r = ds_Scopes st"
    "ds_ClientID st \<in> set (otr_Audience r)" "de_state e = st" "flow_from tr e"
    using assms(1,3) by (auto simp: flows_from_def)
  with flow_from_granted [OF st(6)] OtherReq show ?thesis by (auto simp: backed_def)
qed

lemma token_from_issued:
  "backed tr (fst (infoFromRequest s req)) (reqGetSubject s req) (reqGetAudience s req)
     (set (reqGetScopes s req)) \<Longrightarrow> token_from tr (issuedToken rid tid now req s)"
  by (simp add: token_from_def issuedToken_def)

lemma object_from_issued:
  "backed tr (fst (infoFromRequest s req)) (reqGetSubject s req) (reqGetAudience s req)
     (set (reqGetScopes s req)) \<Longrightarrow> (\<And>sc. Refreshed p sc \<notin> set tr) \<Longrightarrow>
     object_from tr (issuedRefresh rid tid now req s) p"
  by (auto simp: object_from_def issuedRefresh_def)

lemma object_from_rotated:
  "object_from tr (rotatedRefresh rid tid now rt) p = object_from tr rt p"
  by (simp add: object_from_def rotatedRefresh_def)

text \<open>Issuing and rotating, in every branch.\<close>

lemma tokens_from_create:
  assumes inv: "tokens_from tr s" "token_inv U s"
    and b: "backed tr (fst (infoFromRequest s req)) (reqGetSubject s req) (reqGetAudience s req)
      (set (reqGetScopes s req))"
  shows "tokens_from tr (snd (CreateAccessAndRefreshTokens rid tid now1 now2 now3 req cur s))"
proof (cases "cur = []")
  case True
  have "Refreshed (rtNext s) sc \<notin> set tr" for sc using inv(1) by (auto simp: tokens_from_def)
  note new = token_from_issued [OF b] object_from_issued [OF b this]
  show ?thesis
    unfolding CreateAccessAndRefreshTokens_issue [OF True] issueTokens_state snd_conv
    using inv(1) new by (auto simp: tokens_from_def less_Suc_eq)
next
  case False
  have obj: "object_from tr (deref s p) p" if "fmlookup (refreshers s) k = Some p" for k p
    using token_inv_refresh(6) [OF inv(2) that] inv(1) by (simp add: tokens_from_def)
  show ?thesis
    unfolding CreateAccessAndRefreshTokens_rotate [OF False] rotateTokens_eq
    using inv(1) token_from_issued [OF b] obj
    by (auto simp: tokens_from_def object_from_rotated split: option.splits if_splits)
qed

lemma tokens_from_shrink:
  assumes "tokens_from tr s" "\<And>k t. fmlookup (tokens s') k = Some t \<Longrightarrow> fmlookup (tokens s) k = Some t"
    and "rtHeap s' = rtHeap s" "rtNext s' = rtNext s"
  shows "tokens_from tr s'"
proof -
  have "deref s' = deref s" using assms(3) by (simp add: deref_def fun_eq_iff)
  with assms show ?thesis unfolding tokens_from_def by metis
qed

lemma tokens_from_exec:
  assumes inv: "tokens_from tr s" "token_inv U s" and may: "op_may tr e"
    and other: "requests_from tr x" "flows_from tr s"
  shows "tokens_from tr (exec e s)"
proof (cases "token_event e")
  case False
  then show ?thesis using inv(1) by (intro tokens_from_shrink [OF inv(1)]) (simp_all add: tokens_exec)
next
  case True
  then show ?thesis
  proof (cases e)
    case (ECreateAccessToken uid now req)
    have "backed tr (case req of AuthReq a \<Rightarrow> ar_applicationID a | _ \<Rightarrow> []) (reqGetSubject s req)
        (reqGetAudience s req) (set (reqGetScopes s req))"
      using may_issue_backed [of tr req x s] may other inv(1) ECreateAccessToken
      by (cases req) (auto simp: backed_def)
    then show ?thesis
      using inv(1) ECreateAccessToken
      by (auto simp: tokens_from_def CreateAccessToken_def accessToken_def token_from_def deref_def Let_def
          split: if_splits)
  next
    case (ECreateAccessAndRefreshTokens rid tid now1 now2 now3 req cur)
    with may have "may_issue tr req" by simp
    from tokens_from_create [OF inv may_issue_backed [OF this other inv(1)]]
    show ?thesis unfolding ECreateAccessAndRefreshTokens exec.simps .
  next
    case (ESetCurrentScopes p scopes)
    with may obtain sc where sc: "Refreshed p sc \<in> set tr" "set scopes \<subseteq> set sc" by auto
    have "object_from tr (deref (SetCurrentScopes p scopes s) q) q" if "q < rtNext s" for q
    proof -
      have "object_from tr (deref s q) q" using inv(1) that by (simp add: tokens_from_def)
      then obtain G where G: "backed tr (rt_applicationID (deref s q)) (rt_userID (deref s q))
          (rt_audience (deref s q)) G" "set (rt_scopes (deref s q)) \<subseteq> G"
          "\<forall>sc. Refreshed q sc \<in> set tr \<longrightarrow> set sc \<subseteq> G"
        by (auto simp: object_from_def)
      have "set (rt_scopes (deref (SetCurrentScopes p scopes s) q)) \<subseteq> G"
        using sc G(2,3) by (auto simp: deref_SetCurrentScopes)
      with G(1,3) show ?thesis
        unfolding object_from_def by (intro exI [of _ G]) (auto simp: deref_SetCurrentScopes)
    qed
    with inv(1) ESetCurrentScopes show ?thesis by (auto simp: tokens_from_def)
  next
    case (ETerminateSession u c)
    then show ?thesis
      by (intro tokens_from_shrink [OF inv(1)])
        (auto simp: lookup_TerminateSession split: option.splits if_splits)
  next
    case (ERevokeToken tok c)
    then show ?thesis
      by (intro tokens_from_shrink [OF inv(1)])
        (auto simp: RevokeToken_def Let_def split: option.splits if_splits)
  qed simp_all
qed

lemma tokens_from_Cons:
  assumes inv: "tokens_from tr s"
    and new: "\<And>p sc. x = Refreshed p sc \<Longrightarrow> p < rtNext s \<and> sc = rt_scopes (deref s p)"
  shows "tokens_from (x # tr) s"
proof -
  have "object_from (x # tr) (deref s p) p" if "p < rtNext s" for p
    using inv that new by (intro object_from_Cons) (auto simp: tokens_from_def)
  moreover have "p < rtNext s" if "Refreshed p sc \<in> set (x # tr)" for p sc
    using that inv new by (metis set_ConsD tokens_from_def)
  ultimately show ?thesis
    using inv backed_Cons unfolding tokens_from_def token_from_def by blast
qed

subsection \<open>The invariant of the run\<close>

definition all_from :: "history \<Rightarrow> string set \<times> storage \<Rightarrow> bool" where
  "all_from tr x \<longleftrightarrow> requests_from tr x \<and> flows_from tr (snd x) \<and> tokens_from tr (snd x)"

lemma all_from_see:
  assumes "all_from tr (U, s)" "seen_ok tr U s x"
    and "\<And>st. x = Polled st \<Longrightarrow> \<exists>dc e. de_state e = st \<and> fmlookup (deviceCodes s) dc = Some e"
    and "\<And>p sc. x = Refreshed p sc \<Longrightarrow> p < rtNext s \<and> sc = rt_scopes (deref s p)"
  shows "all_from (x # tr) (U, s)"
  using assms requests_from_see flows_from_see tokens_from_Cons unfolding all_from_def by simp

text \<open>What is shown is justified by the history that led there.\<close>

lemma all_from_shown:
  assumes run: "op_run tr (U, s)" and all: "all_from tr (U, s)" and "shown tr s x"
  shows "all_from (x # tr) (U, s)"
  using assms(3)
proof (cases rule: shown.cases)
  case (look rid a)
  then have a: "fmlookup (authRequests s) rid = Some a" by (simp add: AuthRequestByID_Inr)
  have "auth_inv U s" using reachable_invs(2) [OF op_run_reachable [OF run]] .
  from auth_invD [OF this a] have "ar_done a \<Longrightarrow> code_ok U s rid" using a by (simp add: code_ok_def)
  moreover have "req_from tr rid a" using all a by (simp add: all_from_def requests_from_def)
  ultimately show ?thesis unfolding look(1) by (intro all_from_see all) simp_all
next
  case (code c rid)
  with all have "code_ok U s rid" unfolding all_from_def requests_from_def by auto
  then show ?thesis unfolding code(1) by (intro all_from_see all) simp_all
next
  case (exchange rid a)
  then have a: "fmlookup (authRequests s) rid = Some a" by (simp add: AuthRequestByID_Inr)
  have "code_ok U s rid" "req_from tr rid a"
    using exchange all a unfolding all_from_def requests_from_def by auto
  then have "ar_done a \<and> (\<exists>rid. req_from tr rid a)" using a by (auto simp: code_ok_def)
  then show ?thesis unfolding exchange(1) by (intro all_from_see all) simp_all
next
  case (refresh r p)
  then have "fmlookup (refreshers s) r = Some p"
    by (simp add: TokenRequestByRefreshToken_def split: option.splits)
  then have "p < rtNext s"
    using token_inv_refresh(6) [OF reachable_token_inv [OF op_run_reachable [OF run]]] by blast
  then show ?thesis unfolding refresh(1) by (intro all_from_see all) simp_all
next
  case (poll cid dc st)
  then obtain e where "fmlookup (deviceCodes s) dc = Some e" "de_state e = st"
    by (auto simp: GetDeviceAuthorizatonState_def split: option.splits if_splits)
  then show ?thesis unfolding poll(1) by (intro all_from_see all) auto
qed

lemma op_run_from:
  assumes "op_run tr x"
  shows "all_from tr x"
  using assms
proof (induction rule: op_run.induct)
  case (start x)
  then show ?case
    by (auto elim!: sys_init.cases simp: NewStorage_def all_from_def requests_from_def flows_from_def tokens_from_def
        split: sum.splits)
next
  case (see tr U s x)
  then show ?case using all_from_shown by blast
next
  case (act tr U s e)
  have inv: "token_inv U s" "device_inv U s"
    using op_run_reachable [OF act(1)] reachable_token_inv reachable_invs(3) by blast+
  have IH: "requests_from tr (U, s)" "flows_from tr s" "tokens_from tr s" using act.IH by (simp_all add: all_from_def)
  have "flows_from (Did e # tr) (exec e s)"
  proof (rule flows_from_step [OF IH(2)])
    show "flow_from (Did e # tr) en" if "fmlookup (deviceCodes (exec e s)) dc = Some en" for dc en
      by (rule flow_from_exec [OF _ inv(2) that]) (use IH(2) in \<open>auto simp: flows_from_def\<close>)
  qed simp
  moreover have "tokens_from (Did e # tr) (exec e s)"
    using tokens_from_exec [OF IH(3) inv(1) act(5) IH(1,2)] by (rule tokens_from_Cons) simp_all
  ultimately show ?case using requests_from_act [OF IH(1) act(3) act(5)] by (simp add: all_from_def)
qed

lemma code_from:
  assumes "op_run tr (U, s)" "AuthRequestByCode code s s = Inr a"
  shows "ar_done a" "granted tr (ar_applicationID a) (ar_userID a) (set (ar_scopes a))"
proof -
  obtain rid where rid: "fmlookup (codes s) code = Some rid" "fmlookup (authRequests s) rid = Some a"
    using assms(2) by (auto simp: AuthRequestByCode_Inr)
  with op_run_from [OF assms(1)] have "code_ok U s rid" and f: "req_from tr rid a"
    unfolding all_from_def requests_from_def by auto
  with rid show "ar_done a" by (simp add: code_ok_def)
  with req_from_granted [OF f] show "granted tr (ar_applicationID a) (ar_userID a) (set (ar_scopes a))"
    by blast
qed

text \<open>What stands behind a stored access token and behind a refresh token that is accepted.\<close>

lemma token_granted:
  assumes "op_run tr (U, s)" "fmlookup (tokens s) tid = Some t"
  obtains client where "client \<in> set (tk_audience t)" "tk_applicationID t \<in> {client, []}"
    "granted tr client (tk_subject t) (set (tk_scopes t))"
proof -
  have "token_from tr t" using op_run_from [OF assms(1)] assms(2) by (auto simp: all_from_def tokens_from_def)
  then show thesis using that by (auto simp: token_from_def backed_def)
qed

lemma refresh_granted:
  assumes "op_run tr (U, s)" "TokenRequestByRefreshToken r s = Inr req"
  obtains client where "client \<in> set (reqGetAudience s req)" "fst (infoFromRequest s req) \<in> {client, []}"
    "granted tr client (reqGetSubject s req) (set (reqGetScopes s req))"
proof -
  obtain p where p: "fmlookup (refreshers s) r = Some p" "req = RefreshReq p"
    using assms(2) by (auto simp: TokenRequestByRefreshToken_def split: option.splits)
  from token_inv_refresh(6) [OF reachable_token_inv [OF op_run_reachable [OF assms(1)]] p(1)]
  have "object_from tr (deref s p) p"
    using op_run_from [OF assms(1)] by (simp add: all_from_def tokens_from_def)
  from object_from_backed [OF this] p(2) that show thesis by (auto simp: backed_def)
qed

subsection \<open>An example\<close>

text \<open>Alice logs in to the seeded client, which exchanges its code.\<close>

abbreviation example_ar :: oidcAuthRequest where
  "example_ar \<equiv> example_wire exampleClientID [] []"

definition logged_in :: storage where
  "logged_in = exec (ECompleteAuthRequest 5 ''q1'' ''alice'') asked"

definition logged_request :: authRequest where
  "logged_request = (authRequestFromOIDC example_ar [])
     \<lparr>ar_id := ''q1'', ar_userID := ''alice'', ar_authTime := 5, ar_done := True\<rparr>"

definition with_code :: storage where
  "with_code = exec (ESaveAuthCode ''q1'' ''c1'') logged_in"

abbreviation example_issue :: event where
  "example_issue \<equiv> ECreateAccessAndRefreshTokens ''r1'' ''a1'' 6 6 6 (AuthReq logged_request) []"

definition example_history :: history where
  "example_history =
     [Did example_issue, Exchanged logged_request, Coded ''q1'', Did (ESaveAuthCode ''q1'' ''c1''),
      Looked ''q1'' logged_request, Did (ECompleteAuthRequest 5 ''q1'' ''alice''),
      Did (ECreateAuthRequest ''q1'' example_ar [])]"

lemma logged_in_simps:
  "authRequests logged_in = fmupd ''q1'' logged_request fmempty" "codes logged_in = fmempty"
  "authRequests with_code = fmupd ''q1'' logged_request fmempty"
  "codes with_code = fmupd ''c1'' ''q1'' fmempty"
proof -
  have "known ''alice''" by (subst known_iff) simp
  then show "authRequests logged_in = fmupd ''q1'' logged_request fmempty" "codes logged_in = fmempty"
    by (auto simp: logged_in_def asked_simps CompleteAuthRequest_def logged_request_def)
  then show "authRequests with_code = fmupd ''q1'' logged_request fmempty"
    "codes with_code = fmupd ''c1'' ''q1'' fmempty"
    by (simp_all add: with_code_def SaveAuthCode_def)
qed

lemma example_run:
  "op_run example_history ({[], ''kid''} \<union> {''q1''} \<union> {''r1'', ''a1''}, exec example_issue with_code)"
proof -
  have r0: "op_run [] ({[], ''kid''}, boot_storage)"
    by (intro op_run.start sys_init.boot, rule NewStorage_boot)
  have r1: "op_run [Did (ECreateAuthRequest ''q1'' example_ar [])] ({[], ''kid''} \<union> {''q1''}, asked)"
    using op_run.act [OF r0, of "ECreateAuthRequest ''q1'' example_ar []"] by (simp add: asked_def)
  have r2: "op_run [Did (ECompleteAuthRequest 5 ''q1'' ''alice''),
      Did (ECreateAuthRequest ''q1'' example_ar [])] ({[], ''kid''} \<union> {''q1''}, logged_in)"
    using op_run.act [OF r1, of "ECompleteAuthRequest 5 ''q1'' ''alice''"] by (simp add: logged_in_def)
  have r3: "op_run [Looked ''q1'' logged_request, Did (ECompleteAuthRequest 5 ''q1'' ''alice''),
      Did (ECreateAuthRequest ''q1'' example_ar [])] ({[], ''kid''} \<union> {''q1''}, logged_in)"
    by (rule op_run.see [OF r2], rule shown.look) (simp add: AuthRequestByID_def logged_in_simps)
  have r4: "op_run [Did (ESaveAuthCode ''q1'' ''c1''), Looked ''q1'' logged_request,
      Did (ECompleteAuthRequest 5 ''q1'' ''alice''), Did (ECreateAuthRequest ''q1'' example_ar [])]
      ({[], ''kid''} \<union> {''q1''}, with_code)"
    using op_run.act [OF r3, of "ESaveAuthCode ''q1'' ''c1''"]
    by (simp add: with_code_def Done_def logged_request_def)
  have "shown h with_code (Coded ''q1'')" for h
    by (rule shown.code [of _ "''c1''"]) (simp add: logged_in_simps)
  from op_run.see [OF r4 this]
  have r5: "op_run [Coded ''q1'', Did (ESaveAuthCode ''q1'' ''c1''), Looked ''q1'' logged_request,
      Did (ECompleteAuthRequest 5 ''q1'' ''alice''), Did (ECreateAuthRequest ''q1'' example_ar [])]
      ({[], ''kid''} \<union> {''q1''}, with_code)" .
  have "shown (Coded ''q1'' # h) with_code (Exchanged logged_request)" for h
    by (rule shown.exchange [of "''q1''"]) (simp_all add: AuthRequestByID_def logged_in_simps)
  from op_run.see [OF r5 this]
  have r6: "op_run [Exchanged logged_request, Coded ''q1'', Did (ESaveAuthCode ''q1'' ''c1''),
      Looked ''q1'' logged_request, Did (ECompleteAuthRequest 5 ''q1'' ''alice''),
      Did (ECreateAuthRequest ''q1'' example_ar [])] ({[], ''kid''} \<union> {''q1''}, with_code)" .
  from op_run.act [OF r6, of example_issue] show ?thesis
    by (simp add: example_history_def del: exec.simps)
qed

subsection \<open>Properties\<close>

text \<open>
  C2. No token without a login. In every run in which the OP issues only for what the storage showed
  it, each stored access token and each refresh token stands for a login in the history: a client of
  its audience opened an auth request or a device flow for at least its scopes, and that request or
  that user code was completed as the token's subject, a built-in identity; and a code leads to a
  request only after that. Refreshing, narrowing and rotating, in any order, never widen this.
\<close>

theorem no_token_without_login:
  assumes "op_run tr (U, s)"
  shows "(case fmlookup (tokens s) tid of
        None \<Rightarrow> True
      | Some t \<Rightarrow> \<exists>client. client \<in> set (tk_audience t) \<and> tk_applicationID t \<in> {client, []}
          \<and> granted tr client (tk_subject t) (set (tk_scopes t)))
    \<and> (case TokenRequestByRefreshToken r s of
        Inl err \<Rightarrow> True
      | Inr req \<Rightarrow> \<exists>client. client \<in> set (reqGetAudience s req) \<and> fst (infoFromRequest s req) \<in> {client, []}
          \<and> granted tr client (reqGetSubject s req) (set (reqGetScopes s req)))
    \<and> (case AuthRequestByCode code s s of
        Inl err \<Rightarrow> True
      | Inr a \<Rightarrow> Done a \<and> granted tr (GetClientID a) (GetSubject a) (set (GetScopes a)))"
proof (intro conjI)
  show "case fmlookup (tokens s) tid of None \<Rightarrow> True
      | Some t \<Rightarrow> \<exists>client. client \<in> set (tk_audience t) \<and> tk_applicationID t \<in> {client, []}
          \<and> granted tr client (tk_subject t) (set (tk_scopes t))"
  proof (cases "fmlookup (tokens s) tid")
    case (Some t)
    from token_granted [OF assms Some] show ?thesis unfolding Some option.case by blast
  qed simp
  show "case TokenRequestByRefreshToken r s of Inl err \<Rightarrow> True
      | Inr req \<Rightarrow> \<exists>client. client \<in> set (reqGetAudience s req) \<and> fst (infoFromRequest s req) \<in> {client, []}
          \<and> granted tr client (reqGetSubject s req) (set (reqGetScopes s req))"
  proof (cases "TokenRequestByRefreshToken r s")
    case (Inr req)
    from refresh_granted [OF assms Inr] show ?thesis unfolding Inr sum.case by blast
  qed simp
  show "case AuthRequestByCode code s s of Inl err \<Rightarrow> True
      | Inr a \<Rightarrow> Done a \<and> granted tr (GetClientID a) (GetSubject a) (set (GetScopes a))"
    using code_from [OF assms, of code]
    by (simp add: Done_def GetClientID_def GetSubject_def GetScopes_def split: sum.splits)
qed

theorem no_token_without_login_witness:
  "granted example_history exampleClientID ''alice'' {''openid''}"
proof -
  have "fmlookup (tokens (exec example_issue with_code)) ''a1''
      = Some (issuedToken ''r1'' ''a1'' 6 (AuthReq logged_request) with_code)"
    by (simp add: CreateAccessAndRefreshTokens_issue issueTokens_eq)
  with no_token_without_login [OF example_run, of "''a1''"] show ?thesis
    by (simp add: issuedToken_def GetAudience_def logged_request_def example_wire_def)
qed

end
