(* ===== verification/EndToEnd.thy ===== *)
theory EndToEnd
  imports Program Provenance
begin

text \<open>
  The running program with the requests it served to its login page. The requests to the OP are not
  steps here but their single moves, so that any number of them interleave with each other, with
  logins and with the watcher. The launchpad's handlers change nothing.
\<close>

subsection \<open>What a request to the login page does\<close>

text \<open>The events of one request, which are one at most.\<close>

definition login_events :: "time \<Rightarrow> request \<Rightarrow> event list" where
  "login_events now r =
     (case ParseForm r of
        (form, Some err) \<Rightarrow> []
      | (form, None) \<Rightarrow>
          let userCode = Get form queryUserCode; rid = Get form queryAuthRequestID;
              identity = Get form queryIdentity
          in if identity = [] then []
             else if userCode \<noteq> [] then [ECompleteDeviceAuthorization now userCode identity]
             else if rid = [] then []
             else [ECompleteAuthRequest now rid identity])"

lemma serve_login_events: "snd (serve callback now r w s) = foldr exec (login_events now r) s"
  by (auto simp: serve_def serveDeviceApproval_def login_events_def Let_def
      split: prod.splits option.splits)

lemma login_events_props:
  "e \<in> set (login_events now r) \<Longrightarrow> drawn e = [] \<and> pointers_ok e s \<and> op_may tr e"
  by (auto simp: login_events_def Let_def split: prod.splits option.splits if_splits)

lemma login_events_cases:
  assumes "e \<in> set (login_events now r)"
  obtains (request) rid identity where "e = ECompleteAuthRequest now rid identity"
      "snd (ParseForm r) = None" "Get (fst (ParseForm r)) queryUserCode = []"
      "Get (fst (ParseForm r)) queryAuthRequestID = rid" "Get (fst (ParseForm r)) queryIdentity = identity"
  | (flow) uc identity where "e = ECompleteDeviceAuthorization now uc identity"
      "snd (ParseForm r) = None" "Get (fst (ParseForm r)) queryUserCode = uc" "uc \<noteq> []"
      "Get (fst (ParseForm r)) queryIdentity = identity"
proof (cases "ParseForm r")
  case (Pair form err)
  with assms that show ?thesis
    by (cases err) (simp_all add: login_events_def Let_def split: if_splits)
qed

text \<open>Every handler of the table does nothing to the storage, or is the login page's or the OP's.\<close>

lemma handlers_storage:
  assumes "(pat, h) \<in> set (handlers assets p)"
  shows "snd (h now r w s) \<in> {s, snd (newLoginHandler p now r w s), snd (pv_handler p now r w s)}"
  using assms by (auto simp: handlers_def rootWithFallback_def)

subsection \<open>The program and its history\<close>

text \<open>
  The methods of \<open>op.Storage\<close> and \<open>op.DeviceAuthorizationStorage\<close>: the OP neither registers clients
  nor completes a login, which only the login page does.
\<close>

fun lib_event :: "event \<Rightarrow> bool" where
  "lib_event (ECompleteAuthRequest now rid subject) = False"
| "lib_event (ECompleteDeviceAuthorization now uc subject) = False"
| "lib_event e = op_event e"

inductive op_move ::
    "history \<times> string set \<times> storage \<Rightarrow> history \<times> string set \<times> storage \<Rightarrow> bool" where
  see: "shown tr s x \<Longrightarrow> op_move (tr, U, s) (x # tr, U, s)"
| act: "lib_event e \<Longrightarrow> op_may tr e \<Longrightarrow> distinct (drawn e) \<Longrightarrow> set (drawn e) \<inter> U = {} \<Longrightarrow> pointers_ok e s \<Longrightarrow>
     op_move (tr, U, s) (Did e # tr, U \<union> set (drawn e), exec e s)"

text \<open>
  The states, with the requests the login page has served, the latest first, and the history. The
  start-up may have loaded a clients file, which is then the first entry.
\<close>

inductive program_history ::
    "unmarshal \<Rightarrow> string \<Rightarrow> (request \<Rightarrow> response \<Rightarrow> response) \<Rightarrow> provider
       \<Rightarrow> request list \<Rightarrow> history \<Rightarrow> string set \<times> watcher \<Rightarrow> bool"
  for unmarshal path assets p where
  start: "program_init unmarshal path (handlers assets p) (U, w) \<Longrightarrow> sys_init (U, s) \<Longrightarrow>
     tr = [] \<and> w_storage w = s
       \<or> tr = [Did (EReplaceFileClients cs)] \<and> w_storage w = ReplaceFileClients cs s \<Longrightarrow>
     program_history unmarshal path assets p [] tr (U, w)"
| login: "program_history unmarshal path assets p rs tr (U, w) \<Longrightarrow>
     program_history unmarshal path assets p (r # rs) (map Did (login_events now r) @ tr)
       (U, w\<lparr>w_storage := snd (newLoginHandler p now r wr (w_storage w))\<rparr>)"
| op: "program_history unmarshal path assets p rs tr (U, w) \<Longrightarrow>
     op_move (tr, U, w_storage w) (tr', U', s') \<Longrightarrow>
     program_history unmarshal path assets p rs tr' (U', w\<lparr>w_storage := s'\<rparr>)"
| watch: "program_history unmarshal path assets p rs tr (U, w) \<Longrightarrow>
     watch_step unmarshal path True w w' \<Longrightarrow>
     if w_storage w' = w_storage w then tr' = tr
     else \<exists>cs. w_storage w' = ReplaceFileClients cs (w_storage w) \<and> tr' = Did (EReplaceFileClients cs) # tr \<Longrightarrow>
     program_history unmarshal path assets p rs tr' (U, w')"
| signal: "program_history unmarshal path assets p rs tr (U, w) \<Longrightarrow>
     program_history unmarshal path assets p rs tr (U, w\<lparr>w_cancelled := True\<rparr>)"

text \<open>No start and no step of the watcher is left out.\<close>

lemma init_has_history:
  assumes "program_init unmarshal path (handlers assets p) (U, w)"
  shows "\<exists>tr. program_history unmarshal path assets p [] tr (U, w)"
  using assms
proof (cases rule: program_init.cases)
  case (main sha ns nd fileServer ui k kid newServer getenv cli fs0 fs1 fs2 x)
  show ?thesis
  proof (rule idp_main_cases [OF main(2)])
    fix cfg hs s
    assume new: "New sha ns nd fileServer ui (Inr k) kid cfg = Inr (hs, s)"
      and st: "if clientsFlag getenv cli = [] \<or> fs0 (clientsFlag getenv cli) = None
        then run_storage x = s \<and> \<not> run_watching x
        else \<exists>cs. LoadClientsFile unmarshal (clientsFlag getenv cli) fs1 = Inr cs
          \<and> run_storage x = ReplaceFileClients cs s \<and> run_watching x"
    have "sys_init (U, s)" using New_Inr(1) [OF new] main(1) by simp
    from program_history.start [OF assms this] st main(5) show ?thesis
      by (metis (full_types))
  qed
qed

lemma watch_has_history:
  assumes "watch_step unmarshal path onErr w w'"
  shows "\<exists>tr'. if w_storage w' = w_storage w then tr' = tr
    else \<exists>cs. w_storage w' = ReplaceFileClients cs (w_storage w) \<and> tr' = Did (EReplaceFileClients cs) # tr"
  using watch_step_storage [OF assms] by auto

subsection \<open>Its histories are the OP's\<close>

lemma op_run_quiet:
  assumes "op_run tr (U, s)" "drawn e = []" "pointers_ok e s" "op_may tr e"
  shows "op_run (Did e # tr) (U, exec e s)"
  using op_run.act [OF assms(1), of e] assms(2-4) by simp

lemma op_run_login:
  assumes "op_run tr (U, s)"
  shows "op_run (map Did (login_events now r) @ tr) (U, snd (serve callback now r w s))"
proof -
  have "login_events now r = [] \<or> (\<exists>e. login_events now r = [e])"
    by (auto simp: login_events_def Let_def split: prod.splits option.splits)
  then show ?thesis
    using assms op_run_quiet [OF assms] login_events_props [of _ now r s tr]
    by (auto simp: serve_login_events)
qed

lemma program_history_op_run:
  "program_history unmarshal path assets p rs tr (U, w) \<Longrightarrow> op_run tr (U, w_storage w)"
proof (induction rs tr "(U, w)" arbitrary: U w rule: program_history.induct)
  case (start U w s tr cs)
  have "op_run [Did (EReplaceFileClients cs)] (U, ReplaceFileClients cs s)"
    using op_run_quiet [OF op_run.start [OF start(2)], of "EReplaceFileClients cs"] by simp
  with start show ?case by (auto intro: op_run.start)
next
  case (login rs tr U w r now wr)
  then show ?case using op_run_login by (simp add: newLoginHandler_def)
next
  case (op rs tr U w tr' U' s')
  from op(3) show ?case
    using op(2) by (cases rule: op_move.cases) (auto intro: op_run.see op_run.act)
next
  case (watch rs tr U w w' tr')
  show ?case
  proof (cases "w_storage w' = w_storage w")
    case True
    with watch show ?thesis by simp
  next
    case False
    with watch(4) obtain cs where "w_storage w' = ReplaceFileClients cs (w_storage w)"
      "tr' = Did (EReplaceFileClients cs) # tr" by auto
    then show ?thesis using op_run_quiet [OF watch(2), of "EReplaceFileClients cs"] by simp
  qed
next
  case (signal rs tr U w)
  then show ?case by simp
qed

text \<open>A completed login in the history was asked for by a request to the login page.\<close>

definition asked_for :: "request list \<Rightarrow> event \<Rightarrow> bool" where
  "asked_for rs e \<longleftrightarrow> (\<exists>r now. r \<in> set rs \<and> e \<in> set (login_events now r))"

lemma program_history_asked:
  assumes "program_history unmarshal path assets p rs tr x" "Did e \<in> set tr" "\<not> op_event e \<or> \<not> lib_event e"
    "\<And>cs. e \<noteq> EReplaceFileClients cs"
  shows "asked_for rs e"
  using assms(1,2)
proof (induction rule: program_history.induct)
  case (start U w s tr cs)
  with assms(4) show ?case by auto
next
  case (login rs tr U w r now wr)
  then show ?case by (auto simp: asked_for_def)
next
  case (op rs tr U w tr' U' s')
  have "lib_event e' \<Longrightarrow> op_event e'" for e' by (cases e') simp_all
  with op(2) op.prems assms(3) have "Did e \<in> set tr"
    by (cases rule: op_move.cases) (auto elim: shown.cases)
  then show ?case by (rule op.IH)
next
  case (watch rs tr U w w' tr')
  with assms(4) have "Did e \<in> set tr" by (auto split: if_splits)
  then show ?case by (rule watch.IH)
next
  case (signal rs tr U w)
  then show ?case by blast
qed

subsection \<open>A login in the log of the login page\<close>

text \<open>
  The request asked for the login that grants the client these scopes: its form was read, its identity
  field names the subject, a built-in identity, and its other field names an auth request, or the user
  code of a device flow, that the client opened for at least these scopes.
\<close>

definition asked_login :: "history \<Rightarrow> request \<Rightarrow> string \<Rightarrow> string \<Rightarrow> string set \<Rightarrow> bool" where
  "asked_login tr r client subject scopes \<longleftrightarrow>
     snd (ParseForm r) = None \<and> known subject \<and> Get (fst (ParseForm r)) queryIdentity = subject
     \<and> (if Get (fst (ParseForm r)) queryUserCode = []
        then \<exists>ar u. Did (ECreateAuthRequest (Get (fst (ParseForm r)) queryAuthRequestID) ar u) \<in> set tr
          \<and> o_ClientID ar = client \<and> scopes \<subseteq> set (o_Scopes ar)
        else \<exists>dc expires sc.
          Did (EStoreDeviceAuthorization client dc (Get (fst (ParseForm r)) queryUserCode) expires sc) \<in> set tr
          \<and> scopes \<subseteq> set sc)"

lemma granted_asked_login:
  assumes hist: "program_history unmarshal path assets p rs tr x" and "granted tr client subject scopes"
  shows "\<exists>r \<in> set rs. asked_login tr r client subject scopes"
proof -
  consider (request) rid ar u now where "Did (ECreateAuthRequest rid ar u) \<in> set tr" "o_ClientID ar = client"
      "scopes \<subseteq> set (o_Scopes ar)" "Did (ECompleteAuthRequest now rid subject) \<in> set tr"
    | (flow) dc uc expires sc now where "Did (EStoreDeviceAuthorization client dc uc expires sc) \<in> set tr"
      "scopes \<subseteq> set sc" "Did (ECompleteDeviceAuthorization now uc subject) \<in> set tr"
    using assms(2) unfolding granted_def by blast
  then show ?thesis
  proof cases
    case request
    have "asked_for rs (ECompleteAuthRequest now rid subject)"
      using program_history_asked [OF hist request(4)] by simp
    then obtain r t where "r \<in> set rs" "ECompleteAuthRequest now rid subject \<in> set (login_events t r)"
      unfolding asked_for_def by blast
    from this(1) login_events_cases [OF this(2)] request assms(2) show ?thesis
      by (intro bexI [of _ r]) (auto simp: asked_login_def granted_def)
  next
    case flow
    have "asked_for rs (ECompleteDeviceAuthorization now uc subject)"
      using program_history_asked [OF hist flow(3)] by simp
    then obtain r t where "r \<in> set rs" "ECompleteDeviceAuthorization now uc subject \<in> set (login_events t r)"
      unfolding asked_for_def by blast
    from this(1) login_events_cases [OF this(2)] flow assms(2) show ?thesis
      by (intro bexI [of _ r]) (auto simp: asked_login_def granted_def)
  qed
qed

subsection \<open>An example\<close>

text \<open>
  The program is started without a clients file, the seeded client opens an auth request, and Alice
  follows her link of the login page.
\<close>

definition alone :: watcher where
  "alone = \<lparr>w_storage = boot_storage, w_last = 0, w_errors = [], w_running = False,
     w_cancelled = False\<rparr>"

abbreviation alone_history ::
    "request list \<Rightarrow> history \<Rightarrow> string set \<times> watcher \<Rightarrow> bool" where
  "alone_history \<equiv> program_history toy_yaml [] quiet_assets quiet_provider"

abbreviation alice_link :: request where
  "alice_link \<equiv> follow (pickerHref ''q1'' (Identities ! 0))"

lemma alone_starts: "alone_history [] [] ({[], ''kid''}, alone)"
proof (rule program_history.start)
  obtain x where x: "idp_main (New (\<lambda>m. m) quiet_op quiet_op (\<lambda>fsys r w. w) (\<lambda>name. None) (Inr boot_key) ''kid'')
      toy_yaml (\<lambda>g h. None) (\<lambda>k. []) (\<lambda>f. None) (\<lambda>path. None) (\<lambda>path. None) (\<lambda>path. None) = Serving x"
    "run_handlers x = handlers quiet_assets quiet_provider" "run_storage x = boot_storage" "\<not> run_watching x"
    by (simp add: idp_main_def New_def NewStorage_boot newProvider_def quiet_op_def flagValue_def env_def Let_def)
  show "program_init toy_yaml [] (handlers quiet_assets quiet_provider) ({[], ''kid''}, alone)"
    by (rule program_init.main [OF x(1)]) (simp_all add: x clientsFlag_def flagValue_def env_def alone_def)
  show "sys_init ({[], ''kid''}, boot_storage)" by (rule sys_init.boot) (rule NewStorage_boot)
qed (simp add: alone_def)

lemma alice_login: "login_events 5 alice_link = [ECompleteAuthRequest 5 ''q1'' ''alice'']"
proof -
  have i: "Identities ! 0 \<in> set Identities" and sub: "Subject (Identities ! 0) = ''alice''"
    by (simp_all add: Identities_def)
  have "list_all unreserved ''q1''" by code_simp
  from picker_link_form [OF i this]
  have "ParseForm alice_link = ([(''authRequestID'', ''q1''), (''identity'', ''alice'')], None)"
    by (simp only: sub)
  then show ?thesis
    by (simp add: login_events_def Get_def Let_def queryUserCode_def queryAuthRequestID_def queryIdentity_def)
qed

definition alone_with :: "storage \<Rightarrow> watcher" where
  "alone_with s = alone\<lparr>w_storage := s\<rparr>"

lemma alone_act:
  assumes "alone_history rs tr (U, alone_with s)" "lib_event e" "op_may tr e" "distinct (drawn e)"
    "set (drawn e) \<inter> U = {}" "pointers_ok e s"
  shows "alone_history rs (Did e # tr) (U \<union> set (drawn e), alone_with (exec e s))"
  using program_history.op [OF assms(1) op_move.act] assms(2-) by (simp add: alone_with_def)

lemma alone_see:
  assumes "alone_history rs tr (U, alone_with s)" "shown tr s x"
  shows "alone_history rs (x # tr) (U, alone_with s)"
  using program_history.op [OF assms(1) op_move.see] assms(2) by (simp add: alone_with_def)

lemma example_history_program:
  "\<exists>U. alone_history [alice_link] example_history (U, alone_with (exec example_issue with_code))"
proof -
  let ?h1 = "[Did (ECreateAuthRequest ''q1'' example_ar [])]"
  let ?h2 = "Did (ECompleteAuthRequest 5 ''q1'' ''alice'') # ?h1"
  let ?U = "{[], ''kid''} \<union> {''q1''}"
  have r0: "alone_history [] [] ({[], ''kid''}, alone_with boot_storage)"
    using alone_starts by (simp add: alone_with_def alone_def)
  have r1: "alone_history [] ?h1 (?U, alone_with asked)"
    using alone_act [OF r0, of "ECreateAuthRequest ''q1'' example_ar []"] by (simp add: asked_def)
  have s: "snd (newLoginHandler quiet_provider 5 alice_link wr asked) = logged_in" for wr
    by (simp add: newLoginHandler_def serve_login_events alice_login logged_in_def)
  from program_history.login [OF r1, of alice_link 5]
  have r2: "alone_history [alice_link] ?h2 (?U, alone_with logged_in)"
    by (simp add: alice_login s alone_with_def)
  have r3: "alone_history [alice_link] (Looked ''q1'' logged_request # ?h2) (?U, alone_with logged_in)"
    by (rule alone_see [OF r2], rule shown.look) (simp add: AuthRequestByID_def logged_in_simps)
  have r4: "alone_history [alice_link] (Did (ESaveAuthCode ''q1'' ''c1'') # Looked ''q1'' logged_request # ?h2)
      (?U, alone_with with_code)"
    using alone_act [OF r3, of "ESaveAuthCode ''q1'' ''c1''"]
    by (simp add: with_code_def Done_def logged_request_def)
  have "shown h with_code (Coded ''q1'')" for h
    by (rule shown.code [of _ "''c1''"]) (simp add: logged_in_simps)
  note r5 = alone_see [OF r4 this]
  have "shown (Coded ''q1'' # h) with_code (Exchanged logged_request)" for h
    by (rule shown.exchange [of "''q1''"]) (simp_all add: AuthRequestByID_def logged_in_simps)
  note r6 = alone_see [OF r5 this]
  have "alone_history [alice_link] example_history
      (?U \<union> set (drawn example_issue), alone_with (exec example_issue with_code))"
    unfolding example_history_def by (rule alone_act [OF r6]) (simp_all del: exec.simps)
  then show ?thesis by blast
qed

subsection \<open>Properties\<close>

text \<open>
  C4. No token without a request to the login page: in every state of the running program, whatever
  requests, reloads and moves of the OP came before, in any interleaving, each stored access token,
  each accepted refresh token and each code is owed to a request that the login page served. That
  request's own form named the token's subject, a built-in identity, and it named an auth request, or
  the user code of a device flow, that a client of the token's audience had opened for at least the
  token's scopes. A program whose login page served nothing has none of the three.
\<close>

theorem token_needs_login_request:
  assumes "program_history unmarshal path assets p rs tr (U, w)"
  shows "(case fmlookup (tokens (w_storage w)) tid of
        None \<Rightarrow> True
      | Some t \<Rightarrow> \<exists>r client. r \<in> set rs \<and> client \<in> set (tk_audience t)
          \<and> asked_login tr r client (tk_subject t) (set (tk_scopes t)))
    \<and> (case TokenRequestByRefreshToken rtok (w_storage w) of
        Inl err \<Rightarrow> True
      | Inr req \<Rightarrow> \<exists>r client. r \<in> set rs \<and> client \<in> set (reqGetAudience (w_storage w) req)
          \<and> asked_login tr r client (reqGetSubject (w_storage w) req) (set (reqGetScopes (w_storage w) req)))
    \<and> (case AuthRequestByCode code (w_storage w) (w_storage w) of
        Inl err \<Rightarrow> True
      | Inr a \<Rightarrow> \<exists>r. r \<in> set rs \<and> asked_login tr r (GetClientID a) (GetSubject a) (set (GetScopes a)))"
proof (intro conjI)
  note run = program_history_op_run [OF assms] and asked = granted_asked_login [OF assms]
  show "case fmlookup (tokens (w_storage w)) tid of
        None \<Rightarrow> True
      | Some t \<Rightarrow> \<exists>r client. r \<in> set rs \<and> client \<in> set (tk_audience t)
          \<and> asked_login tr r client (tk_subject t) (set (tk_scopes t))"
  proof (cases "fmlookup (tokens (w_storage w)) tid")
    case (Some t)
    from token_granted [OF run Some] obtain client where client: "client \<in> set (tk_audience t)"
      "granted tr client (tk_subject t) (set (tk_scopes t))" .
    from asked [OF client(2)] client(1) show ?thesis unfolding Some option.case by blast
  qed simp
  show "case TokenRequestByRefreshToken rtok (w_storage w) of
        Inl err \<Rightarrow> True
      | Inr req \<Rightarrow> \<exists>r client. r \<in> set rs \<and> client \<in> set (reqGetAudience (w_storage w) req)
          \<and> asked_login tr r client (reqGetSubject (w_storage w) req) (set (reqGetScopes (w_storage w) req))"
  proof (cases "TokenRequestByRefreshToken rtok (w_storage w)")
    case (Inr req)
    from refresh_granted [OF run Inr] obtain client where client: "client \<in> set (reqGetAudience (w_storage w) req)"
      "granted tr client (reqGetSubject (w_storage w) req) (set (reqGetScopes (w_storage w) req))" .
    from asked [OF client(2)] client(1) show ?thesis unfolding Inr sum.case by blast
  qed simp
  show "case AuthRequestByCode code (w_storage w) (w_storage w) of
        Inl err \<Rightarrow> True
      | Inr a \<Rightarrow> \<exists>r. r \<in> set rs \<and> asked_login tr r (GetClientID a) (GetSubject a) (set (GetScopes a))"
  proof (cases "AuthRequestByCode code (w_storage w) (w_storage w)")
    case (Inr a)
    from asked [OF code_from(2) [OF run Inr]] show ?thesis
      unfolding Inr sum.case GetClientID_def GetSubject_def GetScopes_def by blast
  qed simp
qed

theorem token_needs_login_request_witness:
  "asked_login example_history alice_link exampleClientID ''alice'' {''openid''}"
proof -
  obtain U where h: "alone_history [alice_link] example_history (U, alone_with (exec example_issue with_code))"
    using example_history_program by blast
  have "fmlookup (tokens (exec example_issue with_code)) ''a1''
      = Some (issuedToken ''r1'' ''a1'' 6 (AuthReq logged_request) with_code)"
    by (simp add: CreateAccessAndRefreshTokens_issue issueTokens_eq)
  with token_needs_login_request [OF h, of "''a1''"] show ?thesis
    by (simp add: alone_with_def alone_def issuedToken_def GetAudience_def logged_request_def example_wire_def)
qed

end
