(* ===== verification/Spec2Isabelle.thy ===== *)
theory Spec2Isabelle
  imports EndToEnd
begin

text \<open>
  A verification development for devedge-idp, a development-only OpenID provider written in Go.

  The program. \<open>cmd/idp\<close> builds the provider (\<open>internal/idp/idp.go\<close>), starts the watcher of the
  clients file (\<open>internal/idp/clientsfile.go\<close>) and serves. The OpenID library (the OP) owns the
  protocol endpoints and keeps all its state in the storage of \<open>internal/idp/storage.go\<close>; the login
  page (\<open>internal/idp/login.go\<close>) and the launchpad (\<open>internal/idp/launchpad.go\<close>) share that storage.
  \<open>cmd/devauthz\<close> is a second program that only wires a service of the SDK.

  The theories, in the order of the code's dependencies:

  \<^item> \<open>Prelude\<close>: times, errors as values, ranging over a map in an unspecified order, and two locales:
    \<open>step_invariant\<close> (what every step keeps) and \<open>step_monotone\<close> (what only moves one way).
  \<^item> \<open>Identities\<close> (\<open>identities.go\<close>): the built-in table; the locale \<open>approval\<close> of binding something
    pending to an identity.
  \<^item> \<open>Clients\<close> (\<open>clients.go\<close>) and \<open>AuthRequest\<close> (\<open>authrequest.go\<close>): the client and request records
    and their interface methods.
  \<^item> \<open>Storage\<close> (\<open>storage.go\<close>): the state as one record, its construction, the signing key, the
    registry. \<open>Registry\<close>: the locale \<open>client_registry\<close> and its interpretation by the storage.
  \<^item> \<open>AuthFlow\<close>, \<open>Tokens\<close>, \<open>Device\<close>, \<open>Claims\<close> (\<open>storage.go\<close>): auth requests and codes; access and
    refresh tokens; the device grant; userinfo and introspection. \<open>AuthFlow\<close> and \<open>Device\<close> interpret
    \<open>approval\<close>.
  \<^item> \<open>ClientsFile\<close> (\<open>clientsfile.go\<close>): validation, the loader, and the watcher's goroutine as a step
    relation.
  \<^item> \<open>TokenInv\<close>, \<open>Rotation\<close>: the invariant of the token store and that every token operation, in every
    branch, keeps it.
  \<^item> \<open>Machine\<close>, \<open>Runs\<close>: the storage as a state machine. An event is one call of a method that changes
    the storage; \<open>reachable\<close> is what \<open>NewStorage\<close> and events lead to; \<open>sys_inv\<close> holds there, and
    \<open>evolves\<close> says what can only change one way (\<open>step_monotone\<close> is interpreted on it).
  \<^item> \<open>Lifecycle\<close>, \<open>Guarantees\<close>: what follows for tokens, logins, device flows, the registry and the
    signing key, per call and along runs.
  \<^item> \<open>TokenSpec\<close>: the abstract token store, where a refresh token is a record in a map and no object
    is shared, and that the storage refines it. \<open>Lifetimes\<close>: runs under a clock that does not go back,
    and how long the tokens of such a run can live. \<open>Requests\<close>: what of an auth request cannot change.
  \<^item> \<open>Provenance\<close>: runs with their history in which the OP issues only for what the storage has shown it
    (\<open>may_issue\<close>, \<open>op_may\<close>), and that there every token stands for a login in the history.
  \<^item> \<open>Utf8\<close>, \<open>GoFmt\<close>, \<open>GoHttp\<close>, \<open>Json\<close>: what the handlers use of \<open>unicode/utf8\<close>, \<open>fmt\<close>, \<open>net/url\<close>, \<open>html\<close>,
    \<open>net/http\<close> and \<open>encoding/json\<close>. \<open>errorText\<close> is the text of every error the code makes.
  \<^item> \<open>Login\<close> (\<open>login.go\<close>), \<open>Launchpad\<close> (\<open>launchpad.go\<close>), \<open>Wiring\<close> (\<open>idp.go\<close> and the two programs).
  \<^item> \<open>Program\<close>: the running program, requests, the watcher's goroutine and the signal that cancels its
    context, interleaved on one storage. A request does what the table's handler does; only where the
    catch-all hands it to the OP (\<open>to_op\<close>) the effect is a run of the methods of \<open>op.Storage\<close>.
    \<open>step_invariant\<close> is interpreted on its step relation.
  \<^item> \<open>EndToEnd\<close>: the running program with the requests its login page served, where the moves of the OP
    interleave one by one with logins and reloads; \<open>program_history\<close> is a run of \<open>Provenance\<close>, and every
    token is owed to a request of the login page (\<open>token_needs_login_request\<close>).

  How the code is read. A Go string is its bytes; a map is a finite map; a loop over a map is a
  recursion over a list of its keys in any order (\<open>enumerates\<close>), and each such loop is shown not to
  depend on the order. A method holds the mutex throughout and is one step; a method that takes it
  twice takes two states. Fresh ids and clock readings are arguments. A step of the machine draws
  fresh ids, which is what \<open>uuid.NewString\<close> and the OP's device codes provide. Refresh tokens are
  shared between the map and the request objects the OP holds, so they live in a heap of addresses.
  An auth request the OP holds is passed as a value: an issuing event takes any value, which covers
  whatever the shared object holds by then.
  The time type is unbounded: Go's durations here are constants of at most a day. No model needs
  fuel: every loop is structural or has a measure.

  What the lemmas show. Each component has lemmas for what a lookup returns after an operation and
  for every branch of it, errors included. The invariants (\<open>token_inv\<close>, \<open>client_inv\<close>, \<open>auth_inv\<close>,
  \<open>device_inv\<close>) are kept by every operation and so hold in every reachable state. The HTTP
  handlers only make events (\<open>handler_ops\<close>) and the watcher only reloads, so the running
  program refines the machine (\<open>program_refines_machine\<close>): what holds of every run holds of it. What
  the machine does not show, because any client can be registered there, is shown of the program:
  its registry is well formed (\<open>program_registry_wf\<close>), so an empty secret never
  authenticates. Only the watcher's reloads move it (\<open>registry_only_reloaded\<close>).

  Defects the model shows, each with a theorem: the watcher's start can miss an edit
  (\<open>startup_loses_update\<close>); a refused rotation leaves a live access token
  (\<open>refused_rotation_leaves_token\<close>); ending a session can miss a refresh token
  (\<open>session_end_misses_refresh\<close>); tokens of a device login belong to no client
  (\<open>device_tokens_unowned\<close>); narrowed scopes stick to the rotated refresh token
  (\<open>narrowing_persists\<close>); the login picker does not escape the request id for the query
  (\<open>login_link_injection\<close>); a clients file can overwrite a seeded client (\<open>seed_overwritten\<close>).

  Not modelled: the OP library, the SDK's server and decision service, the YAML library and the
  standard library's file server are parameters; RSA and SHA-256 are values passed through; what the
  OP's types do with a userinfo and a time is a parameter (\<open>oidcLib\<close>); of signals only that they cancel
  the context; the serving loops, whose result is a parameter of \<open>exitStatus\<close>; the table of printable
  runes above ASCII and the texts of the libraries' errors are parameters; \<open>http.Redirect\<close> is modelled
  for the targets the code gives it, the path \<open>/\<close> and the OP's absolute URL; the TypeScript frontend.
  Nothing else of the Go code under \<open>internal/idp\<close> and \<open>cmd\<close> is left out but comments, imports, the
  compile-time checks of interfaces, and the structs \<open>loginHandler\<close> and \<open>launchpad\<close>, whose fields are
  arguments here.
\<close>

end
